(* ===== verification/Prelude.thy ===== *)
theory Prelude
  imports
    Complex_Main
    "HOL-Library.AList"
    "HOL-Library.Multiset"
    "HOL-Library.List_Lexorder"
    "HOL-Library.Char_ord"
begin

text \<open>
  What every other theory of the library shares: the exceptions of the Python code as a
  datatype, results as a sum, Python's insertion-ordered dictionaries as association lists,
  decimal text of numbers, and the rounding that \<open>timedelta(seconds=x)\<close> performs.

  Conventions used throughout:
  \<^item> a Python \<open>float\<close> is a \<^typ>\<open>rat\<close> (exact arithmetic: rounding errors of the IEEE
    format are not modelled), a Python \<open>int\<close> is an \<^typ>\<open>int\<close> (or a \<^typ>\<open>nat\<close> where the
    code only ever holds a count);
  \<^item> a \<open>str\<close> is a \<^typ>\<open>string\<close>, the list of the bytes of its UTF-8 encoding;
  \<^item> a call that can raise returns a sum, with \<open>Inl\<close> for the exception;
  \<^item> the clock and the random generator are inputs: an operation that reads
    \<open>time.monotonic()\<close> or \<open>uuid4()\<close> takes the value read as an argument.
\<close>

named_theorems dict_simps \<open>lookups, updates and deletions on insertion-ordered dictionaries\<close>
named_theorems res_simps \<open>sequencing of fallible computations\<close>
named_theorems guard_defs \<open>definitions of boolean guards that proofs unfold\<close>

section \<open>Exceptions and results\<close>

datatype exn =
    ValueError string
  | TypeError
  | KeyError
  | IndexError
  | AttributeError
  | RuntimeError string
  | TimeoutError
  | AppError int string

type_synonym 'a res = "exn + 'a"

definition res_bind :: "('e + 'a) \<Rightarrow> ('a \<Rightarrow> 'e + 'b) \<Rightarrow> 'e + 'b" where
  "res_bind m f = (case m of Inl e \<Rightarrow> Inl e | Inr x \<Rightarrow> f x)"

lemma res_bind_simps [simp, res_simps]:
  "res_bind (Inl e) f = Inl e"
  "res_bind (Inr x) f = f x"
  by (simp_all add: res_bind_def)

lemma res_bind_Inr_iff [res_simps]:
  "res_bind m f = Inr y \<longleftrightarrow> (\<exists>x. m = Inr x \<and> f x = Inr y)"
  by (cases m) auto

lemma res_bind_Inl_iff [res_simps]:
  "res_bind m f = Inl e \<longleftrightarrow> m = Inl e \<or> (\<exists>x. m = Inr x \<and> f x = Inl e)"
  by (cases m) auto

text \<open>A list of fallible computations, run left to right, stopping at the first exception.\<close>

fun res_map :: "('a \<Rightarrow> 'e + 'b) \<Rightarrow> 'a list \<Rightarrow> 'e + 'b list" where
  "res_map f [] = Inr []"
| "res_map f (x # xs) =
     res_bind (f x) (\<lambda>y. res_bind (res_map f xs) (\<lambda>ys. Inr (y # ys)))"

lemma res_map_Inr_length: "res_map f xs = Inr ys \<Longrightarrow> length ys = length xs"
  by (induction xs arbitrary: ys) (auto simp: res_simps)

definition require :: "bool \<Rightarrow> exn \<Rightarrow> unit res" where
  "require b e = (if b then Inr () else Inl e)"

lemma require_simps [simp]:
  "require True e = Inr ()"
  "require False e = Inl e"
  "require b e = Inr u \<longleftrightarrow> b"
  "require b e = Inl e' \<longleftrightarrow> \<not> b \<and> e' = e"
  by (auto simp: require_def)

section \<open>Insertion-ordered dictionaries\<close>

text \<open>
  A Python \<open>dict\<close> keeps the order in which keys were first inserted: an assignment to a
  present key keeps its place, a new key goes to the end, \<open>pop\<close> removes the entry. This is
  what \<^const>\<open>AList.update\<close> and \<^const>\<open>AList.delete\<close> do on an association list with
  distinct keys.
\<close>

type_synonym ('k, 'v) dict = "('k \<times> 'v) list"

abbreviation dget :: "('k, 'v) dict \<Rightarrow> 'k \<Rightarrow> 'v option" where
  "dget d k \<equiv> map_of d k"

abbreviation dset :: "'k \<Rightarrow> 'v \<Rightarrow> ('k, 'v) dict \<Rightarrow> ('k, 'v) dict" where
  "dset k v d \<equiv> AList.update k v d"

abbreviation dpop :: "'k \<Rightarrow> ('k, 'v) dict \<Rightarrow> ('k, 'v) dict" where
  "dpop k d \<equiv> AList.delete k d"

abbreviation dkeys :: "('k, 'v) dict \<Rightarrow> 'k list" where
  "dkeys d \<equiv> map fst d"

abbreviation dict_ok :: "('k, 'v) dict \<Rightarrow> bool" where
  "dict_ok d \<equiv> distinct (map fst d)"

lemma dget_dset [simp, dict_simps]:
  "dget (dset k v d) k' = (if k' = k then Some v else dget d k')"
  by (simp add: update_conv')

lemma dget_dpop [simp, dict_simps]:
  "dget (dpop k d) k' = (if k' = k then None else dget d k')"
  by (simp add: delete_conv')

lemma dict_ok_dset [simp, dict_simps]: "dict_ok d \<Longrightarrow> dict_ok (dset k v d)"
  by (rule distinct_update)

lemma dict_ok_dpop [simp, dict_simps]: "dict_ok d \<Longrightarrow> dict_ok (dpop k d)"
  by (rule distinct_delete)

lemma dict_ok_filter [simp, dict_simps]: "dict_ok d \<Longrightarrow> dict_ok (filter P d)"
  by (induction d) auto

lemma dset_fresh [dict_simps]: "k \<notin> set (dkeys d) \<Longrightarrow> dset k v d = d @ [(k, v)]"
  by (induction d) auto

lemma dpop_idem [dict_simps]: "k \<notin> set (dkeys d) \<Longrightarrow> dpop k d = d"
  by (induction d) auto

lemma dkeys_dpop [dict_simps]: "set (dkeys (dpop k d)) = set (dkeys d) - {k}"
  by (induction d) auto

lemma dkeys_dset [dict_simps]: "set (dkeys (dset k v d)) = insert k (set (dkeys d))"
  by (simp add: dom_update)

lemma dget_None_iff [dict_simps]: "dget d k = None \<longleftrightarrow> k \<notin> set (dkeys d)"
  by (simp add: map_of_eq_None_iff)

lemma set_dpop [dict_simps]: "set (dpop k d) = {p \<in> set d. fst p \<noteq> k}"
  by (induction d) auto

lemma length_dpop_le: "length (dpop k d) \<le> length d"
  by (simp add: length_delete_le)

lemma length_dpop_mem: "k \<in> set (dkeys d) \<Longrightarrow> length (dpop k d) < length d"
proof (induction d)
  case Nil
  then show ?case by simp
next
  case (Cons p d)
  show ?case
  proof (cases "fst p = k")
    case True
    then show ?thesis using length_dpop_le [of k d] by (auto simp: le_imp_less_Suc)
  next
    case False
    with Cons show ?thesis by auto
  qed
qed

lemma length_dset_le: "length (dset k v d) \<le> Suc (length d)"
  by (induction d) auto

lemma dpop_hd: "dict_ok (p # d) \<Longrightarrow> dpop (fst p) (p # d) = d"
  by (cases p) (auto simp: dpop_idem)

lemma mset_map_snd_dpop:
  assumes "dict_ok d" and "dget d k = Some v"
  shows "mset (map snd d) = add_mset v (mset (map snd (dpop k d)))"
  using assms
proof (induction d)
  case Nil
  then show ?case by simp
next
  case (Cons p d)
  obtain a b where p: "p = (a, b)" by (cases p)
  show ?case
  proof (cases "a = k")
    case True
    with Cons.prems p have "dpop k d = d" by (intro dpop_idem) auto
    with True Cons.prems p show ?thesis by simp
  next
    case False
    with Cons p show ?thesis by simp
  qed
qed

section \<open>Decimal text\<close>

definition digit_char :: "nat \<Rightarrow> char" where
  "digit_char d = char_of (48 + d)"

definition is_digit :: "char \<Rightarrow> bool" where
  "is_digit c \<longleftrightarrow> (48::nat) \<le> of_char c \<and> of_char c \<le> (57::nat)"

definition digit_val :: "char \<Rightarrow> nat" where
  "digit_val c = of_char c - 48"

fun show_nat :: "nat \<Rightarrow> string" where
  "show_nat n = (if n < 10 then [digit_char n] else show_nat (n div 10) @ [digit_char (n mod 10)])"

declare show_nat.simps [simp del]

definition show_int :: "int \<Rightarrow> string" where
  "show_int i = (if i < 0 then CHR ''-'' # show_nat (nat (- i)) else show_nat (nat i))"

definition is_digits :: "string \<Rightarrow> bool" where
  "is_digits s \<longleftrightarrow> s \<noteq> [] \<and> list_all is_digit s"

definition parse_nat :: "string \<Rightarrow> nat" where
  "parse_nat s = foldl (\<lambda>n c. 10 * n + digit_val c) 0 s"

lemma digit_val_char [simp]: "d < 10 \<Longrightarrow> digit_val (digit_char d) = d"
  by (simp add: digit_val_def digit_char_def)

lemma is_digit_char [simp]: "d < 10 \<Longrightarrow> is_digit (digit_char d)"
  by (simp add: is_digit_def digit_char_def)

lemma is_digits_show_nat [simp]: "is_digits (show_nat n)"
proof (induction n rule: show_nat.induct)
  case (1 n)
  then show ?case
    by (cases "n < 10") (auto simp: is_digits_def show_nat.simps [of n])
qed

lemma parse_show_nat [simp]: "parse_nat (show_nat n) = n"
proof (induction n rule: show_nat.induct)
  case (1 n)
  show ?case
  proof (cases "n < 10")
    case True
    then show ?thesis by (simp add: show_nat.simps [of n] parse_nat_def)
  next
    case False
    then have "parse_nat (show_nat n) = 10 * parse_nat (show_nat (n div 10)) + n mod 10"
      by (simp add: show_nat.simps [of n] parse_nat_def)
    with 1 False show ?thesis by simp
  qed
qed

lemma show_nat_inj: "show_nat m = show_nat n \<Longrightarrow> m = n"
  by (metis parse_show_nat)

lemma is_digits_no_colon: "is_digits s \<Longrightarrow> CHR '':'' \<notin> set s"
  by (auto simp: is_digits_def list_all_iff is_digit_def)

text \<open>\<open>str.partition(sep)\<close> at a one-character separator: (before, separator found, after).\<close>

definition str_partition :: "char \<Rightarrow> string \<Rightarrow> string \<times> bool \<times> string" where
  "str_partition c s =
     (takeWhile (\<lambda>x. x \<noteq> c) s, c \<in> set s, drop 1 (dropWhile (\<lambda>x. x \<noteq> c) s))"

lemma str_partition_append:
  "c \<notin> set a \<Longrightarrow> str_partition c (a @ c # b) = (a, True, b)"
proof -
  assume "c \<notin> set a"
  then have *: "\<forall>x \<in> set a. x \<noteq> c" by auto
  have "takeWhile (\<lambda>x. x \<noteq> c) (a @ c # b) = a" using * by (subst takeWhile_append2) auto
  moreover have "dropWhile (\<lambda>x. x \<noteq> c) (a @ c # b) = c # b" using * by (subst dropWhile_append2) auto
  ultimately show ?thesis by (simp add: str_partition_def)
qed

section \<open>Rounding to microseconds\<close>

text \<open>
  An instant is its number of microseconds since the epoch (aware datetimes). Python's
  \<open>timedelta(seconds=x)\<close> rounds \<open>x\<close> to the nearest microsecond, ties to even.
\<close>

type_synonym instant = int

definition round_half_even :: "rat \<Rightarrow> int" where
  "round_half_even x =
     (let f = \<lfloor>x\<rfloor>; d = x - of_int f
      in if d < 1 / 2 then f else if 1 / 2 < d then f + 1 else if even f then f else f + 1)"

definition td_seconds :: "rat \<Rightarrow> int" where
  "td_seconds x = round_half_even (x * 1000000)"

definition td_minutes :: "int \<Rightarrow> int" where
  "td_minutes m = m * 60000000"

lemma round_half_even_cases: "round_half_even x = \<lfloor>x\<rfloor> \<or> round_half_even x = \<lfloor>x\<rfloor> + 1"
  by (simp add: round_half_even_def Let_def)

lemma round_half_even_ge_floor: "\<lfloor>x\<rfloor> \<le> round_half_even x"
  using round_half_even_cases [of x] by auto

lemma td_seconds_nonneg: "0 \<le> x \<Longrightarrow> 0 \<le> td_seconds x"
proof -
  assume "0 \<le> x"
  then have "0 \<le> \<lfloor>x * 1000000\<rfloor>" by simp
  also note round_half_even_ge_floor
  finally show ?thesis by (simp add: td_seconds_def)
qed

lemma td_minutes_nonneg: "0 \<le> m \<Longrightarrow> 0 \<le> td_minutes m"
  by (simp add: td_minutes_def)

lemma round_half_even_int [simp]: "round_half_even (of_int i) = i"
  by (simp add: round_half_even_def)

section \<open>Generic lemmas on lists and multisets\<close>

lemma take_butlast_last_bound: "length (drop (length xs - n) xs) \<le> n"
  by simp

text \<open>The last \<open>n\<close> elements, Python's \<open>xs[-n:]\<close> for \<open>n > 0\<close>.\<close>

definition last_n :: "nat \<Rightarrow> 'a list \<Rightarrow> 'a list" where
  "last_n n xs = drop (length xs - n) xs"

lemma length_last_n [simp]: "length (last_n n xs) = min n (length xs)"
  by (simp add: last_n_def)

lemma last_n_snoc: "0 < n \<Longrightarrow> last_n n (xs @ [x]) \<noteq> [] \<and> last (last_n n (xs @ [x])) = x"
  by (simp add: last_n_def)

lemma last_n_all: "length xs \<le> n \<Longrightarrow> last_n n xs = xs"
  by (simp add: last_n_def)

lemma set_last_n_subset: "set (last_n n xs) \<subseteq> set xs"
  by (simp add: last_n_def set_drop_subset)

lemma mset_insert_at: "mset (take n xs @ x # drop n xs) = add_mset x (mset xs)"
  by (metis add_mset_commute append_take_drop_id mset.simps(2) mset_append union_mset_add_mset_right)

end
