(* ===== verification/Json.thy ===== *)
theory Json
  imports Prelude
begin

text \<open>
  JSON values as Python's \<open>json\<close> module sees them, the two serialisations the backend uses
  (\<open>json.dumps(value, ensure_ascii=False)\<close> for stored sizes, and the canonical form that
  \<open>agent_protocol._canonical_json\<close> and \<open>agent_shared_state._hash\<close> feed to SHA-256), the
  coercions \<open>int(x)\<close> and \<open>bool(x)\<close> on such values, and
  \<open>schemas/agent_artifacts.minimize_agent_payload\<close>, which every audit record goes through.

  The text of a float (\<open>repr\<close>) is an argument \<open>fr\<close> of the serialisers.
\<close>

datatype json =
    JNull
  | JBool bool
  | JInt int
  | JFloat rat
  | JStr string
  | JArr "json list"
  | JObj "(string \<times> json) list"

section \<open>Lookups and coercions\<close>

text \<open>\<open>d.get(k)\<close> of a dictionary, \<open>None\<close> (here \<^const>\<open>JNull\<close>) when the key is missing.\<close>

definition obj_get :: "(string \<times> json) list \<Rightarrow> string \<Rightarrow> json" where
  "obj_get kvs k = (case dget kvs k of None \<Rightarrow> JNull | Some v \<Rightarrow> v)"

fun json_truthy :: "json \<Rightarrow> bool" where
  "json_truthy JNull = False"
| "json_truthy (JBool b) = b"
| "json_truthy (JInt i) = (i \<noteq> 0)"
| "json_truthy (JFloat q) = (q \<noteq> 0)"
| "json_truthy (JStr s) = (s \<noteq> [])"
| "json_truthy (JArr xs) = (xs \<noteq> [])"
| "json_truthy (JObj kvs) = (kvs \<noteq> [])"

definition is_space :: "char \<Rightarrow> bool" where
  "is_space c = (let n = of_char c :: nat in n = 32 \<or> (9 \<le> n \<and> n \<le> 13))"

definition str_strip :: "string \<Rightarrow> string" where
  "str_strip s = rev (dropWhile is_space (rev (dropWhile is_space s)))"

text \<open>The digits of \<open>int("...")\<close>: digit groups joined by single underscores.\<close>

fun int_body :: "bool \<Rightarrow> nat \<Rightarrow> string \<Rightarrow> nat option" where
  "int_body after_digit acc [] = (if after_digit then Some acc else None)"
| "int_body after_digit acc (c # cs) =
     (if is_digit c then int_body True (10 * acc + digit_val c) cs
      else if c = CHR ''_'' \<and> after_digit \<and> cs \<noteq> [] then int_body False acc cs
      else None)"

definition parse_int :: "string \<Rightarrow> int res" where
  "parse_int s =
     (let t = str_strip s;
          (neg, body) = (case t of
              c # cs \<Rightarrow> if c = CHR ''-'' then (True, cs) else if c = CHR ''+'' then (False, cs)
                       else (False, t)
            | [] \<Rightarrow> (False, []))
      in case int_body False 0 body of
           None \<Rightarrow> Inl (ValueError ''invalid literal for int()'')
         | Some n \<Rightarrow> Inr (if neg then - int n else int n))"

definition rat_trunc :: "rat \<Rightarrow> int" where
  "rat_trunc q = (if 0 \<le> q then \<lfloor>q\<rfloor> else \<lceil>q\<rceil>)"

fun py_int :: "json \<Rightarrow> int res" where
  "py_int (JInt i) = Inr i"
| "py_int (JBool b) = Inr (if b then 1 else 0)"
| "py_int (JFloat q) = Inr (rat_trunc q)"
| "py_int (JStr s) = parse_int s"
| "py_int _ = Inl TypeError"

text \<open>\<open>int(x or 0)\<close>, the idiom the code uses for optional counts.\<close>

definition py_int_or0 :: "json \<Rightarrow> int res" where
  "py_int_or0 v = (if json_truthy v then py_int v else Inr 0)"

section \<open>Serialisation\<close>

definition hex_char :: "nat \<Rightarrow> char" where
  "hex_char d = (if d < 10 then char_of (48 + d) else char_of (87 + d))"

definition escape_char :: "char \<Rightarrow> string" where
  "escape_char c =
     (let n = of_char c :: nat
      in if n = 34 then [char_of (92::nat), c]
         else if n = 92 then [char_of (92::nat), c]
         else if n = 10 then [char_of (92::nat), CHR ''n'']
         else if n = 13 then [char_of (92::nat), CHR ''r'']
         else if n = 9 then [char_of (92::nat), CHR ''t'']
         else if n = 8 then [char_of (92::nat), CHR ''b'']
         else if n = 12 then [char_of (92::nat), CHR ''f'']
         else if n < 32 then
           [char_of (92::nat), CHR ''u'', CHR ''0'', CHR ''0'', hex_char (n div 16), hex_char (n mod 16)]
         else [c])"

definition json_string :: "string \<Rightarrow> string" where
  "json_string s = char_of (34::nat) # concat (map escape_char s) @ [char_of (34::nat)]"

text \<open>\<open>isep\<close> separates items and \<open>ksep\<close> a key from its value.\<close>

fun dumps :: "(rat \<Rightarrow> string) \<Rightarrow> string \<Rightarrow> string \<Rightarrow> json \<Rightarrow> string"
and dumps_items :: "(rat \<Rightarrow> string) \<Rightarrow> string \<Rightarrow> string \<Rightarrow> json list \<Rightarrow> string"
and dumps_fields :: "(rat \<Rightarrow> string) \<Rightarrow> string \<Rightarrow> string \<Rightarrow> (string \<times> json) list \<Rightarrow> string" where
  "dumps fr isep ksep JNull = ''null''"
| "dumps fr isep ksep (JBool b) = (if b then ''true'' else ''false'')"
| "dumps fr isep ksep (JInt i) = show_int i"
| "dumps fr isep ksep (JFloat q) = fr q"
| "dumps fr isep ksep (JStr s) = json_string s"
| "dumps fr isep ksep (JArr xs) = ''['' @ dumps_items fr isep ksep xs @ '']''"
| "dumps fr isep ksep (JObj kvs) = ''{'' @ dumps_fields fr isep ksep kvs @ ''}''"
| "dumps_items fr isep ksep [] = []"
| "dumps_items fr isep ksep [x] = dumps fr isep ksep x"
| "dumps_items fr isep ksep (x # y # xs) =
     dumps fr isep ksep x @ isep @ dumps_items fr isep ksep (y # xs)"
| "dumps_fields fr isep ksep [] = []"
| "dumps_fields fr isep ksep [(k, v)] = json_string k @ ksep @ dumps fr isep ksep v"
| "dumps_fields fr isep ksep ((k, v) # f # kvs) =
     json_string k @ ksep @ dumps fr isep ksep v @ isep @ dumps_fields fr isep ksep (f # kvs)"

text \<open>\<open>len(json.dumps(value, ensure_ascii=False).encode("utf-8"))\<close>.\<close>

definition encoded_size :: "(rat \<Rightarrow> string) \<Rightarrow> json \<Rightarrow> int" where
  "encoded_size fr v = int (length (dumps fr '', '' '': '' v))"

text \<open>
  \<open>_canonical_json\<close>: keys sorted at every level (by code point, which on UTF-8 is by byte),
  compact separators. \<open>default=str\<close> concerns values that are not JSON; they do not occur here.
\<close>

fun sort_keys :: "json \<Rightarrow> json"
and sort_keys_list :: "json list \<Rightarrow> json list"
and sort_keys_fields :: "(string \<times> json) list \<Rightarrow> (string \<times> json) list" where
  "sort_keys (JArr xs) = JArr (sort_keys_list xs)"
| "sort_keys (JObj kvs) = JObj (sort_key fst (sort_keys_fields kvs))"
| "sort_keys v = v"
| "sort_keys_list [] = []"
| "sort_keys_list (x # xs) = sort_keys x # sort_keys_list xs"
| "sort_keys_fields [] = []"
| "sort_keys_fields ((k, v) # kvs) = (k, sort_keys v) # sort_keys_fields kvs"

definition canonical_json :: "(rat \<Rightarrow> string) \<Rightarrow> json \<Rightarrow> string" where
  "canonical_json fr v = dumps fr '','' '':'' (sort_keys v)"

lemma encoded_size_nonneg [simp]: "0 \<le> encoded_size fr v"
  by (simp add: encoded_size_def)

lemma keys_sort_keys_fields: "map fst (sort_keys_fields kvs) = map fst kvs"
  by (induction kvs) auto

text \<open>
  The canonical form does not depend on the order in which the keys of a dictionary were
  inserted: two permutations of the same fields serialise to the same text.
\<close>

lemma sort_keys_fields_map: "sort_keys_fields kvs = map (\<lambda>(k, v). (k, sort_keys v)) kvs"
  by (induction kvs) auto

lemma sort_key_fst_perm:
  fixes xs ys :: "(string \<times> 'b) list"
  assumes "mset xs = mset ys" and d: "distinct (map fst xs)"
  shows "sort_key fst xs = sort_key fst ys"
proof (rule map_sorted_distinct_set_unique [where f = fst])
  have dy: "distinct (map fst ys)"
    using assms by (metis mset_eq_imp_distinct_iff mset_map)
  show dsx: "distinct (map fst (sort_key fst xs))"
    using d by (metis mset_eq_imp_distinct_iff mset_map mset_sort)
  show "distinct (map fst (sort_key fst ys))"
    using dy by (metis mset_eq_imp_distinct_iff mset_map mset_sort)
  have same: "set xs = set ys" using assms(1) by (rule mset_eq_setD)
  then show "set (sort_key fst xs) = set (sort_key fst ys)" by simp
  show "inj_on fst (set (sort_key fst xs) \<union> set (sort_key fst ys))"
    using d same by (simp add: distinct_map)
qed simp_all

lemma canonical_json_perm:
  assumes "mset kvs = mset kvs'" and "dict_ok kvs"
  shows "canonical_json fr (JObj kvs) = canonical_json fr (JObj kvs')"
proof -
  have "mset (sort_keys_fields kvs) = mset (sort_keys_fields kvs')"
    by (simp add: sort_keys_fields_map assms(1))
  then have "sort_key fst (sort_keys_fields kvs) = sort_key fst (sort_keys_fields kvs')"
    using assms(2) by (intro sort_key_fst_perm) (simp_all add: keys_sort_keys_fields)
  then show ?thesis by (simp add: canonical_json_def)
qed

section \<open>Minimisation of audit payloads\<close>

text \<open>Length and prefix in code points: a UTF-8 continuation byte does not start one.\<close>

definition is_cont :: "char \<Rightarrow> bool" where
  "is_cont c = (let n = of_char c :: nat in 128 \<le> n \<and> n < 192)"

definition cp_length :: "string \<Rightarrow> nat" where
  "cp_length s = length (filter (\<lambda>c. \<not> is_cont c) s)"

fun cp_take :: "nat \<Rightarrow> string \<Rightarrow> string" where
  "cp_take n [] = []"
| "cp_take n (c # cs) =
     (if is_cont c then c # cp_take n cs
      else case n of 0 \<Rightarrow> [] | Suc m \<Rightarrow> c # cp_take m cs)"

definition lower_char :: "char \<Rightarrow> char" where
  "lower_char c = (let n = of_char c :: nat in if 65 \<le> n \<and> n \<le> 90 then char_of (n + 32) else c)"

definition str_lower :: "string \<Rightarrow> string" where
  "str_lower s = map lower_char s"

definition ends_with :: "string \<Rightarrow> string \<Rightarrow> bool" where
  "ends_with suf s \<longleftrightarrow> length suf \<le> length s \<and> drop (length s - length suf) s = suf"

definition secret_keys :: "string list" where
  "secret_keys = [''authorization'', ''token'', ''access_token'', ''refresh_token'', ''password'',
     ''secret'', ''api_key'', ''amap_key'', ''amap_jscode'', ''jscode'', ''location_encryption_key'']"

definition raw_text_keys :: "string list" where
  "raw_text_keys = [''text'', ''input_text'', ''raw_text'', ''user_text'']"

definition redacted_coordinate :: "(string \<times> json) list" where
  "redacted_coordinate =
     [(''redacted'', JStr ''coordinate''), (''reason'', JStr ''agent_artifact_minimized'')]"

definition max_artifact_string :: nat where
  "max_artifact_string = 800"

definition looks_like_coordinate :: "(string \<times> json) list \<Rightarrow> bool" where
  "looks_like_coordinate kvs \<longleftrightarrow>
     (''lng'' \<in> set (dkeys kvs) \<and> ''lat'' \<in> set (dkeys kvs)) \<or>
     (''longitude'' \<in> set (dkeys kvs) \<and> ''latitude'' \<in> set (dkeys kvs))"

definition is_secret_key :: "string \<Rightarrow> bool" where
  "is_secret_key k =
     (let n = str_lower k
      in n \<in> set secret_keys \<or> ends_with ''_token'' n \<or> ends_with ''_secret'' n \<or> ends_with ''_key'' n)"

definition is_raw_text_key :: "string \<Rightarrow> bool" where
  "is_raw_text_key k \<longleftrightarrow> str_lower k \<in> set raw_text_keys"

fun minimize :: "json \<Rightarrow> json"
and minimize_list :: "json list \<Rightarrow> json list"
and minimize_fields :: "(string \<times> json) list \<Rightarrow> (string \<times> json) list" where
  "minimize (JObj kvs) =
     (if looks_like_coordinate kvs then JObj redacted_coordinate else JObj (minimize_fields kvs))"
| "minimize (JArr xs) = JArr (minimize_list xs)"
| "minimize (JStr s) =
     (if max_artifact_string < cp_length s
      then JStr (cp_take max_artifact_string s @ ''...[truncated]'') else JStr s)"
| "minimize v = v"
| "minimize_list [] = []"
| "minimize_list (x # xs) = minimize x # minimize_list xs"
| "minimize_fields [] = []"
| "minimize_fields ((k, v) # kvs) =
     (k, if is_secret_key k then JStr ''[REDACTED]''
         else if is_raw_text_key k then JStr ''[REDACTED_TEXT]''
         else minimize v) # minimize_fields kvs"

lemma dkeys_minimize_fields [simp]: "dkeys (minimize_fields kvs) = dkeys kvs"
  by (induction kvs) auto

text \<open>
  What an audit record may hold: no object that looks like a coordinate, no secret or raw-text
  field with its own value, no string longer than the cap and its marker.
\<close>

fun audit_safe :: "json \<Rightarrow> bool"
and audit_safe_list :: "json list \<Rightarrow> bool"
and audit_safe_fields :: "(string \<times> json) list \<Rightarrow> bool" where
  "audit_safe (JObj kvs) \<longleftrightarrow> \<not> looks_like_coordinate kvs \<and> audit_safe_fields kvs"
| "audit_safe (JArr xs) \<longleftrightarrow> audit_safe_list xs"
| "audit_safe (JStr s) \<longleftrightarrow> cp_length s \<le> max_artifact_string + length ''...[truncated]''"
| "audit_safe v \<longleftrightarrow> True"
| "audit_safe_list [] \<longleftrightarrow> True"
| "audit_safe_list (x # xs) \<longleftrightarrow> audit_safe x \<and> audit_safe_list xs"
| "audit_safe_fields [] \<longleftrightarrow> True"
| "audit_safe_fields ((k, v) # kvs) \<longleftrightarrow>
     (is_secret_key k \<longrightarrow> v = JStr ''[REDACTED]'') \<and>
     (\<not> is_secret_key k \<and> is_raw_text_key k \<longrightarrow> v = JStr ''[REDACTED_TEXT]'') \<and>
     audit_safe v \<and> audit_safe_fields kvs"

lemma cp_length_take: "cp_length (cp_take n s) \<le> n"
proof (induction n s rule: cp_take.induct)
  case (1 n)
  then show ?case by (simp add: cp_length_def)
next
  case (2 n c cs)
  then show ?case by (auto simp: cp_length_def split: nat.splits)
qed

lemma cp_length_append [simp]: "cp_length (a @ b) = cp_length a + cp_length b"
  by (simp add: cp_length_def)

lemma cp_length_marker [simp]: "cp_length ''...[truncated]'' = 14"
  by (simp add: cp_length_def is_cont_def)

lemma cp_length_take_eq: "n \<le> cp_length s \<Longrightarrow> cp_length (cp_take n s) = n"
proof (induction n s rule: cp_take.induct)
  case (1 n)
  then show ?case by (simp add: cp_length_def)
next
  case (2 n c cs)
  then show ?case by (auto simp: cp_length_def split: nat.splits)
qed

text \<open>A prefix of exactly \<open>n\<close> code points followed by a fresh code point is cut there again.\<close>

lemma cp_take_append:
  assumes "cp_length a = n" and "b \<noteq> []" and "\<not> is_cont (hd b)"
  shows "cp_take n (a @ b) = a"
  using assms(1)
proof (induction a arbitrary: n)
  case Nil
  with assms(2,3) show ?case by (cases b) (auto simp: cp_length_def)
next
  case (Cons c a)
  show ?case
  proof (cases "is_cont c")
    case True
    with Cons show ?thesis by (simp add: cp_length_def)
  next
    case False
    with Cons.prems obtain m where "n = Suc m" and "cp_length a = m" by (auto simp: cp_length_def)
    with False Cons.IH show ?thesis by simp
  qed
qed

lemma redacted_coordinate_facts [simp]:
  "\<not> looks_like_coordinate redacted_coordinate"
  "audit_safe_fields redacted_coordinate"
  "minimize_fields redacted_coordinate = redacted_coordinate"
  by (simp_all add: redacted_coordinate_def looks_like_coordinate_def is_secret_key_def
      is_raw_text_key_def secret_keys_def raw_text_keys_def str_lower_def lower_char_def
      ends_with_def max_artifact_string_def cp_length_def is_cont_def)

lemma redaction_marks_short [simp]:
  "cp_length ''[REDACTED]'' = 10" "cp_length ''[REDACTED_TEXT]'' = 15"
  by (simp_all add: cp_length_def is_cont_def)

lemma looks_like_coordinate_minimize_fields [simp]:
  "looks_like_coordinate (minimize_fields kvs) = looks_like_coordinate kvs"
  by (simp add: looks_like_coordinate_def)

lemma minimize_audit_safe:
  "audit_safe (minimize v)"
  "audit_safe_list (minimize_list vs)"
  "audit_safe_fields (minimize_fields kvs)"
proof (induction v and vs and kvs rule: minimize_minimize_list_minimize_fields.induct)
  case (3 s)
  then show ?case
    using cp_length_take [of max_artifact_string s] by (simp add: max_artifact_string_def)
qed (auto simp: max_artifact_string_def)

lemma minimize_idem:
  "minimize (minimize v) = minimize v"
  "minimize_list (minimize_list vs) = minimize_list vs"
  "minimize_fields (minimize_fields kvs) = minimize_fields kvs"
proof (induction v and vs and kvs rule: minimize_minimize_list_minimize_fields.induct)
  case (3 s)
  show ?case
  proof (cases "max_artifact_string < cp_length s")
    case True
    then have len: "cp_length (cp_take max_artifact_string s) = max_artifact_string"
      by (intro cp_length_take_eq) simp
    have "cp_take max_artifact_string (cp_take max_artifact_string s @ ''...[truncated]'')
        = cp_take max_artifact_string s"
      using len by (rule cp_take_append) (simp_all add: is_cont_def)
    with True len show ?thesis by simp
  next
    case False
    then show ?thesis by simp
  qed
qed (auto simp: max_artifact_string_def)

end
