(* ===== verification/Runtime_Store.thy ===== *)
theory Runtime_Store
  imports Json
begin

text \<open>
  \<open>infrastructure/runtime_store.py\<close>: the in-memory runtime store (JSON values with expiry and
  size accounting, rate-limit counters, reserved queues, fenced locks, publish/subscribe), and
  the parsing of lock ownership tokens. Every method body runs under \<open>self._lock\<close>, so each is
  one atomic step on the record \<open>store\<close>; readings of the clock and fresh identifiers are
  arguments. The interfaces other components rely on are interpreted in \<open>Store_Contracts\<close>.
\<close>

type_synonym payload = "(string \<times> json) list"

record store =
  rs_values :: "(string, json \<times> rat) dict"
  rs_value_sizes :: "(string, int) dict"
  rs_value_bytes :: int
  rs_counters :: "(string, int \<times> rat) dict"
  rs_counter_operations :: nat
  rs_max_values :: int
  rs_max_value_bytes :: int
  rs_max_counters :: int
  rs_queues :: "string \<Rightarrow> payload list"
  rs_processing :: "string \<Rightarrow> (string, payload) dict"
  rs_locks :: "(string, string \<times> rat) dict"
  rs_lock_fences :: "string \<Rightarrow> nat"
  rs_subscribers :: "string \<Rightarrow> payload list list"

section \<open>Helpers of the module\<close>

definition retry_delay :: "int \<Rightarrow> rat" where
  "retry_delay attempt = min 300 (power_int 2 attempt)"

definition lock_fencing_token :: "string \<Rightarrow> int res" where
  "lock_fencing_token token =
     (let (pre, sep, owner) = str_partition (CHR '':'') token
      in if \<not> sep \<or> owner = [] \<or> \<not> is_digits pre \<or> parse_nat pre < 1
         then Inl (ValueError ''lock token does not contain a valid fencing token'')
         else Inr (int (parse_nat pre)))"

definition new_store :: "int \<Rightarrow> int \<Rightarrow> int \<Rightarrow> store res" where
  "new_store max_values max_value_bytes max_counters =
     (if min max_values (min max_value_bytes max_counters) \<le> 0
      then Inl (ValueError ''in-memory runtime store limits must be positive'')
      else Inr \<lparr>rs_values = [], rs_value_sizes = [], rs_value_bytes = 0, rs_counters = [],
                rs_counter_operations = 0, rs_max_values = max_values,
                rs_max_value_bytes = max_value_bytes, rs_max_counters = max_counters,
                rs_queues = (\<lambda>_. []), rs_processing = (\<lambda>_. []), rs_locks = [],
                rs_lock_fences = (\<lambda>_. 0), rs_subscribers = (\<lambda>_. [])\<rparr>)"

section \<open>JSON values\<close>

definition remove_value :: "string \<Rightarrow> store \<Rightarrow> store" where
  "remove_value k s =
     s\<lparr>rs_values := dpop k (rs_values s),
       rs_value_bytes := rs_value_bytes s
         - (case dget (rs_value_sizes s) k of None \<Rightarrow> 0 | Some b \<Rightarrow> b),
       rs_value_sizes := dpop k (rs_value_sizes s)\<rparr>"

fun purge_values_loop :: "rat \<Rightarrow> (string \<times> json \<times> rat) list \<Rightarrow> store \<Rightarrow> store" where
  "purge_values_loop now [] s = s"
| "purge_values_loop now ((k, v, expires) # items) s =
     purge_values_loop now items (if expires \<le> now then remove_value k s else s)"

definition purge_expired_values :: "rat \<Rightarrow> store \<Rightarrow> store" where
  "purge_expired_values now s = purge_values_loop now (rs_values s) s"

fun purge_counters_loop :: "rat \<Rightarrow> (string \<times> int \<times> rat) list \<Rightarrow> store \<Rightarrow> store" where
  "purge_counters_loop now [] s = s"
| "purge_counters_loop now ((k, v, expires) # items) s =
     purge_counters_loop now items
       (if expires \<le> now then s\<lparr>rs_counters := dpop k (rs_counters s)\<rparr> else s)"

definition purge_expired_counters :: "rat \<Rightarrow> store \<Rightarrow> store" where
  "purge_expired_counters now s = purge_counters_loop now (rs_counters s) s"

text \<open>The eviction loop: drop the oldest entry while the store is full for \<open>n\<close> more bytes.\<close>

definition must_evict :: "int \<Rightarrow> store \<Rightarrow> bool" where
  "must_evict n s \<longleftrightarrow>
     rs_values s \<noteq> [] \<and>
     (rs_max_values s \<le> int (length (rs_values s)) \<or> rs_max_value_bytes s < rs_value_bytes s + n)"

function evict :: "int \<Rightarrow> store \<Rightarrow> store" where
  "evict n s =
     (if must_evict n s then evict n (remove_value (fst (hd (rs_values s))) s) else s)"
  by pat_completeness auto
termination
proof (relation "measure (\<lambda>(n, s). length (rs_values s))")
  fix n s
  assume "must_evict n s"
  then have "fst (hd (rs_values s)) \<in> set (dkeys (rs_values s))"
    by (auto simp: must_evict_def)
  then show "((n, remove_value (fst (hd (rs_values s))) s), n, s)
      \<in> measure (\<lambda>(n, s). length (rs_values s))"
    by (simp add: remove_value_def length_dpop_mem)
qed simp

declare evict.simps [simp del]

definition put_value :: "string \<Rightarrow> json \<Rightarrow> int \<Rightarrow> rat \<Rightarrow> store \<Rightarrow> store" where
  "put_value k v n expires s =
     s\<lparr>rs_values := dset k (v, expires) (rs_values s),
       rs_value_sizes := dset k n (rs_value_sizes s),
       rs_value_bytes := rs_value_bytes s + n\<rparr>"

definition get_json :: "string \<Rightarrow> rat \<Rightarrow> store \<Rightarrow> json option \<times> store" where
  "get_json k now s =
     (case dget (rs_values s) k of
        None \<Rightarrow> (None, remove_value k s)
      | Some (v, expires) \<Rightarrow>
          if expires \<le> now then (None, remove_value k s) else (Some v, s))"

definition set_json ::
  "(rat \<Rightarrow> string) \<Rightarrow> string \<Rightarrow> json \<Rightarrow> rat \<Rightarrow> rat \<Rightarrow> rat \<Rightarrow> store \<Rightarrow> store" where
  "set_json fr k v ttl now now2 s =
     (let s1 = purge_expired_values now s;
          n = encoded_size fr v;
          s2 = remove_value k s1
      in if rs_max_value_bytes s2 < n then s2
         else put_value k v n (now2 + ttl) (evict n s2))"

definition delete_json :: "string \<Rightarrow> store \<Rightarrow> bool \<times> store" where
  "delete_json k s = (k \<in> set (dkeys (rs_values s)), remove_value k s)"

text \<open>The comparison of \<open>compare_set_json\<close>, whose \<open>int(...)\<close> can raise.\<close>

definition revision_matches :: "(json \<times> rat) option \<Rightarrow> int \<Rightarrow> bool res" where
  "revision_matches current expected =
     (case current of
        None \<Rightarrow> Inr (expected = -1)
      | Some (JObj kvs, _) \<Rightarrow>
          res_bind (py_int (case dget kvs ''revision'' of None \<Rightarrow> JInt (-1) | Some r \<Rightarrow> r))
            (\<lambda>r. Inr (r = expected))
      | Some _ \<Rightarrow> Inr False)"

definition compare_set_json ::
  "(rat \<Rightarrow> string) \<Rightarrow> string \<Rightarrow> int \<Rightarrow> json \<Rightarrow> rat \<Rightarrow> rat \<Rightarrow> store \<Rightarrow> bool res \<times> store" where
  "compare_set_json fr k expected v ttl now s =
     (let s1 = purge_expired_values now s
      in case revision_matches (dget (rs_values s1) k) expected of
           Inl e \<Rightarrow> (Inl e, s1)
         | Inr False \<Rightarrow> (Inr False, s1)
         | Inr True \<Rightarrow>
             let n = encoded_size fr v
             in if rs_max_value_bytes s1 < n then (Inr False, s1)
                else (Inr True, put_value k v n (now + ttl) (evict n (remove_value k s1))))"

section \<open>Counters\<close>

definition counter_ceiling :: int where
  "counter_ceiling = 2 ^ 63 - 1"

definition increment :: "string \<Rightarrow> rat \<Rightarrow> int \<Rightarrow> rat \<Rightarrow> store \<Rightarrow> int \<times> store" where
  "increment k ttl amount now s =
     (let s1 = s\<lparr>rs_counter_operations := Suc (rs_counter_operations s)\<rparr>;
          s2 = (if rs_counter_operations s1 mod 256 = 0
                   \<or> rs_max_counters s1 \<le> int (length (rs_counters s1))
                then purge_expired_counters now s1 else s1)
      in if k \<notin> set (dkeys (rs_counters s2)) \<and> rs_max_counters s2 \<le> int (length (rs_counters s2))
         then (counter_ceiling, s2)
         else
           let (v, expires) = (case dget (rs_counters s2) k of None \<Rightarrow> (0, 0) | Some p \<Rightarrow> p);
               (v1, expires1) = (if expires \<le> now then (0, now + ttl) else (v, expires));
               v2 = v1 + amount
           in (v2, s2\<lparr>rs_counters := dset k (v2, expires1) (rs_counters s2)\<rparr>))"

section \<open>Reserved queues\<close>

definition enqueue :: "string \<Rightarrow> payload \<Rightarrow> store \<Rightarrow> store" where
  "enqueue q v s = s\<lparr>rs_queues := (rs_queues s)(q := rs_queues s q @ [v])\<rparr>"

text \<open>
  \<open>dequeue\<close> and \<open>reserve\<close> poll: one iteration takes the lock and looks at the queue, then
  compares the clock with the deadline, then sleeps. An iteration is one step here.
\<close>

datatype 'a poll = Got 'a | Timed_out | Sleeping

record reserved_message =
  rm_receipt :: string
  rm_payload :: payload

definition dequeue_poll :: "string \<Rightarrow> rat \<Rightarrow> rat \<Rightarrow> store \<Rightarrow> payload poll \<times> store" where
  "dequeue_poll q deadline now s =
     (case rs_queues s q of
        x # xs \<Rightarrow> (Got x, s\<lparr>rs_queues := (rs_queues s)(q := xs)\<rparr>)
      | [] \<Rightarrow> (if deadline \<le> now then Timed_out else Sleeping, s))"

definition reserve_poll ::
  "string \<Rightarrow> rat \<Rightarrow> rat \<Rightarrow> string \<Rightarrow> store \<Rightarrow> reserved_message poll \<times> store" where
  "reserve_poll q deadline now receipt s =
     (case rs_queues s q of
        x # xs \<Rightarrow>
          (Got \<lparr>rm_receipt = receipt, rm_payload = x\<rparr>,
           s\<lparr>rs_queues := (rs_queues s)(q := xs),
             rs_processing := (rs_processing s)(q := dset receipt x (rs_processing s q))\<rparr>)
      | [] \<Rightarrow> (if deadline \<le> now then Timed_out else Sleeping, s))"

text \<open>
  The whole call: each element of the list is one iteration, with what the other tasks did to
  the store during the sleep, the clock reading, and the fresh receipt. \<open>None\<close> is a call that
  is still waiting when the list ends.
\<close>

fun reserve_loop ::
  "string \<Rightarrow> rat \<Rightarrow> ((store \<Rightarrow> store) \<times> rat \<times> string) list \<Rightarrow> store
     \<Rightarrow> (reserved_message option \<times> store) option" where
  "reserve_loop q deadline [] s = None"
| "reserve_loop q deadline ((env, now, receipt) # its) s =
     (case reserve_poll q deadline now receipt (env s) of
        (Got m, s') \<Rightarrow> Some (Some m, s')
      | (Timed_out, s') \<Rightarrow> Some (None, s')
      | (Sleeping, s') \<Rightarrow> reserve_loop q deadline its s')"

definition reserve ::
  "string \<Rightarrow> rat \<Rightarrow> rat \<Rightarrow> ((store \<Rightarrow> store) \<times> rat \<times> string) list \<Rightarrow> store
     \<Rightarrow> (reserved_message option \<times> store) option" where
  "reserve q timeout start its s = reserve_loop q (start + max 0 timeout) its s"

definition acknowledge :: "string \<Rightarrow> string \<Rightarrow> store \<Rightarrow> bool \<times> store" where
  "acknowledge q receipt s =
     (dget (rs_processing s q) receipt \<noteq> None,
      s\<lparr>rs_processing := (rs_processing s)(q := dpop receipt (rs_processing s q))\<rparr>)"

fun recover_loop :: "string \<Rightarrow> (string \<times> payload) list \<Rightarrow> store \<Rightarrow> store" where
  "recover_loop q [] s = s"
| "recover_loop q ((receipt, x) # pending) s =
     recover_loop q pending
       (s\<lparr>rs_queues := (rs_queues s)(q := x # rs_queues s q),
          rs_processing := (rs_processing s)(q := dpop receipt (rs_processing s q))\<rparr>)"

definition recover_processing :: "string \<Rightarrow> int \<Rightarrow> store \<Rightarrow> nat \<times> store" where
  "recover_processing q limit s =
     (let pending = take (nat (max 0 limit)) (rs_processing s q)
      in (length pending, recover_loop q pending s))"

definition enqueue_retry ::
  "string \<Rightarrow> payload \<Rightarrow> int \<Rightarrow> int \<Rightarrow> rat option \<Rightarrow> rat \<Rightarrow> store \<Rightarrow> string \<times> store" where
  "enqueue_retry q v attempt max_attempts delay_seconds wall s =
     (let p = dset ''_max_attempts'' (JInt max_attempts) (dset ''_attempt'' (JInt attempt) v)
      in if max_attempts \<le> attempt then (''dlq'', enqueue (q @ '':dlq'') p s)
         else
           let delay = (case delay_seconds of Some d \<Rightarrow> d | None \<Rightarrow> retry_delay attempt);
               p' = dset ''_available_at'' (JFloat (wall + delay)) p
           in (''retry'', enqueue (q @ '':retry'') p' s))"

section \<open>Fenced locks\<close>

definition acquire_lock ::
  "string \<Rightarrow> rat \<Rightarrow> string option \<Rightarrow> string \<Rightarrow> rat \<Rightarrow> store \<Rightarrow> string option \<times> store" where
  "acquire_lock name ttl token fresh now s =
     (let held = (case dget (rs_locks s) name of None \<Rightarrow> False | Some (_, expires) \<Rightarrow> now < expires)
      in if held then (None, s)
         else
           let fence = Suc (rs_lock_fences s name);
               owner = (case token of Some t \<Rightarrow> if t = [] then fresh else t | None \<Rightarrow> fresh);
               lock_token = show_nat fence @ '':'' @ owner
           in (Some lock_token,
               s\<lparr>rs_lock_fences := (rs_lock_fences s)(name := fence),
                 rs_locks := dset name (lock_token, now + ttl) (rs_locks s)\<rparr>))"

definition release_lock :: "string \<Rightarrow> string \<Rightarrow> store \<Rightarrow> bool \<times> store" where
  "release_lock name token s =
     (case dget (rs_locks s) name of
        None \<Rightarrow> (False, s)
      | Some (t, _) \<Rightarrow>
          if t \<noteq> token then (False, s)
          else (True, s\<lparr>rs_locks := dpop name (rs_locks s)\<rparr>))"

definition renew_lock :: "string \<Rightarrow> string \<Rightarrow> rat \<Rightarrow> rat \<Rightarrow> store \<Rightarrow> bool \<times> store" where
  "renew_lock name token ttl now s =
     (case dget (rs_locks s) name of
        None \<Rightarrow> (False, s)
      | Some (t, expires) \<Rightarrow>
          if t \<noteq> token \<or> expires \<le> now then (False, s)
          else (True, s\<lparr>rs_locks := dset name (token, now + ttl) (rs_locks s)\<rparr>))"

definition is_lock_owner :: "string \<Rightarrow> string \<Rightarrow> rat \<Rightarrow> store \<Rightarrow> bool" where
  "is_lock_owner name token now s =
     (case dget (rs_locks s) name of
        None \<Rightarrow> False
      | Some (t, expires) \<Rightarrow> t = token \<and> now < expires)"

section \<open>Publish and subscribe\<close>

text \<open>\<open>publish\<close> writes the latest-value entry directly, without the size accounting.\<close>

definition publish :: "string \<Rightarrow> payload \<Rightarrow> rat \<Rightarrow> store \<Rightarrow> store" where
  "publish channel v now s =
     s\<lparr>rs_values := dset (''pub:'' @ channel @ '':latest'') (JObj v, now + 86400) (rs_values s),
       rs_subscribers := (rs_subscribers s)
         (channel := map (\<lambda>queue. queue @ [v]) (rs_subscribers s channel))\<rparr>"

definition subscribe :: "string \<Rightarrow> store \<Rightarrow> nat \<times> store" where
  "subscribe channel s =
     (length (rs_subscribers s channel),
      s\<lparr>rs_subscribers := (rs_subscribers s)(channel := rs_subscribers s channel @ [[]])\<rparr>)"

end
