(* ===== verification/Store_Facts.thy ===== *)
theory Store_Facts
  imports Runtime_Store
begin

text \<open>
  What holds of the in-memory runtime store after any sequence of its operations: the size
  accounting is exact, the byte and counter limits are kept, and the maps have distinct keys;
  and what each operation returns. \<open>store_op\<close> names the operations, so that a run of the store
  is a list of them.
\<close>

section \<open>The invariant of the store\<close>

definition store_ok :: "store \<Rightarrow> bool" where
  "store_ok s \<longleftrightarrow>
     dict_ok (rs_values s) \<and> dict_ok (rs_value_sizes s) \<and> dict_ok (rs_counters s) \<and>
     dict_ok (rs_locks s) \<and>
     set (dkeys (rs_value_sizes s)) \<subseteq> set (dkeys (rs_values s)) \<and>
     (\<forall>n \<in> set (map snd (rs_value_sizes s)). 0 \<le> n) \<and>
     rs_value_bytes s = sum_list (map snd (rs_value_sizes s)) \<and>
     rs_value_bytes s \<le> rs_max_value_bytes s \<and>
     0 < rs_max_values s \<and> 0 < rs_max_value_bytes s \<and> 0 < rs_max_counters s \<and>
     int (length (rs_counters s)) \<le> rs_max_counters s"

text \<open>The entry limit, which only the operations that account for what they write respect.\<close>

definition within_entry_limit :: "store \<Rightarrow> bool" where
  "within_entry_limit s \<longleftrightarrow> int (length (rs_values s)) \<le> rs_max_values s"

lemma sum_list_dpop:
  fixes d :: "(string, int) dict"
  assumes "dict_ok d"
  shows "sum_list (map snd (dpop k d))
       = sum_list (map snd d) - (case dget d k of None \<Rightarrow> 0 | Some n \<Rightarrow> n)"
proof (cases "dget d k")
  case None
  then have "dpop k d = d" by (simp add: dpop_idem dget_None_iff)
  with None show ?thesis by simp
next
  case (Some n)
  have "sum_mset (mset (map snd d)) = n + sum_mset (mset (map snd (dpop k d)))"
    using mset_map_snd_dpop [OF assms Some] by simp
  then show ?thesis using Some by (simp only: sum_mset_sum_list) simp
qed

lemma sum_list_nonneg_int: "(\<forall>n \<in> set xs. 0 \<le> n) \<Longrightarrow> 0 \<le> sum_list (xs :: int list)"
  by (induction xs) auto

lemma remove_value_fields [simp]:
  "rs_values (remove_value k s) = dpop k (rs_values s)"
  "rs_value_sizes (remove_value k s) = dpop k (rs_value_sizes s)"
  "rs_counters (remove_value k s) = rs_counters s"
  "rs_locks (remove_value k s) = rs_locks s"
  "rs_queues (remove_value k s) = rs_queues s"
  "rs_processing (remove_value k s) = rs_processing s"
  "rs_lock_fences (remove_value k s) = rs_lock_fences s"
  "rs_subscribers (remove_value k s) = rs_subscribers s"
  "rs_max_values (remove_value k s) = rs_max_values s"
  "rs_max_value_bytes (remove_value k s) = rs_max_value_bytes s"
  "rs_max_counters (remove_value k s) = rs_max_counters s"
  "rs_counter_operations (remove_value k s) = rs_counter_operations s"
  by (simp_all add: remove_value_def)

lemma store_ok_remove [simp]:
  assumes ok: "store_ok s"
  shows "store_ok (remove_value k s)"
proof -
  have d: "dict_ok (rs_value_sizes s)" using ok by (simp add: store_ok_def)
  have sum: "rs_value_bytes (remove_value k s) = sum_list (map snd (dpop k (rs_value_sizes s)))"
    using ok by (simp add: store_ok_def remove_value_def sum_list_dpop)
  have nonneg: "\<forall>n \<in> set (map snd (rs_value_sizes s)). 0 \<le> n" using ok by (simp add: store_ok_def)
  have "rs_value_bytes (remove_value k s) \<le> rs_value_bytes s"
  proof (cases "dget (rs_value_sizes s) k")
    case None
    then show ?thesis by (simp add: remove_value_def)
  next
    case (Some n)
    then have "n \<in> set (map snd (rs_value_sizes s))"
      by (metis image_eqI list.set_map map_of_SomeD snd_conv)
    then have "0 \<le> n" using nonneg by blast
    then show ?thesis using Some by (simp add: remove_value_def)
  qed
  moreover have "\<forall>n \<in> set (map snd (dpop k (rs_value_sizes s))). 0 \<le> n"
    using nonneg by (auto simp: set_dpop)
  moreover have "set (dkeys (dpop k (rs_value_sizes s))) \<subseteq> set (dkeys (dpop k (rs_values s)))"
    using ok unfolding store_ok_def dkeys_dpop by blast
  ultimately show ?thesis
    using ok sum d unfolding store_ok_def by simp
qed

lemma within_limit_remove [simp]: "within_entry_limit s \<Longrightarrow> within_entry_limit (remove_value k s)"
  using length_dpop_le [of k "rs_values s"] by (simp add: within_entry_limit_def)

lemma new_store_some:
  "0 < mv \<Longrightarrow> 0 < mb \<Longrightarrow> 0 < mc \<Longrightarrow>
     \<exists>s. new_store mv mb mc = Inr s \<and> rs_values s = [] \<and> rs_max_value_bytes s = mb
         \<and> rs_counters s = [] \<and> rs_locks s = [] \<and> rs_lock_fences s = (\<lambda>_. 0)
         \<and> rs_queues s = (\<lambda>_. []) \<and> rs_processing s = (\<lambda>_. [])"
  by (simp add: new_store_def)

subsection \<open>Purging\<close>

text \<open>Purging is a filter: exactly the entries that have expired go.\<close>

definition live_entries :: "rat \<Rightarrow> (string, 'v \<times> rat) dict \<Rightarrow> (string, 'v \<times> rat) dict" where
  "live_entries now d = filter (\<lambda>p. now < snd (snd p)) d"

lemma filter_expired_keys:
  assumes "dict_ok d"
  shows "filter (\<lambda>p. \<forall>q \<in> set d. fst q = fst p \<longrightarrow> now < snd (snd q)) d = live_entries now d"
  unfolding live_entries_def
proof (rule filter_cong [OF refl])
  fix p
  assume p: "p \<in> set d"
  have "q = p" if "q \<in> set d" and "fst q = fst p" for q
    using assms p that by (simp add: distinct_map inj_on_def)
  then show "(\<forall>q \<in> set d. fst q = fst p \<longrightarrow> now < snd (snd q)) \<longleftrightarrow> now < snd (snd p)"
    using p by blast
qed

lemma filter_dpop:
  "filter P (dpop k d) = filter (\<lambda>p. fst p \<noteq> k \<and> P p) d"
  by (induction d) auto

lemma purge_values_loop_values:
  "rs_values (purge_values_loop now items s)
     = filter (\<lambda>p. \<forall>q \<in> set items. fst q = fst p \<longrightarrow> now < snd (snd q)) (rs_values s)"
proof (induction items arbitrary: s)
  case Nil
  then show ?case by simp
next
  case (Cons p items)
  obtain k v e where p: "p = (k, v, e)" by (cases p)
  show ?case
    unfolding p purge_values_loop.simps Cons.IH
    by (cases "e \<le> now") (auto simp: filter_dpop intro!: filter_cong)
qed

lemma purge_expired_values_values:
  "dict_ok (rs_values s)
     \<Longrightarrow> rs_values (purge_expired_values now s) = live_entries now (rs_values s)"
  by (simp add: purge_expired_values_def purge_values_loop_values filter_expired_keys)

lemma purge_values_loop_invariant:
  assumes "\<And>k s. P s \<Longrightarrow> P (remove_value k s)" and "P s"
  shows "P (purge_values_loop now items s)"
  using assms(2) by (induction items arbitrary: s) (auto simp: assms(1))

lemma store_ok_purge_values [simp]: "store_ok s \<Longrightarrow> store_ok (purge_expired_values now s)"
  unfolding purge_expired_values_def by (rule purge_values_loop_invariant) simp_all

lemma within_limit_purge_values [simp]:
  "within_entry_limit s \<Longrightarrow> within_entry_limit (purge_expired_values now s)"
  unfolding purge_expired_values_def by (rule purge_values_loop_invariant) simp_all

lemma purge_values_loop_frame [simp]:
  "rs_counters (purge_values_loop now items s) = rs_counters s"
  "rs_locks (purge_values_loop now items s) = rs_locks s"
  "rs_queues (purge_values_loop now items s) = rs_queues s"
  "rs_processing (purge_values_loop now items s) = rs_processing s"
  "rs_lock_fences (purge_values_loop now items s) = rs_lock_fences s"
  "rs_max_values (purge_values_loop now items s) = rs_max_values s"
  "rs_max_value_bytes (purge_values_loop now items s) = rs_max_value_bytes s"
  "rs_max_counters (purge_values_loop now items s) = rs_max_counters s"
  by (induction items arbitrary: s) auto

lemma purge_expired_values_frame [simp]:
  "rs_counters (purge_expired_values now s) = rs_counters s"
  "rs_locks (purge_expired_values now s) = rs_locks s"
  "rs_queues (purge_expired_values now s) = rs_queues s"
  "rs_processing (purge_expired_values now s) = rs_processing s"
  "rs_lock_fences (purge_expired_values now s) = rs_lock_fences s"
  "rs_max_values (purge_expired_values now s) = rs_max_values s"
  "rs_max_value_bytes (purge_expired_values now s) = rs_max_value_bytes s"
  "rs_max_counters (purge_expired_values now s) = rs_max_counters s"
  by (simp_all add: purge_expired_values_def)

lemma purge_counters_loop_eq:
  "purge_counters_loop now items s
     = s\<lparr>rs_counters := filter (\<lambda>p. \<forall>q \<in> set items. fst q = fst p \<longrightarrow> now < snd (snd q))
          (rs_counters s)\<rparr>"
proof (induction items arbitrary: s)
  case Nil
  then show ?case by simp
next
  case (Cons p items)
  obtain k v e where p: "p = (k, v, e)" by (cases p)
  have "filter (\<lambda>p. \<forall>q \<in> set items. fst q = fst p \<longrightarrow> now < snd (snd q))
          (if e \<le> now then dpop k (rs_counters s) else rs_counters s)
      = filter (\<lambda>p. \<forall>q \<in> set ((k, v, e) # items). fst q = fst p \<longrightarrow> now < snd (snd q))
          (rs_counters s)"
    by (cases "e \<le> now") (auto simp: filter_dpop intro!: filter_cong)
  then show ?case
    unfolding p purge_counters_loop.simps Cons.IH by (cases "e \<le> now") simp_all
qed

lemma purge_expired_counters_eq:
  "dict_ok (rs_counters s)
     \<Longrightarrow> purge_expired_counters now s = s\<lparr>rs_counters := live_entries now (rs_counters s)\<rparr>"
  by (simp add: purge_expired_counters_def purge_counters_loop_eq filter_expired_keys)

lemma dict_ok_live [simp]: "dict_ok d \<Longrightarrow> dict_ok (live_entries now d)"
  by (simp add: live_entries_def)

lemma length_live_le: "length (live_entries now d) \<le> length d"
  by (simp add: live_entries_def)

lemma dget_live:
  "dict_ok d \<Longrightarrow> dget (live_entries now d) k
     = (case dget d k of None \<Rightarrow> None | Some (v, e) \<Rightarrow> if now < e then Some (v, e) else None)"
proof (induction d)
  case Nil
  then show ?case by (simp add: live_entries_def)
next
  case (Cons p d)
  obtain k' v e where p: "p = (k', v, e)" by (cases p)
  show ?case
  proof (cases "k' = k")
    case True
    with Cons.prems p have "k \<notin> fst ` set d" by simp
    then have "dget (live_entries now d) k = None"
      by (auto simp: map_of_eq_None_iff live_entries_def)
    with True p show ?thesis by (simp add: live_entries_def)
  next
    case False
    with Cons p show ?thesis by (simp add: live_entries_def)
  qed
qed

lemma store_ok_purge_counters [simp]:
  assumes "store_ok s"
  shows "store_ok (purge_expired_counters now s)"
proof -
  have d: "dict_ok (rs_counters s)" using assms by (simp add: store_ok_def)
  have "int (length (live_entries now (rs_counters s))) \<le> rs_max_counters s"
    using assms length_live_le [of now "rs_counters s"] by (simp add: store_ok_def)
  with assms d show ?thesis
    unfolding purge_expired_counters_eq [OF d] by (simp add: store_ok_def)
qed

subsection \<open>Eviction\<close>

lemma evict_frame [simp]:
  "rs_counters (evict n s) = rs_counters s"
  "rs_locks (evict n s) = rs_locks s"
  "rs_queues (evict n s) = rs_queues s"
  "rs_processing (evict n s) = rs_processing s"
  "rs_lock_fences (evict n s) = rs_lock_fences s"
  "rs_max_values (evict n s) = rs_max_values s"
  "rs_max_value_bytes (evict n s) = rs_max_value_bytes s"
  "rs_max_counters (evict n s) = rs_max_counters s"
  by (induction n s rule: evict.induct; subst evict.simps; simp)+

lemma store_ok_evict [simp]: "store_ok s \<Longrightarrow> store_ok (evict n s)"
  by (induction n s rule: evict.induct) (subst evict.simps, simp)

lemma evict_absent:
  "k \<notin> set (dkeys (rs_values s)) \<Longrightarrow> k \<notin> set (dkeys (rs_values (evict n s)))"
proof (induction n s rule: evict.induct)
  case (1 n s)
  show ?case
  proof (cases "must_evict n s")
    case True
    have "k \<notin> set (dkeys (rs_values (remove_value (fst (hd (rs_values s))) s)))"
      using 1(2) by (simp add: set_dpop) blast
    with 1(1) True have "k \<notin> set (dkeys (rs_values (evict n (remove_value (fst (hd (rs_values s))) s))))"
      by blast
    with True show ?thesis by (subst evict.simps) simp
  next
    case False
    with 1(2) show ?thesis by (subst evict.simps) simp
  qed
qed

lemma evict_done: "\<not> must_evict n (evict n s)"
proof (induction n s rule: evict.induct)
  case (1 n s)
  then show ?case by (cases "must_evict n s") (simp_all add: evict.simps [of n s])
qed

text \<open>After the loop there is room for one entry of \<open>n\<close> bytes.\<close>

lemma evict_room:
  assumes ok: "store_ok s" and n: "n \<le> rs_max_value_bytes s"
  shows "rs_value_bytes (evict n s) + n \<le> rs_max_value_bytes s"
    and "int (length (rs_values (evict n s))) < rs_max_values s"
proof -
  have ok': "store_ok (evict n s)" using ok by simp
  have empty: "rs_value_bytes (evict n s) = 0" if "rs_values (evict n s) = []"
  proof -
    have "set (dkeys (rs_value_sizes (evict n s))) \<subseteq> set (dkeys (rs_values (evict n s)))"
      using ok' by (simp only: store_ok_def)
    then have "rs_value_sizes (evict n s) = []" using that by simp
    then show ?thesis using ok' by (simp add: store_ok_def)
  qed
  have pos: "0 < rs_max_values s" using ok by (simp add: store_ok_def)
  have "rs_values (evict n s) = [] \<or>
        int (length (rs_values (evict n s))) < rs_max_values s
        \<and> rs_value_bytes (evict n s) + n \<le> rs_max_value_bytes s"
    using evict_done [of n s] by (auto simp: must_evict_def)
  then show "rs_value_bytes (evict n s) + n \<le> rs_max_value_bytes s"
    and "int (length (rs_values (evict n s))) < rs_max_values s"
    using empty pos n by auto
qed

lemma store_ok_put:
  assumes ok: "store_ok s" and fresh: "k \<notin> set (dkeys (rs_values s))"
    and n: "0 \<le> n" "rs_value_bytes s + n \<le> rs_max_value_bytes s"
  shows "store_ok (put_value k v n e s)"
proof -
  have sub: "set (dkeys (rs_value_sizes s)) \<subseteq> set (dkeys (rs_values s))"
    using ok by (simp only: store_ok_def)
  then have fresh': "k \<notin> set (dkeys (rs_value_sizes s))" using fresh by blast
  have "rs_value_sizes (put_value k v n e s) = rs_value_sizes s @ [(k, n)]"
    and "rs_values (put_value k v n e s) = rs_values s @ [(k, v, e)]"
    using fresh fresh' by (simp_all add: put_value_def dset_fresh)
  then show ?thesis
    using ok fresh fresh' n sub unfolding store_ok_def
    by (auto simp: put_value_def)
qed

lemma within_limit_put:
  assumes "int (length (rs_values s)) < rs_max_values s"
  shows "within_entry_limit (put_value k v n e s)"
  using assms length_dset_le [of k "(v, e)" "rs_values s"]
  by (simp add: within_entry_limit_def put_value_def)

lemma put_after_evict:
  assumes ok: "store_ok s" and n: "0 \<le> n" "n \<le> rs_max_value_bytes s"
  shows "store_ok (put_value k v n e (evict n (remove_value k s)))"
    and "within_entry_limit (put_value k v n e (evict n (remove_value k s)))"
proof -
  have ok': "store_ok (remove_value k s)" using ok by simp
  have n': "n \<le> rs_max_value_bytes (remove_value k s)" using n by simp
  have "k \<notin> set (dkeys (rs_values (evict n (remove_value k s))))"
    by (rule evict_absent) (auto simp: set_dpop)
  then show "store_ok (put_value k v n e (evict n (remove_value k s)))"
    using ok' n(1) evict_room(1) [OF ok' n'] by (intro store_ok_put) simp_all
  show "within_entry_limit (put_value k v n e (evict n (remove_value k s)))"
    using evict_room(2) [OF ok' n'] by (intro within_limit_put) simp
qed

end
