(* ===== verification/Interfaces.thy ===== *)
theory Interfaces
  imports Prelude
begin

text \<open>
  The contracts between components, as locales. \<open>fenced_lock\<close> is what the worker and the
  execution service assume of the lock operations of the runtime store, \<open>revision_store\<close> what
  the shared-state manager and the plan versioning assume of a compare-and-set store, and
  \<open>work_queue\<close> what a consumer assumes of a reserved queue. Each is interpreted on the model of
  the component that provides it.
\<close>

section \<open>Locks with fencing tokens\<close>

text \<open>
  A call is given by the lock name and an environment \<open>'e\<close> (time, requested owner, fresh
  identifier); \<open>Other\<close> stands for the provider's operations on anything else. \<open>issued\<close> counts the fences handed out per name, \<open>recorded\<close> is the token the
  store holds for a name, \<open>fence\<close> reads the number off a token.
\<close>

datatype ('e, 'n, 'tok, 'o) lock_call =
    Acquire 'e 'n
  | Renew 'e 'n 'tok
  | Release 'e 'n 'tok
  | Other 'o

locale fenced_lock =
  fixes acquire :: "'e \<Rightarrow> 'n \<Rightarrow> 's \<Rightarrow> 'tok option \<times> 's"
    and renew :: "'e \<Rightarrow> 'n \<Rightarrow> 'tok \<Rightarrow> 's \<Rightarrow> bool \<times> 's"
    and release :: "'e \<Rightarrow> 'n \<Rightarrow> 'tok \<Rightarrow> 's \<Rightarrow> bool \<times> 's"
    and other :: "'o \<Rightarrow> 's \<Rightarrow> 's"
    and env_ok :: "'e \<Rightarrow> bool"
    and issued :: "'s \<Rightarrow> 'n \<Rightarrow> nat"
    and recorded :: "'s \<Rightarrow> 'n \<Rightarrow> 'tok option"
    and fence :: "'tok \<Rightarrow> nat option"
  assumes grant: "env_ok e \<Longrightarrow> acquire e n s = (Some t, s') \<Longrightarrow>
      fence t = Some (Suc (issued s n)) \<and> recorded s' = (recorded s)(n \<mapsto> t)
      \<and> issued s' = (issued s)(n := Suc (issued s n))"
    and deny: "acquire e n s = (None, s') \<Longrightarrow> recorded s' = recorded s \<and> issued s' = issued s"
    and renew_keeps: "renew e n t s = (b, s') \<Longrightarrow> recorded s' = recorded s \<and> issued s' = issued s"
    and release_only: "release e n t s = (b, s') \<Longrightarrow> issued s' = issued s
      \<and> (recorded s' = recorded s \<or> recorded s n = Some t \<and> recorded s' = (recorded s)(n := None))"
    and other_keeps: "recorded (other x s) = recorded s" "issued (other x s) = issued s"
begin

fun call_ok :: "('e, 'n, 'tok, 'o) lock_call \<Rightarrow> bool" where
  "call_ok (Acquire e n) = env_ok e"
| "call_ok _ = True"

fun lock_step :: "('e, 'n, 'tok, 'o) lock_call \<Rightarrow> 's \<Rightarrow> ('n \<times> 'tok) list \<times> 's" where
  "lock_step (Acquire e n) s =
     (case acquire e n s of (Some t, s') \<Rightarrow> ([(n, t)], s') | (None, s') \<Rightarrow> ([], s'))"
| "lock_step (Renew e n t) s = ([], snd (renew e n t s))"
| "lock_step (Release e n t) s = ([], snd (release e n t s))"
| "lock_step (Other x) s = ([], other x s)"

fun lock_run :: "('e, 'n, 'tok, 'o) lock_call list \<Rightarrow> 's \<Rightarrow> ('n \<times> 'tok) list \<times> 's" where
  "lock_run [] s = ([], s)"
| "lock_run (c # cs) s =
     (let (g, s1) = lock_step c s; (gs, s2) = lock_run cs s1 in (g @ gs, s2))"

lemma step_issued_mono: "call_ok c \<Longrightarrow> lock_step c s = (g, s') \<Longrightarrow> issued s n \<le> issued s' n"
proof (cases c)
  case (Acquire e m)
  assume "call_ok c" and "lock_step c s = (g, s')"
  with Acquire show ?thesis
    using grant [of e m s] deny [of e m s]
    by (auto split: prod.splits option.splits)
next
  case (Renew e m t)
  assume "lock_step c s = (g, s')"
  with Renew show ?thesis
    using renew_keeps [of e m t s "fst (renew e m t s)" "snd (renew e m t s)"] by auto
next
  case (Release e m t)
  assume "lock_step c s = (g, s')"
  with Release show ?thesis
    using release_only [of e m t s "fst (release e m t s)" "snd (release e m t s)"] by auto
qed (auto simp: other_keeps)

lemma step_grants:
  assumes "call_ok c" and "lock_step c s = (g, s')" and "(n, t) \<in> set g"
  shows "g = [(n, t)]" and "fence t = Some (Suc (issued s n))" and "issued s' n = Suc (issued s n)"
  using assms grant [of _ n s t]
  by (cases c; auto split: prod.splits option.splits)+

text \<open>The fences granted for one name in a run are above those issued before, and ascend.\<close>

lemma run_fences:
  assumes "\<forall>c \<in> set cs. call_ok c" and "lock_run cs s = (gs, s')"
  shows "(\<forall>t. (n, t) \<in> set gs \<longrightarrow> (\<exists>f. fence t = Some f \<and> issued s n < f \<and> f \<le> issued s' n)) \<and>
         sorted_wrt (<) (map (\<lambda>p. the (fence (snd p))) (filter (\<lambda>p. fst p = n) gs)) \<and>
         issued s n \<le> issued s' n"
  using assms
proof (induction cs arbitrary: s gs)
  case Nil
  then show ?case by simp
next
  case (Cons c cs)
  obtain g s1 where step: "lock_step c s = (g, s1)" by (cases "lock_step c s")
  obtain gs1 where rest: "lock_run cs s1 = (gs1, s')" and gs: "gs = g @ gs1"
    using Cons.prems(2) step by (auto split: prod.splits)
  have ok: "call_ok c" using Cons.prems(1) by simp
  have mono: "issued s n \<le> issued s1 n" using step_issued_mono [OF ok step] .
  note IH = Cons.IH [OF _ rest]
  have IH1: "\<And>t. (n, t) \<in> set gs1 \<Longrightarrow> \<exists>f. fence t = Some f \<and> issued s1 n < f \<and> f \<le> issued s' n"
    and IH2: "sorted_wrt (<) (map (\<lambda>p. the (fence (snd p))) (filter (\<lambda>p. fst p = n) gs1))"
    and IH3: "issued s1 n \<le> issued s' n"
    using IH Cons.prems(1) by auto
  show ?case
  proof (cases "\<exists>t. (n, t) \<in> set g")
    case True
    then obtain t where t: "(n, t) \<in> set g" by blast
    note facts = step_grants [OF ok step t]
    have "\<And>t'. (n, t') \<in> set gs1 \<Longrightarrow> Suc (issued s n) < the (fence t')"
      using IH1 facts(3) by fastforce
    then show ?thesis using facts IH1 IH2 IH3 gs by fastforce
  next
    case False
    then have "filter (\<lambda>p. fst p = n) g = []" by (auto simp: filter_empty_conv)
    then show ?thesis using False IH1 IH2 IH3 gs mono by fastforce
  qed
qed

text \<open>The token the store records for a name carries the latest fence issued for that name.\<close>

definition fenced :: "'s \<Rightarrow> bool" where
  "fenced s \<longleftrightarrow> (\<forall>n t. recorded s n = Some t \<longrightarrow> fence t = Some (issued s n))"

lemma fenced_step: "call_ok c \<Longrightarrow> fenced s \<Longrightarrow> lock_step c s = (g, s') \<Longrightarrow> fenced s'"
proof (cases c)
  case (Acquire e m)
  assume *: "call_ok c" "fenced s" "lock_step c s = (g, s')"
  show ?thesis
  proof (cases "acquire e m s")
    case (Pair r s1)
    with * Acquire grant [of e m s _ s1] deny [of e m s s1] show ?thesis
      by (cases r) (auto simp: fenced_def)
  qed
next
  case (Renew e m t)
  assume *: "fenced s" "lock_step c s = (g, s')"
  with Renew renew_keeps [of e m t s "fst (renew e m t s)" s'] show ?thesis
    by (auto simp: fenced_def)
next
  case (Release e m t)
  assume *: "fenced s" "lock_step c s = (g, s')"
  with Release release_only [of e m t s "fst (release e m t s)" s'] show ?thesis
    by (auto simp: fenced_def split: if_splits)
qed (auto simp: fenced_def other_keeps)

lemma fenced_run:
  "\<forall>c \<in> set cs. call_ok c \<Longrightarrow> fenced s \<Longrightarrow> lock_run cs s = (gs, s') \<Longrightarrow> fenced s'"
proof (induction cs arbitrary: s gs)
  case Nil
  then show ?case by simp
next
  case (Cons c cs)
  obtain g s1 where "lock_step c s = (g, s1)" by (cases "lock_step c s")
  with Cons show ?case using fenced_step [of c s g s1] by (auto split: prod.splits)
qed

text \<open>A token that a later grant has overtaken is never recorded again.\<close>

lemma stale_never_recorded:
  assumes "\<forall>c \<in> set cs. call_ok c" and "fenced s" and "lock_run cs s = (gs, s')"
    and "fence t = Some f" and "f < issued s n"
  shows "recorded s' n \<noteq> Some t"
  using fenced_run [OF assms(1-3)] run_fences [OF assms(1,3), of n] assms(4,5)
  by (auto simp: fenced_def)

end

section \<open>Compare-and-set on revisions\<close>

text \<open>
  \<open>get k s\<close> is the live value of a key, \<open>cas e k r v s\<close> writes \<open>v\<close> when the live value has
  revision \<open>r\<close>; \<open>writable e v s\<close> is the provider's own size limit.
\<close>

locale revision_store =
  fixes get :: "'e \<Rightarrow> 'k \<Rightarrow> 's \<Rightarrow> 'v option"
    and cas :: "'e \<Rightarrow> 'k \<Rightarrow> int \<Rightarrow> 'v \<Rightarrow> 's \<Rightarrow> bool \<times> 's"
    and env_ok :: "'e \<Rightarrow> bool"
    and revision :: "'v \<Rightarrow> int option"
    and writable :: "'e \<Rightarrow> 'v \<Rightarrow> 's \<Rightarrow> bool"
    and valid :: "'s \<Rightarrow> bool"
  assumes cas_true: "env_ok e \<Longrightarrow> valid s \<Longrightarrow> cas e k r v s = (True, s') \<Longrightarrow>
      (case get e k s of None \<Rightarrow> r = -1 | Some w \<Rightarrow> revision w = Some r) \<and>
      get e k s' = Some v \<and> valid s'"
    and cas_false: "valid s \<Longrightarrow> cas e k r v s = (False, s') \<Longrightarrow>
      get e k' s' = get e k' s \<and> valid s'"
    and cas_applies: "valid s \<Longrightarrow> writable e v s \<Longrightarrow>
      (case get e k s of None \<Rightarrow> r = -1 | Some w \<Rightarrow> revision w = Some r) \<Longrightarrow> fst (cas e k r v s)"
begin

text \<open>
  Two writers that read the same revision cannot both win: after the first success the stored
  revision is the first writer's, so the second is refused unless it wrote that revision itself.
\<close>

lemma second_writer_loses:
  assumes "env_ok e" and "valid s" and "cas e k r v s = (True, s1)" and "revision v \<noteq> Some r"
  shows "cas e k r w s1 = (False, snd (cas e k r w s1))"
proof (rule ccontr)
  assume "cas e k r w s1 \<noteq> (False, snd (cas e k r w s1))"
  then have "cas e k r w s1 = (True, snd (cas e k r w s1))"
    by (cases "cas e k r w s1") auto
  moreover have "valid s1" and "get e k s1 = Some v"
    using cas_true [OF assms(1-3)] by simp_all
  ultimately show False using cas_true [of e s1 k r w] assms(1,4) by fastforce
qed

text \<open>A chain of writers that each raise the revision by one: every success adds exactly one.\<close>

fun cas_run :: "'e \<Rightarrow> 'k \<Rightarrow> (int \<times> 'v) list \<Rightarrow> 's \<Rightarrow> int list \<times> 's" where
  "cas_run e k [] s = ([], s)"
| "cas_run e k ((r, v) # ws) s =
     (case cas e k r v s of
        (True, s') \<Rightarrow> (let (rs, s2) = cas_run e k ws s' in (r # rs, s2))
      | (False, s') \<Rightarrow> cas_run e k ws s')"

lemma cas_run_consecutive:
  assumes e: "env_ok e" and "valid s" and "\<forall>(r, v) \<in> set ws. revision v = Some (r + 1)"
    and "get e k s = Some v0" and "revision v0 = Some r0" and "cas_run e k ws s = (rs, s')"
  shows "rs = map (\<lambda>i. r0 + int i) [0..<length rs]"
    and "\<exists>v. get e k s' = Some v \<and> revision v = Some (r0 + int (length rs))"
proof -
  have "rs = map (\<lambda>i. r0 + int i) [0..<length rs] \<and>
        (\<exists>v. get e k s' = Some v \<and> revision v = Some (r0 + int (length rs)))"
    using assms(2-)
  proof (induction ws arbitrary: s v0 r0 rs)
    case Nil
    then show ?case by simp
  next
    case (Cons p ws)
    obtain r v where p: "p = (r, v)" by (cases p)
    obtain b s1 where c: "cas e k r v s = (b, s1)" by (cases "cas e k r v s")
    show ?case
    proof (cases b)
      case True
      have g: "r = r0" "get e k s1 = Some v" "valid s1"
        using cas_true [OF e Cons.prems(1), of k r v s1] c True Cons.prems(3,4) by auto
      obtain rs1 where rest: "cas_run e k ws s1 = (rs1, s')" and rs: "rs = r # rs1"
        using Cons.prems(5) p c True by (auto split: prod.splits)
      have "rs1 = map (\<lambda>i. r0 + 1 + int i) [0..<length rs1] \<and>
          (\<exists>v. get e k s' = Some v \<and> revision v = Some (r0 + 1 + int (length rs1)))"
        using Cons.prems(2) p g rest by (intro Cons.IH [of s1 v]) auto
      moreover have "map (\<lambda>i. r0 + 1 + int i) [0..<length rs1] = map (\<lambda>i. r0 + int (Suc i)) [0..<length rs1]"
        by simp
      ultimately show ?thesis
        by (auto simp: rs g(1) map_upt_Suc simp del: upt_Suc)
    next
      case False
      have g: "get e k s1 = get e k s" "valid s1"
        using cas_false [OF Cons.prems(1), of e k r v s1 k] c False by auto
      then show ?thesis
        using Cons.prems p c False by (intro Cons.IH [of s1 v0]) auto
    qed
  qed
  then show "rs = map (\<lambda>i. r0 + int i) [0..<length rs]"
    and "\<exists>v. get e k s' = Some v \<and> revision v = Some (r0 + int (length rs))"
    by simp_all
qed

end

section \<open>Reserved work queues\<close>

text \<open>
  \<open>waiting\<close> and \<open>inflight\<close> are the messages of a queue that wait, and that a consumer holds under
  a receipt.
\<close>

locale work_queue =
  fixes enq :: "'m \<Rightarrow> 's \<Rightarrow> 's"
    and reserve1 :: "'r \<Rightarrow> 's \<Rightarrow> 'm option \<times> 's"
    and ack :: "'r \<Rightarrow> 's \<Rightarrow> bool \<times> 's"
    and recover :: "'s \<Rightarrow> 's"
    and waiting :: "'s \<Rightarrow> 'm multiset"
    and inflight :: "'s \<Rightarrow> 'r \<Rightarrow> 'm option"
    and pending :: "'s \<Rightarrow> 'm multiset"
    and valid :: "'s \<Rightarrow> bool"
  assumes enq_adds: "valid s \<Longrightarrow> waiting (enq m s) = add_mset m (waiting s)
      \<and> pending (enq m s) = pending s \<and> inflight (enq m s) = inflight s \<and> valid (enq m s)"
    and reserve_some: "valid s \<Longrightarrow> inflight s r = None \<Longrightarrow> reserve1 r s = (Some m, s') \<Longrightarrow>
      waiting s = add_mset m (waiting s') \<and> pending s' = add_mset m (pending s)
      \<and> inflight s' = (inflight s)(r \<mapsto> m) \<and> valid s'"
    and reserve_none: "reserve1 r s = (None, s') \<Longrightarrow> s' = s"
    and ack_true: "valid s \<Longrightarrow> ack r s = (True, s') \<Longrightarrow> \<exists>m. inflight s r = Some m
      \<and> pending s = add_mset m (pending s') \<and> waiting s' = waiting s
      \<and> inflight s' = (inflight s)(r := None) \<and> valid s'"
    and ack_false: "valid s \<Longrightarrow> ack r s = (False, s') \<Longrightarrow> waiting s' = waiting s
      \<and> pending s' = pending s \<and> inflight s' = inflight s \<and> valid s'"
    and recover_moves: "valid s \<Longrightarrow> waiting (recover s) + pending (recover s) = waiting s + pending s
      \<and> valid (recover s)"
    and inflight_pending: "valid s \<Longrightarrow> inflight s r = Some m \<Longrightarrow> m \<in># pending s"
begin

text \<open>Nothing but an acknowledgement takes a message out of the queue.\<close>

lemma reserve_conserves:
  assumes "valid s" and "inflight s r = None" and "reserve1 r s = (x, s')"
  shows "waiting s' + pending s' = waiting s + pending s \<and> valid s'"
  using assms reserve_some [of s r _ s'] reserve_none [of r s s'] by (cases x) auto

lemma ack_removes_one:
  assumes "valid s" and "ack r s = (b, s')"
  shows "size (waiting s + pending s) = size (waiting s' + pending s') + (if b then 1 else 0)"
  using assms ack_true [of s r s'] ack_false [of s r s'] by (cases b) fastforce+

lemma ack_twice_false:
  assumes "valid s" and "ack r s = (True, s1)"
  shows "\<not> fst (ack r s1)"
proof
  assume "fst (ack r s1)"
  then obtain s2 where "ack r s1 = (True, s2)" by (cases "ack r s1") auto
  moreover have "valid s1" and "inflight s1 r = None"
    using ack_true [OF assms] by auto
  ultimately show False using ack_true [of s1 r s2] by auto
qed

end

end
