(* ===== verification/Store_Contracts.thy ===== *)
theory Store_Contracts
  imports Store_Facts Interfaces
begin

text \<open>
  The runtime store provides the contracts of \<open>Interfaces\<close>: fenced locks, compare-and-set on
  revisions and reserved queues. \<open>store_op\<close> names the operations of the store, a run of them is
  a list; \<open>Store_Properties\<close> states what holds of every run.
\<close>

section \<open>Runs of the store\<close>

datatype data_op =
    Increment string rat int rat
  | Get string rat
  | Set string json rat rat rat
  | Delete string
  | Cas string int json rat rat
  | Enqueue string payload
  | Dequeue string rat rat
  | Reserve string rat rat string
  | Ack string string
  | Recover string int
  | Retry string payload int int "rat option" rat
  | Publish string payload rat
  | Subscribe string

fun data_step :: "(rat \<Rightarrow> string) \<Rightarrow> data_op \<Rightarrow> store \<Rightarrow> store" where
  "data_step fr (Increment k ttl amount now) s = snd (increment k ttl amount now s)"
| "data_step fr (Get k now) s = snd (get_json k now s)"
| "data_step fr (Set k v ttl now now2) s = set_json fr k v ttl now now2 s"
| "data_step fr (Delete k) s = snd (delete_json k s)"
| "data_step fr (Cas k r v ttl now) s = snd (compare_set_json fr k r v ttl now s)"
| "data_step fr (Enqueue q v) s = enqueue q v s"
| "data_step fr (Dequeue q deadline now) s = snd (dequeue_poll q deadline now s)"
| "data_step fr (Reserve q deadline now r) s = snd (reserve_poll q deadline now r s)"
| "data_step fr (Ack q r) s = snd (acknowledge q r s)"
| "data_step fr (Recover q limit) s = snd (recover_processing q limit s)"
| "data_step fr (Retry q v a m d w) s = snd (enqueue_retry q v a m d w s)"
| "data_step fr (Publish c v now) s = publish c v now s"
| "data_step fr (Subscribe c) s = snd (subscribe c s)"

text \<open>The environment of a lock call: time to live, requested owner, fresh identifier, clock.\<close>

type_synonym lock_env = "rat \<times> string option \<times> string \<times> rat"
type_synonym store_op = "(lock_env, string, string, data_op) lock_call"

fun acquire_call :: "lock_env \<Rightarrow> string \<Rightarrow> store \<Rightarrow> string option \<times> store" where
  "acquire_call (ttl, token, fresh, now) name s = acquire_lock name ttl token fresh now s"

fun renew_call :: "lock_env \<Rightarrow> string \<Rightarrow> string \<Rightarrow> store \<Rightarrow> bool \<times> store" where
  "renew_call (ttl, _, _, now) name token s = renew_lock name token ttl now s"

fun release_call :: "lock_env \<Rightarrow> string \<Rightarrow> string \<Rightarrow> store \<Rightarrow> bool \<times> store" where
  "release_call _ name token s = release_lock name token s"

text \<open>A step returns the grants it makes, as pairs of the lock's name and its token.\<close>

fun store_step ::
  "(rat \<Rightarrow> string) \<Rightarrow> store_op \<Rightarrow> store \<Rightarrow> (string \<times> string) list \<times> store" where
  "store_step fr (Acquire e n) s =
     (case acquire_call e n s of (Some t, s') \<Rightarrow> ([(n, t)], s') | (None, s') \<Rightarrow> ([], s'))"
| "store_step fr (Renew e n t) s = ([], snd (renew_call e n t s))"
| "store_step fr (Release e n t) s = ([], snd (release_call e n t s))"
| "store_step fr (Other x) s = ([], data_step fr x s)"

fun store_run ::
  "(rat \<Rightarrow> string) \<Rightarrow> store_op list \<Rightarrow> store \<Rightarrow> (string \<times> string) list \<times> store" where
  "store_run fr [] s = ([], s)"
| "store_run fr (c # cs) s =
     (let (g, s1) = store_step fr c s; (gs, s2) = store_run fr cs s1 in (g @ gs, s2))"

section \<open>The store provides fenced locks\<close>

definition lock_recorded :: "store \<Rightarrow> string \<Rightarrow> string option" where
  "lock_recorded s n = map_option fst (dget (rs_locks s) n)"

definition token_fence :: "string \<Rightarrow> nat option" where
  "token_fence t = (case lock_fencing_token t of Inl _ \<Rightarrow> None | Inr f \<Rightarrow> Some (nat f))"

text \<open>The fresh identifier \<open>uuid4().hex\<close> is not empty.\<close>

fun lock_env_ok :: "lock_env \<Rightarrow> bool" where
  "lock_env_ok (ttl, token, fresh, now) \<longleftrightarrow> fresh \<noteq> []"

lemma lock_fencing_token_show:
  "0 < f \<Longrightarrow> owner \<noteq> [] \<Longrightarrow> lock_fencing_token (show_nat f @ CHR '':'' # owner) = Inr (int f)"
  using str_partition_append [OF is_digits_no_colon [OF is_digits_show_nat [of f]], of owner]
  by (simp add: lock_fencing_token_def)

lemma token_fence_show:
  "0 < f \<Longrightarrow> owner \<noteq> [] \<Longrightarrow> token_fence (show_nat f @ CHR '':'' # owner) = Some f"
  by (simp add: token_fence_def lock_fencing_token_show)

lemma recover_loop_frame [simp]:
  "rs_values (recover_loop q items s) = rs_values s"
  "rs_value_sizes (recover_loop q items s) = rs_value_sizes s"
  "rs_value_bytes (recover_loop q items s) = rs_value_bytes s"
  "rs_counters (recover_loop q items s) = rs_counters s"
  "rs_locks (recover_loop q items s) = rs_locks s"
  "rs_lock_fences (recover_loop q items s) = rs_lock_fences s"
  "rs_max_values (recover_loop q items s) = rs_max_values s"
  "rs_max_value_bytes (recover_loop q items s) = rs_max_value_bytes s"
  "rs_max_counters (recover_loop q items s) = rs_max_counters s"
  by (induction q items s rule: recover_loop.induct) simp_all

lemma put_value_frame [simp]:
  "rs_locks (put_value k v n e s) = rs_locks s"
  "rs_lock_fences (put_value k v n e s) = rs_lock_fences s"
  "rs_counters (put_value k v n e s) = rs_counters s"
  by (simp_all add: put_value_def)

lemma data_step_locks [simp]:
  "rs_locks (data_step fr x s) = rs_locks s"
  "rs_lock_fences (data_step fr x s) = rs_lock_fences s"
  by (cases x; simp add: increment_def get_json_def set_json_def delete_json_def
      compare_set_json_def enqueue_def dequeue_poll_def reserve_poll_def acknowledge_def
      recover_processing_def enqueue_retry_def publish_def subscribe_def Let_def
      purge_expired_counters_def purge_counters_loop_eq
      split: option.splits prod.splits list.splits sum.splits bool.splits if_splits)+

interpretation rl: fenced_lock acquire_call renew_call release_call "data_step fr" lock_env_ok
    rs_lock_fences lock_recorded token_fence
  for fr
proof unfold_locales
  fix e :: lock_env and n t s s'
  obtain ttl token fresh now where e: "e = (ttl, token, fresh, now)" by (cases e)
  assume "lock_env_ok e" and "acquire_call e n s = (Some t, s')"
  then show "token_fence t = Some (Suc (rs_lock_fences s n)) \<and>
      lock_recorded s' = (lock_recorded s)(n \<mapsto> t) \<and>
      rs_lock_fences s' = (rs_lock_fences s)(n := Suc (rs_lock_fences s n))"
    unfolding e
    by (auto simp: acquire_lock_def Let_def lock_recorded_def fun_eq_iff token_fence_show
        split: if_splits option.splits)
next
  fix e :: lock_env and n s s'
  assume "acquire_call e n s = (None, s')"
  then show "lock_recorded s' = lock_recorded s \<and> rs_lock_fences s' = rs_lock_fences s"
    by (cases e) (auto simp: acquire_lock_def Let_def split: if_splits)
next
  fix e :: lock_env and n t s b s'
  assume "renew_call e n t s = (b, s')"
  then show "lock_recorded s' = lock_recorded s \<and> rs_lock_fences s' = rs_lock_fences s"
    by (cases e) (auto simp: renew_lock_def lock_recorded_def fun_eq_iff split: if_splits option.splits)
next
  fix e :: lock_env and n t s b s'
  assume "release_call e n t s = (b, s')"
  then show "rs_lock_fences s' = rs_lock_fences s \<and>
      (lock_recorded s' = lock_recorded s \<or>
       lock_recorded s n = Some t \<and> lock_recorded s' = (lock_recorded s)(n := None))"
    by (auto simp: release_lock_def lock_recorded_def fun_eq_iff split: if_splits option.splits)
qed (simp_all add: lock_recorded_def fun_eq_iff)

lemma store_step_is_lock_step: "rl.lock_step fr = store_step fr"
proof (intro ext)
  fix c s
  show "rl.lock_step fr c s = store_step fr c s" by (cases c) simp_all
qed

lemma store_run_is_lock_run: "rl.lock_run fr cs s = store_run fr cs s"
  by (induction cs arbitrary: s) (simp_all add: store_step_is_lock_step)

text \<open>Every acquisition of the run comes with a fresh identifier.\<close>

definition envs_ok :: "store_op list \<Rightarrow> bool" where
  "envs_ok cs = list_all (\<lambda>c. case c of Acquire e n \<Rightarrow> lock_env_ok e | _ \<Rightarrow> True) cs"

lemma envs_ok_calls: "envs_ok cs \<Longrightarrow> \<forall>c \<in> set cs. rl.call_ok c"
proof
  fix c
  assume "envs_ok cs" and "c \<in> set cs"
  then show "rl.call_ok c" by (cases c) (auto simp: envs_ok_def list_all_iff)
qed

section \<open>Every operation keeps the invariant\<close>

lemma store_ok_new: "new_store mv mb mc = Inr s \<Longrightarrow> store_ok s"
  by (auto simp: new_store_def store_ok_def split: if_splits)

lemma store_ok_increment:
  assumes "store_ok s"
  shows "store_ok (snd (increment k ttl amount now s))"
proof -
  define s1 where "s1 = s\<lparr>rs_counter_operations := Suc (rs_counter_operations s)\<rparr>"
  define s2 where "s2 = (if rs_counter_operations s1 mod 256 = 0
      \<or> rs_max_counters s1 \<le> int (length (rs_counters s1)) then purge_expired_counters now s1 else s1)"
  have "store_ok s1" using assms by (simp add: s1_def store_ok_def)
  then have ok: "store_ok s2" by (simp add: s2_def)
  have put: "store_ok (s2\<lparr>rs_counters := dset k p (rs_counters s2)\<rparr>)"
    if room: "\<not> (k \<notin> set (dkeys (rs_counters s2)) \<and> rs_max_counters s2 \<le> int (length (rs_counters s2)))"
    for p
  proof -
    have "int (length (dset k p (rs_counters s2))) \<le> rs_max_counters s2"
    proof (cases "k \<in> set (dkeys (rs_counters s2))")
      case True
      then have "length (dset k p (rs_counters s2)) = length (rs_counters s2)"
        by (metis length_map update_keys)
      with ok show ?thesis by (simp add: store_ok_def)
    next
      case False
      with room have "int (Suc (length (rs_counters s2))) \<le> rs_max_counters s2" by simp
      with length_dset_le [of k p "rs_counters s2"] show ?thesis by linarith
    qed
    with ok show ?thesis by (simp add: store_ok_def)
  qed
  show ?thesis
    using ok put unfolding increment_def s1_def [symmetric] s2_def [symmetric] Let_def
    by (simp split: prod.splits)
qed

lemma store_ok_set_json:
  assumes "store_ok s"
  shows "store_ok (set_json fr k v ttl now now2 s)"
proof -
  have "store_ok (purge_expired_values now s)" using assms by simp
  then show ?thesis
    using put_after_evict(1) [of "purge_expired_values now s" "encoded_size fr v" k v]
    by (simp add: set_json_def Let_def)
qed

lemma store_ok_compare_set_json:
  assumes "store_ok s"
  shows "store_ok (snd (compare_set_json fr k r v ttl now s))"
proof -
  have "store_ok (purge_expired_values now s)" using assms by simp
  then show ?thesis
    using put_after_evict(1) [of "purge_expired_values now s" "encoded_size fr v" k v]
    by (simp add: compare_set_json_def Let_def split: sum.splits bool.splits)
qed

lemma within_limit_set_json:
  assumes "store_ok s" and "within_entry_limit s"
  shows "within_entry_limit (set_json fr k v ttl now now2 s)"
proof -
  have "store_ok (purge_expired_values now s)" and "within_entry_limit (purge_expired_values now s)"
    using assms by simp_all
  then show ?thesis
    using put_after_evict(2) [of "purge_expired_values now s" "encoded_size fr v" k v]
    by (simp add: set_json_def Let_def)
qed

lemma within_limit_compare_set_json:
  assumes "store_ok s" and "within_entry_limit s"
  shows "within_entry_limit (snd (compare_set_json fr k r v ttl now s))"
proof -
  have "store_ok (purge_expired_values now s)" and "within_entry_limit (purge_expired_values now s)"
    using assms by simp_all
  then show ?thesis
    using put_after_evict(2) [of "purge_expired_values now s" "encoded_size fr v" k v]
    by (simp add: compare_set_json_def Let_def split: sum.splits bool.splits)
qed

lemma store_ok_publish:
  assumes "store_ok s"
  shows "store_ok (publish c v now s)"
proof -
  have "set (dkeys (rs_value_sizes s)) \<subseteq> set (dkeys (dset k w (rs_values s)))" for k w
    using assms unfolding store_ok_def dkeys_dset by blast
  with assms show ?thesis unfolding store_ok_def publish_def by simp
qed

lemma store_ok_data_step: "store_ok s \<Longrightarrow> store_ok (data_step fr x s)"
proof (cases x)
  case (Get k now)
  moreover assume "store_ok s"
  ultimately show ?thesis by (auto simp: get_json_def split: option.splits)
qed (simp_all add: store_ok_increment store_ok_set_json store_ok_compare_set_json store_ok_publish
    delete_json_def, (auto simp: store_ok_def enqueue_def dequeue_poll_def reserve_poll_def
    acknowledge_def recover_processing_def enqueue_retry_def subscribe_def Let_def
    split: list.splits)+)

lemma store_ok_locks: "store_ok s \<Longrightarrow> dict_ok l \<Longrightarrow> store_ok (s\<lparr>rs_lock_fences := f, rs_locks := l\<rparr>)"
  by (simp add: store_ok_def)

lemma store_ok_step:
  assumes ok: "store_ok s"
  shows "store_ok (snd (store_step fr c s))"
proof -
  have l: "dict_ok (rs_locks s)" using ok by (simp add: store_ok_def)
  have upd: "store_ok (s\<lparr>rs_locks := l'\<rparr>)" if "dict_ok l'" for l'
    using store_ok_locks [OF ok that, of "rs_lock_fences s"] by simp
  show ?thesis
  proof (cases c)
    case (Acquire e n)
    then show ?thesis
      using ok l store_ok_locks [OF ok] by (cases e) (simp add: acquire_lock_def Let_def)
  next
    case (Renew e n t)
    then show ?thesis
      using ok l upd by (cases e) (auto simp: renew_lock_def split: option.splits)
  next
    case (Release e n t)
    then show ?thesis
      using ok l upd by (auto simp: release_lock_def split: option.splits)
  qed (simp add: store_ok_data_step ok)
qed

lemma store_ok_run: "store_ok s \<Longrightarrow> store_ok (snd (store_run fr cs s))"
proof (induction cs arbitrary: s)
  case (Cons c cs)
  then have "store_ok (snd (store_run fr cs (snd (store_step fr c s))))"
    using store_ok_step by blast
  then show ?case by (auto simp: Let_def split: prod.splits)
qed simp

section \<open>The store provides compare-and-set\<close>

type_synonym cas_env = "(rat \<Rightarrow> string) \<times> rat \<times> rat"

fun get_call :: "cas_env \<Rightarrow> string \<Rightarrow> store \<Rightarrow> json option" where
  "get_call (fr, ttl, now) k s = fst (get_json k now s)"

text \<open>A caller whose compare-and-set raises has not written.\<close>

fun cas_call :: "cas_env \<Rightarrow> string \<Rightarrow> int \<Rightarrow> json \<Rightarrow> store \<Rightarrow> bool \<times> store" where
  "cas_call (fr, ttl, now) k r v s =
     (case compare_set_json fr k r v ttl now s of
        (Inr b, s') \<Rightarrow> (b, s')
      | (Inl _, s') \<Rightarrow> (False, s'))"

fun cas_env_ok :: "cas_env \<Rightarrow> bool" where
  "cas_env_ok (fr, ttl, now) \<longleftrightarrow> 0 < ttl"

fun json_revision :: "json \<Rightarrow> int option" where
  "json_revision (JObj kvs) =
     (case py_int (case dget kvs ''revision'' of None \<Rightarrow> JInt (-1) | Some r \<Rightarrow> r) of
        Inl _ \<Rightarrow> None | Inr r \<Rightarrow> Some r)"
| "json_revision _ = None"

fun fits_call :: "cas_env \<Rightarrow> json \<Rightarrow> store \<Rightarrow> bool" where
  "fits_call (fr, ttl, now) v s \<longleftrightarrow> encoded_size fr v \<le> rs_max_value_bytes s"

lemma revision_matches_iff:
  "revision_matches cur r = Inr True
     \<longleftrightarrow> (case cur of None \<Rightarrow> r = -1 | Some (w, _) \<Rightarrow> json_revision w = Some r)"
  by (cases cur)
    (auto simp: revision_matches_def res_simps split: json.splits sum.splits option.splits)

lemma get_json_dget:
  "fst (get_json k now s)
     = (case dget (rs_values s) k of None \<Rightarrow> None | Some (v, e) \<Rightarrow> if now < e then Some v else None)"
  by (auto simp: get_json_def split: option.splits)

lemma purged_get:
  assumes "store_ok s"
  shows "(case dget (rs_values (purge_expired_values now s)) k of None \<Rightarrow> None | Some (v, e) \<Rightarrow> Some v)
       = fst (get_json k now s)"
    and "fst (get_json k now (purge_expired_values now s)) = fst (get_json k now s)"
  using assms
  by (auto simp: store_ok_def purge_expired_values_values dget_live get_json_dget split: option.splits)

lemma compare_set_json_outcome:
  assumes ok: "store_ok s"
  shows "fst (compare_set_json fr k r v ttl now s) = Inr True \<longleftrightarrow>
      (case fst (get_json k now s) of None \<Rightarrow> r = -1 | Some w \<Rightarrow> json_revision w = Some r)
      \<and> encoded_size fr v \<le> rs_max_value_bytes s"
proof -
  have "revision_matches (dget (rs_values (purge_expired_values now s)) k) r = Inr True \<longleftrightarrow>
      (case fst (get_json k now s) of None \<Rightarrow> r = -1 | Some w \<Rightarrow> json_revision w = Some r)"
    unfolding revision_matches_iff purged_get(1) [OF ok, of now k, symmetric]
    by (auto split: option.splits)
  then show ?thesis
    by (auto simp: compare_set_json_def Let_def split: sum.splits bool.splits)
qed

lemma compare_set_json_stores:
  assumes "fst (compare_set_json fr k r v ttl now s) = Inr True" and "now' < now + ttl"
  shows "fst (get_json k now' (snd (compare_set_json fr k r v ttl now s))) = Some v"
  using assms
  by (auto simp: compare_set_json_def Let_def get_json_dget put_value_def
      split: sum.splits bool.splits if_splits)

lemma compare_set_json_refused:
  assumes "fst (compare_set_json fr k r v ttl now s) \<noteq> Inr True"
  shows "snd (compare_set_json fr k r v ttl now s) = purge_expired_values now s"
  using assms
  by (auto simp: compare_set_json_def Let_def split: sum.splits bool.splits if_splits)

interpretation rv: revision_store get_call cas_call cas_env_ok json_revision fits_call store_ok
proof unfold_locales
  fix e :: cas_env and k r v s s'
  obtain fr ttl now where e: "e = (fr, ttl, now)" by (cases e)
  assume *: "cas_env_ok e" "store_ok s" "cas_call e k r v s = (True, s')"
  then have t: "fst (compare_set_json fr k r v ttl now s) = Inr True"
    and s': "s' = snd (compare_set_json fr k r v ttl now s)"
    unfolding e by (auto split: prod.splits sum.splits)
  show "(case get_call e k s of None \<Rightarrow> r = -1 | Some w \<Rightarrow> json_revision w = Some r) \<and>
      get_call e k s' = Some v \<and> store_ok s'"
    using * t compare_set_json_outcome [OF *(2)] compare_set_json_stores [OF t, of now]
      store_ok_compare_set_json [OF *(2)]
    unfolding e s' by auto
next
  fix e :: cas_env and k r v s s' k'
  obtain fr ttl now where e: "e = (fr, ttl, now)" by (cases e)
  assume *: "store_ok s" "cas_call e k r v s = (False, s')"
  then have t: "fst (compare_set_json fr k r v ttl now s) \<noteq> Inr True"
    and s': "s' = snd (compare_set_json fr k r v ttl now s)"
    unfolding e by (auto split: prod.splits sum.splits)
  show "get_call e k' s' = get_call e k' s \<and> store_ok s'"
    using * purged_get(2) [OF *(1)] unfolding e s' compare_set_json_refused [OF t] by simp
next
  fix e :: cas_env and k r v s
  obtain fr ttl now where e: "e = (fr, ttl, now)" by (cases e)
  assume *: "store_ok s" "fits_call e v s"
    "case get_call e k s of None \<Rightarrow> r = -1 | Some w \<Rightarrow> json_revision w = Some r"
  then have "fst (compare_set_json fr k r v ttl now s) = Inr True"
    using compare_set_json_outcome [OF *(1)] unfolding e by simp
  then show "fst (cas_call e k r v s)"
    unfolding e by (auto split: prod.splits sum.splits)
qed

section \<open>The store provides reserved queues\<close>

definition reserve_once :: "string \<Rightarrow> string \<Rightarrow> store \<Rightarrow> payload option \<times> store" where
  "reserve_once q receipt s =
     (case reserve_poll q 0 0 receipt s of
        (Got m, s') \<Rightarrow> (Some (rm_payload m), s')
      | (_, s') \<Rightarrow> (None, s'))"

definition queue_waiting :: "string \<Rightarrow> store \<Rightarrow> payload multiset" where
  "queue_waiting q s = mset (rs_queues s q)"

definition queue_inflight :: "string \<Rightarrow> store \<Rightarrow> payload multiset" where
  "queue_inflight q s = mset (map snd (rs_processing s q))"

lemma recover_loop_queue:
  assumes "dict_ok (rs_processing s q)" and "\<exists>rest. rs_processing s q = items @ rest"
  shows "queue_waiting q (recover_loop q items s) + queue_inflight q (recover_loop q items s)
           = queue_waiting q s + queue_inflight q s
         \<and> dict_ok (rs_processing (recover_loop q items s) q)"
  using assms
proof (induction q items s rule: recover_loop.induct)
  case (2 q r x items s)
  then obtain rest where rest: "rs_processing s q = (r, x) # items @ rest" by auto
  then have pop: "dpop r (rs_processing s q) = items @ rest"
    using 2(2) by (auto simp: dpop_idem)
  let ?s = "s\<lparr>rs_queues := (rs_queues s)(q := x # rs_queues s q),
              rs_processing := (rs_processing s)(q := dpop r (rs_processing s q))\<rparr>"
  have "dict_ok (rs_processing ?s q)" using 2(2) by simp
  moreover have "\<exists>rest. rs_processing ?s q = items @ rest" using pop by auto
  moreover have "queue_waiting q ?s + queue_inflight q ?s = queue_waiting q s + queue_inflight q s"
    by (simp add: queue_waiting_def queue_inflight_def pop) (simp add: rest)
  ultimately show ?case using 2(1) by simp
qed simp

lemma recover_processing_queue:
  assumes "dict_ok (rs_processing s q)"
  shows "queue_waiting q (snd (recover_processing q limit s))
           + queue_inflight q (snd (recover_processing q limit s))
           = queue_waiting q s + queue_inflight q s
         \<and> dict_ok (rs_processing (snd (recover_processing q limit s)) q)"
  using recover_loop_queue [OF assms, of "take (nat (max 0 limit)) (rs_processing s q)"]
  by (auto simp: recover_processing_def Let_def) (metis append_take_drop_id)+

interpretation rq: work_queue "enqueue q" "reserve_once q" "acknowledge q"
    "\<lambda>s. snd (recover_processing q limit s)" "queue_waiting q"
    "\<lambda>s. dget (rs_processing s q)" "queue_inflight q" "\<lambda>s. dict_ok (rs_processing s q)"
  for q limit
proof unfold_locales
  fix s :: store and r m s'
  assume *: "dict_ok (rs_processing s q)" "dget (rs_processing s q) r = None"
    "reserve_once q r s = (Some m, s')"
  then obtain xs where q: "rs_queues s q = m # xs"
    and s': "s' = s\<lparr>rs_queues := (rs_queues s)(q := xs),
        rs_processing := (rs_processing s)(q := dset r m (rs_processing s q))\<rparr>"
    by (auto simp: reserve_once_def reserve_poll_def split: list.splits if_splits)
  have "dset r m (rs_processing s q) = rs_processing s q @ [(r, m)]"
    using * by (simp add: dset_fresh map_of_eq_None_iff)
  then have "queue_inflight q s' = add_mset m (queue_inflight q s)"
    by (simp add: s' queue_inflight_def)
  moreover have "dget (rs_processing s' q) = (dget (rs_processing s q))(r \<mapsto> m)"
    by (simp add: s' fun_eq_iff)
  ultimately show "queue_waiting q s = add_mset m (queue_waiting q s')
      \<and> queue_inflight q s' = add_mset m (queue_inflight q s)
      \<and> dget (rs_processing s' q) = (dget (rs_processing s q))(r \<mapsto> m)
      \<and> dict_ok (rs_processing s' q)"
    using * by (simp add: s' q queue_waiting_def)
next
  fix s :: store and r s'
  assume "dict_ok (rs_processing s q)" and "acknowledge q r s = (True, s')"
  then show "\<exists>m. dget (rs_processing s q) r = Some m
      \<and> queue_inflight q s = add_mset m (queue_inflight q s') \<and> queue_waiting q s' = queue_waiting q s
      \<and> dget (rs_processing s' q) = (dget (rs_processing s q))(r := None)
      \<and> dict_ok (rs_processing s' q)"
    by (cases "dget (rs_processing s q) r")
      (auto simp: acknowledge_def queue_inflight_def queue_waiting_def mset_map_snd_dpop fun_eq_iff
        simp del: mset_map)
next
  fix s :: store and r s'
  assume "dict_ok (rs_processing s q)" and "acknowledge q r s = (False, s')"
  then show "queue_waiting q s' = queue_waiting q s \<and> queue_inflight q s' = queue_inflight q s
      \<and> dget (rs_processing s' q) = dget (rs_processing s q) \<and> dict_ok (rs_processing s' q)"
    by (auto simp: acknowledge_def queue_inflight_def queue_waiting_def dget_None_iff dpop_idem)
next
  fix s :: store and r m
  assume "dict_ok (rs_processing s q)" and "dget (rs_processing s q) r = Some m"
  then show "m \<in># queue_inflight q s"
    by (simp add: queue_inflight_def mset_map_snd_dpop del: mset_map)
next
  fix s :: store
  assume "dict_ok (rs_processing s q)"
  then show "queue_waiting q (snd (recover_processing q limit s))
      + queue_inflight q (snd (recover_processing q limit s))
      = queue_waiting q s + queue_inflight q s
      \<and> dict_ok (rs_processing (snd (recover_processing q limit s)) q)"
    by (rule recover_processing_queue)
qed (auto simp: queue_waiting_def queue_inflight_def enqueue_def reserve_once_def reserve_poll_def
    split: list.splits if_splits)

section \<open>Counters\<close>

fun increment_run :: "(string \<times> rat \<times> int \<times> rat) list \<Rightarrow> store \<Rightarrow> store" where
  "increment_run [] s = s"
| "increment_run ((k, ttl, amount, now) # calls) s =
     increment_run calls (snd (increment k ttl amount now s))"

lemma increment_live:
  assumes ok: "store_ok s" and cur: "dget (rs_counters s) k = Some (v, e)" and "now < e"
  shows "dget (rs_counters (snd (increment k' ttl amount now s))) k
       = Some (v + (if k' = k then amount else 0), e)"
proof -
  define s1 where "s1 = s\<lparr>rs_counter_operations := Suc (rs_counter_operations s)\<rparr>"
  define s2 where "s2 = (if rs_counter_operations s1 mod 256 = 0
      \<or> rs_max_counters s1 \<le> int (length (rs_counters s1)) then purge_expired_counters now s1 else s1)"
  have d: "dict_ok (rs_counters s1)" using ok by (simp add: s1_def store_ok_def)
  have cur2: "dget (rs_counters s2) k = Some (v, e)"
    using cur \<open>now < e\<close> unfolding s2_def purge_expired_counters_eq [OF d]
    by (simp add: s1_def dget_live [OF d [unfolded s1_def], simplified])
  then have mem: "k \<in> set (dkeys (rs_counters s2))" by (metis dget_None_iff option.distinct(1))
  show ?thesis
    using cur2 mem \<open>now < e\<close> unfolding increment_def s1_def [symmetric] s2_def [symmetric] Let_def
    by (auto split: prod.splits)
qed

section \<open>Messages of a queue\<close>

definition queue_messages :: "string \<Rightarrow> store \<Rightarrow> payload multiset" where
  "queue_messages q s = queue_waiting q s + queue_inflight q s"

fun consumes :: "string \<Rightarrow> data_op \<Rightarrow> bool" where
  "consumes q (Ack q' _) = (q' = q)"
| "consumes q (Dequeue q' _ _) = (q' = q)"
| "consumes q _ = False"

fun receipt_fresh :: "string \<Rightarrow> data_op \<Rightarrow> store \<Rightarrow> bool" where
  "receipt_fresh q (Reserve q' _ _ r) s = (q' = q \<longrightarrow> dget (rs_processing s q) r = None)"
| "receipt_fresh q _ s = True"

fun receipts_fresh :: "(rat \<Rightarrow> string) \<Rightarrow> string \<Rightarrow> data_op list \<Rightarrow> store \<Rightarrow> bool" where
  "receipts_fresh fr q [] s = True"
| "receipts_fresh fr q (x # xs) s =
     (receipt_fresh q x s \<and> receipts_fresh fr q xs (data_step fr x s))"

lemma queue_frame:
  assumes "rs_queues s' q = rs_queues s q" and "rs_processing s' q = rs_processing s q"
  shows "queue_messages q s' = queue_messages q s"
  using assms by (simp add: queue_messages_def queue_waiting_def queue_inflight_def)

lemma reserve_poll_messages:
  assumes "dict_ok (rs_processing s q)" and "q' = q \<Longrightarrow> dget (rs_processing s q) r = None"
  shows "queue_messages q (snd (reserve_poll q' deadline now r s)) = queue_messages q s
       \<and> dict_ok (rs_processing (snd (reserve_poll q' deadline now r s)) q)"
proof (cases "q' = q")
  case True
  have "snd (reserve_poll q deadline now r s) = snd (reserve_once q r s)"
    by (auto simp: reserve_once_def reserve_poll_def split: list.splits)
  then show ?thesis
    using rq.reserve_conserves [of s q r "fst (reserve_once q r s)" "snd (reserve_once q r s)"]
      assms True by (simp add: queue_messages_def)
next
  case False
  then have "queue_messages q (snd (reserve_poll q' deadline now r s)) = queue_messages q s"
    by (intro queue_frame) (auto simp: reserve_poll_def split: list.splits)
  with False show ?thesis using assms(1) by (auto simp: reserve_poll_def split: list.splits)
qed

lemma recover_loop_other:
  "q' \<noteq> q \<Longrightarrow> rs_queues (recover_loop q' items s) q = rs_queues s q
            \<and> rs_processing (recover_loop q' items s) q = rs_processing s q"
  by (induction q' items s rule: recover_loop.induct) auto

lemma enqueue_messages:
  "queue_messages q s \<subseteq># queue_messages q (enqueue q' v s)
   \<and> rs_processing (enqueue q' v s) = rs_processing s"
  by (simp add: enqueue_def queue_messages_def queue_waiting_def queue_inflight_def)

fun queue_op :: "data_op \<Rightarrow> bool" where
  "queue_op (Enqueue _ _) = True"
| "queue_op (Dequeue _ _ _) = True"
| "queue_op (Reserve _ _ _ _) = True"
| "queue_op (Ack _ _) = True"
| "queue_op (Recover _ _) = True"
| "queue_op (Retry _ _ _ _ _ _) = True"
| "queue_op _ = False"

lemma put_value_queues [simp]:
  "rs_queues (put_value k v n e s) = rs_queues s"
  "rs_processing (put_value k v n e s) = rs_processing s"
  by (simp_all add: put_value_def)

lemma other_op_queues:
  "\<not> queue_op x \<Longrightarrow> rs_queues (data_step fr x s) = rs_queues s"
  "\<not> queue_op x \<Longrightarrow> rs_processing (data_step fr x s) = rs_processing s"
  by (cases x; simp add: increment_def get_json_def set_json_def delete_json_def
      compare_set_json_def publish_def subscribe_def Let_def
      purge_expired_counters_def purge_counters_loop_eq
      split: option.splits prod.splits sum.splits bool.splits)+

lemma data_step_messages:
  assumes ok: "dict_ok (rs_processing s q)" and "receipt_fresh q x s" and "\<not> consumes q x"
  shows "queue_messages q s \<subseteq># queue_messages q (data_step fr x s)
       \<and> dict_ok (rs_processing (data_step fr x s) q)"
proof (cases "queue_op x")
  case False
  then show ?thesis
    using ok other_op_queues [OF False, of fr s] queue_frame [of "data_step fr x s" q s] by simp
next
  case True
  show ?thesis
  proof (cases x)
    case (Reserve q' deadline now r)
    then show ?thesis using assms reserve_poll_messages [OF ok, of q' r deadline now] by simp
  next
    case (Recover q' limit)
    show ?thesis
    proof (cases "q' = q")
      case True
      then show ?thesis using Recover recover_processing_queue [OF ok, of limit]
        by (simp add: queue_messages_def)
    next
      case False
      note other = recover_loop_other [OF False, of _ s]
      show ?thesis
        using Recover ok other queue_frame [of "data_step fr x s" q s]
        by (simp add: recover_processing_def Let_def)
    qed
  next
    case (Enqueue q' v)
    then show ?thesis using ok enqueue_messages by simp
  next
    case (Retry q' v a m d w)
    then show ?thesis using ok enqueue_messages by (simp add: enqueue_retry_def Let_def)
  next
    case (Ack q' r)
    then show ?thesis
      using assms queue_frame [of "data_step fr x s" q s] by (simp add: acknowledge_def)
  next
    case (Dequeue q' deadline now)
    have "rs_queues (data_step fr x s) q = rs_queues s q"
      and "rs_processing (data_step fr x s) q = rs_processing s q"
      using Dequeue assms(3) by (simp_all add: dequeue_poll_def split: list.splits)
    then show ?thesis using ok queue_frame [of "data_step fr x s" q s] by simp
  qed (use True in simp_all)
qed

end
