(* ===== verification/Store_Properties.thy ===== *)
theory Store_Properties
  imports Store_Contracts
begin

text \<open>
  What holds of every run of the runtime store: exact accounting and limits, compare-and-set
  without lost updates, counters that a key flood cannot reset, lock fences that ascend and
  reject stale holders, and messages that only an acknowledgement removes.
\<close>

fun publishes :: "store_op \<Rightarrow> bool" where
  "publishes (Other (Publish _ _ _)) = True"
| "publishes _ = False"



lemma within_limit_step:
  assumes ok: "store_ok s" and lim: "within_entry_limit s" and "\<not> publishes c"
  shows "within_entry_limit (snd (store_step fr c s))"
proof -
  have frame: "within_entry_limit s'"
    if "rs_values s' = rs_values s" "rs_max_values s' = rs_max_values s" for s'
    using lim that by (simp add: within_entry_limit_def)
  show ?thesis
  proof (cases c)
    case (Acquire e n)
    then show ?thesis using lim frame by (cases e) (simp add: acquire_lock_def Let_def)
  next
    case (Renew e n t)
    then show ?thesis using lim frame by (cases e) (simp add: renew_lock_def split: option.splits)
  next
    case (Release e n t)
    then show ?thesis using lim frame by (simp add: release_lock_def split: option.splits)
  next
    case (Other x)
    then show ?thesis
    proof (cases x)
      case (Increment k ttl amount now)
      with Other show ?thesis
        by (auto intro!: frame simp: increment_def Let_def purge_expired_counters_def
            purge_counters_loop_eq split: prod.splits)
    next
      case (Get k now)
      with Other lim show ?thesis by (auto simp: get_json_def split: option.splits)
    next
      case (Dequeue q deadline now)
      with Other lim frame show ?thesis by (simp add: dequeue_poll_def split: list.splits)
    next
      case (Reserve q deadline now r)
      with Other lim frame show ?thesis by (simp add: reserve_poll_def split: list.splits)
    qed (use Other assms frame in \<open>simp_all add: within_limit_set_json within_limit_compare_set_json
        delete_json_def enqueue_def acknowledge_def recover_processing_def enqueue_retry_def
        subscribe_def Let_def\<close>)
  qed
qed

lemma store_step_max_values: "rs_max_values (snd (store_step fr c s)) = rs_max_values s"
proof (cases c)
  case (Acquire e n)
  then show ?thesis by (cases e) (simp add: acquire_lock_def Let_def)
next
  case (Renew e n t)
  then show ?thesis by (cases e) (simp add: renew_lock_def split: option.splits)
next
  case (Release e n t)
  then show ?thesis by (simp add: release_lock_def split: option.splits)
next
  case (Other x)
  then show ?thesis
    by (cases x) (simp_all add: increment_def get_json_def set_json_def delete_json_def put_value_def
        compare_set_json_def enqueue_def dequeue_poll_def reserve_poll_def acknowledge_def
        recover_processing_def enqueue_retry_def publish_def subscribe_def Let_def
        purge_expired_counters_def purge_counters_loop_eq
        split: option.splits prod.splits list.splits sum.splits bool.splits)
qed

lemma store_run_max_values: "rs_max_values (snd (store_run fr cs s)) = rs_max_values s"
proof (induction cs arbitrary: s)
  case (Cons c cs)
  from Cons [of "snd (store_step fr c s)"] show ?case
    by (auto simp: Let_def store_step_max_values split: prod.splits)
qed simp

lemma within_limit_run:
  "store_ok s \<Longrightarrow> within_entry_limit s \<Longrightarrow> list_all (\<lambda>c. \<not> publishes c) cs
     \<Longrightarrow> within_entry_limit (snd (store_run fr cs s))"
proof (induction cs arbitrary: s)
  case (Cons c cs)
  then have "within_entry_limit (snd (store_run fr cs (snd (store_step fr c s))))"
    using store_ok_step within_limit_step by simp
  then show ?case by (auto simp: Let_def split: prod.splits)
qed simp

text \<open>
  as long as nothing is published, the store never holds more than \<open>max_values\<close> entries.
\<close>

theorem store_run_entry_limit:
  assumes "new_store mv mb mc = Inr s" and "list_all (\<lambda>c. \<not> publishes c) cs"
  shows "int (length (rs_values (snd (store_run fr cs s)))) \<le> mv"
proof -
  have lim: "within_entry_limit s" and mv: "rs_max_values s = mv"
    using assms(1) by (auto simp: new_store_def within_entry_limit_def split: if_splits)
  have frame: "rs_max_values (snd (store_run fr cs s)) = rs_max_values s" for s
    by (rule store_run_max_values)
  show ?thesis
    using within_limit_run [OF store_ok_new [OF assms(1)] lim assms(2), of fr] mv frame [of s]
    by (simp add: within_entry_limit_def)
qed

theorem store_run_entry_limit_witness:
  "\<exists>s. new_store 1 100 2 = Inr s \<and> int (length (rs_values (snd (store_run (\<lambda>_. ''0.5'')
     [Other (Set ''a'' (JInt 1) 60 0 0), Other (Set ''b'' (JInt 2) 60 0 0)] s)))) \<le> 1"
proof -
  obtain s where "new_store 1 100 2 = Inr s" by (simp add: new_store_def)
  with store_run_entry_limit [OF this, of "[Other (Set ''a'' (JInt 1) 60 0 0), Other (Set ''b'' (JInt 2) 60 0 0)]"]
  show ?thesis by auto
qed

lemma publish_run_values:
  "distinct cs \<Longrightarrow> (\<forall>c \<in> set cs. ''pub:'' @ c @ '':latest'' \<notin> set (dkeys (rs_values s)))
     \<Longrightarrow> length (rs_values (snd (store_run fr (map (\<lambda>c. Other (Publish c v now)) cs) s)))
       = length (rs_values s) + length cs"
proof (induction cs arbitrary: s)
  case (Cons c cs)
  have new: "rs_values (publish c v now s) = rs_values s @ [(''pub:'' @ c @ '':latest'', JObj v, now + 86400)]"
    using Cons.prems by (simp add: publish_def dset_fresh)
  have "length (rs_values (snd (store_run fr (map (\<lambda>c. Other (Publish c v now)) cs) (publish c v now s))))
      = length (rs_values (publish c v now s)) + length cs"
    using Cons.prems by (intro Cons.IH) (auto simp: new)
  then show ?case by (auto simp: Let_def new split: prod.splits)
qed simp

text \<open>
  \<open>publish\<close> ignores the limits: publishing on \<open>n\<close> channels leaves \<open>n\<close> entries in a fresh
  store, whatever \<open>max_values\<close> is.
\<close>

theorem publish_ignores_entry_limit:
  assumes "new_store mv mb mc = Inr s" and "distinct cs"
  shows "length (rs_values (snd (store_run fr (map (\<lambda>c. Other (Publish c v now)) cs) s))) = length cs"
  using publish_run_values [OF assms(2), of s fr v now] assms(1)
  by (auto simp: new_store_def split: if_splits)

theorem publish_ignores_entry_limit_witness:
  "\<exists>s. new_store 1 100 2 = Inr s \<and> length (rs_values (snd (store_run (\<lambda>_. ''0.5'')
     (map (\<lambda>c. Other (Publish c [] 0)) [''a'', ''b'', ''c'']) s))) = length [''a'', ''b'', ''c'']"
proof -
  obtain s where "new_store 1 100 2 = Inr s" by (simp add: new_store_def)
  with publish_ignores_entry_limit [OF this, of "[''a'', ''b'', ''c'']"] show ?thesis by auto
qed

text \<open>
  in a store whose accounting is right, \<open>compare_set_json\<close> answers true exactly when the
  live value of the key has the expected revision (or there is none and -1 is expected) and the
  new value fits; then the new value is what \<open>get_json\<close> returns until it expires, and otherwise
  no live value of the store has changed.
\<close>

theorem compare_set_json_exact:
  assumes "store_ok s" and "now' < now + ttl"
  shows "(fst (compare_set_json fr k r v ttl now s) = Inr True
            \<longleftrightarrow> (case fst (get_json k now s) of None \<Rightarrow> r = -1 | Some w \<Rightarrow> json_revision w = Some r)
                \<and> encoded_size fr v \<le> rs_max_value_bytes s)
       \<and> (if fst (compare_set_json fr k r v ttl now s) = Inr True
          then fst (get_json k now' (snd (compare_set_json fr k r v ttl now s))) = Some v
          else \<forall>k'. fst (get_json k' now (snd (compare_set_json fr k r v ttl now s)))
                 = fst (get_json k' now s))"
  using compare_set_json_outcome [OF assms(1)] compare_set_json_stores [OF _ assms(2)]
    compare_set_json_refused purged_get(2) [OF assms(1)]
  by (simp del: fst_conv snd_conv)

theorem compare_set_json_exact_witness:
  "\<exists>s. new_store 1 100 2 = Inr s \<and>
     fst (get_json ''k'' 5 (snd (compare_set_json (\<lambda>_. ''0.5'') ''k'' (-1) (JInt 7) 60 0 s))) = Some (JInt 7)"
proof -
  obtain s where s: "new_store 1 100 2 = Inr s"
    and e: "rs_values s = []" "rs_max_value_bytes s = 100" by (simp add: new_store_def)
  have size: "encoded_size (\<lambda>_. ''0.5'') (JInt 7) \<le> 100"
    by (simp add: encoded_size_def show_int_def show_nat.simps)
  have "fst (compare_set_json (\<lambda>_. ''0.5'') ''k'' (-1) (JInt 7) 60 0 s) = Inr True"
    using compare_set_json_exact [OF store_ok_new [OF s], of 5 0 60 "\<lambda>_. ''0.5''" "''k''" "-1" "JInt 7"]
      size by (simp add: get_json_dget e)
  then show ?thesis
    using s compare_set_json_exact [OF store_ok_new [OF s], of 5 0 60 "\<lambda>_. ''0.5''" "''k''" "-1" "JInt 7"]
    by (intro exI [of _ s]) simp
qed

text \<open>
  writers that read revision \<open>r\<close> and write \<open>r + 1\<close> lose no update: from a live value of
  revision \<open>r0\<close>, however their attempts interleave, the successful ones replaced revisions
  \<open>r0, r0 + 1, ...\<close> in order without a gap or a repetition, and the stored revision is
  \<open>r0\<close> plus their number.
\<close>

theorem compare_set_no_lost_update:
  assumes "0 < ttl" and "store_ok s" and "\<forall>(r, v) \<in> set ws. json_revision v = Some (r + 1)"
    and "fst (get_json k now s) = Some v0" and "json_revision v0 = Some r0"
    and "rv.cas_run (fr, ttl, now) k ws s = (rs, s')"
  shows "rs = map (\<lambda>i. r0 + int i) [0..<length rs]
       \<and> (\<exists>v. fst (get_json k now s') = Some v \<and> json_revision v = Some (r0 + int (length rs)))"
  using rv.cas_run_consecutive [of "(fr, ttl, now)" s ws k v0 r0 rs s'] assms by simp

lemma revision_value_size:
  "encoded_size fr (JObj [(''revision'', JInt 1)]) \<le> 100"
  "encoded_size fr (JObj [(''revision'', JInt 0)]) \<le> 100"
  by (simp_all add: encoded_size_def show_int_def show_nat.simps json_string_def escape_char_def)

theorem compare_set_no_lost_update_witness:
  "\<exists>s. fst (get_json ''k'' 0 s) = Some (JObj [(''revision'', JInt 0)]) \<and>
     (\<exists>rs s'. rv.cas_run ((\<lambda>_. ''0.5''), 60, 0) ''k''
        [(0, JObj [(''revision'', JInt 1)]), (0, JObj [(''revision'', JInt 1)])] s = (rs, s') \<and>
      rs = map (\<lambda>i. 0 + int i) [0..<length rs])"
proof -
  obtain s0 where s0: "new_store 1 100 2 = Inr s0"
    and e: "rs_values s0 = []" "rs_max_value_bytes s0 = 100" by (simp add: new_store_def)
  define s where "s = snd (compare_set_json (\<lambda>_. ''0.5'') ''k'' (-1) (JObj [(''revision'', JInt 0)]) 60 0 s0)"
  have ok: "store_ok s" unfolding s_def by (rule store_ok_compare_set_json [OF store_ok_new [OF s0]])
  have "fst (compare_set_json (\<lambda>_. ''0.5'') ''k'' (-1) (JObj [(''revision'', JInt 0)]) 60 0 s0) = Inr True"
    using compare_set_json_outcome [OF store_ok_new [OF s0]] revision_value_size
    by (simp add: get_json_dget e)
  then have g: "fst (get_json ''k'' 0 s) = Some (JObj [(''revision'', JInt 0)])"
    unfolding s_def by (rule compare_set_json_stores) simp
  let ?ws = "[(0::int, JObj [(''revision'', JInt 1)]), (0, JObj [(''revision'', JInt 1)])]"
  obtain rs s' where run: "rv.cas_run ((\<lambda>_. ''0.5''), 60, 0) ''k'' ?ws s = (rs, s')"
    by (cases "rv.cas_run ((\<lambda>_. ''0.5''), 60, 0) ''k'' ?ws s")
  have "rs = map (\<lambda>i. 0 + int i) [0..<length rs]"
    using compare_set_no_lost_update [OF _ ok _ g _ run, of 0] by simp
  with g run show ?thesis by blast
qed

lemma store_ok_increment_run: "store_ok s \<Longrightarrow> store_ok (increment_run calls s)"
  by (induction calls s rule: increment_run.induct) (simp_all add: store_ok_increment)

text \<open>
  a key flood cannot reset a live rate limit: after any sequence of increments on any keys
  before the counter of \<open>k\<close> expires, the counter holds its old value plus exactly the amounts
  added to \<open>k\<close>, with its expiry unchanged.
\<close>

theorem live_counter_never_reset:
  assumes "store_ok s" and "dget (rs_counters s) k = Some (v, e)"
    and "\<forall>(k', ttl, amount, now) \<in> set calls. now < e"
  shows "dget (rs_counters (increment_run calls s)) k
       = Some (v + sum_list (map (\<lambda>(k', ttl, amount, now). amount) (filter (\<lambda>c. fst c = k) calls)), e)"
  using assms
proof (induction calls s arbitrary: v rule: increment_run.induct)
  case (2 k' ttl amount now calls s)
  have "dget (rs_counters (snd (increment k' ttl amount now s))) k
      = Some (v + (if k' = k then amount else 0), e)"
    using 2(2-4) by (intro increment_live) auto
  with 2 show ?case by (auto simp: store_ok_increment)
qed simp

theorem live_counter_never_reset_witness:
  "\<exists>s. dget (rs_counters s) ''k'' = Some (1, 60) \<and>
     dget (rs_counters (increment_run [(''k'', 60, 1, 1), (''x'', 60, 1, 2), (''k'', 60, 1, 3)] s)) ''k''
       = Some (3, 60)"
proof -
  obtain s0 where s0: "new_store 1 100 1 = Inr s0"
    and e: "rs_counters s0 = []" "rs_counter_operations s0 = 0" "rs_max_counters s0 = 1"
    by (simp add: new_store_def)
  define s where "s = snd (increment ''k'' 60 1 0 s0)"
  have ok: "store_ok s" unfolding s_def by (rule store_ok_increment [OF store_ok_new [OF s0]])
  have c: "dget (rs_counters s) ''k'' = Some (1, 60)"
    by (simp add: s_def increment_def e)
  show ?thesis
    using c live_counter_never_reset [OF ok c, of "[(''k'', 60, 1, 1), (''x'', 60, 1, 2), (''k'', 60, 1, 3)]"]
    by (intro exI [of _ s]) simp
qed

text \<open>
  however the operations of a store interleave, the fences in the tokens that
  \<open>acquire_lock\<close> grants for one name strictly ascend.
\<close>

theorem lock_fences_ascend:
  assumes "envs_ok cs" and "store_run fr cs s = (gs, s')"
  shows "sorted_wrt (<) (map (\<lambda>p. the (token_fence (snd p))) (filter (\<lambda>p. fst p = n) gs))"
  using rl.run_fences [OF envs_ok_calls [OF assms(1)], of fr s gs s' n] assms(2)
  by (simp add: store_run_is_lock_run)

theorem lock_fences_ascend_witness:
  "\<exists>s gs s'. store_run (\<lambda>_. ''0.5'')
       [Acquire (60, None, ''u'', 0) ''l'', Acquire (60, None, ''w'', 61) ''l''] s = (gs, s')
     \<and> length gs = 2
     \<and> sorted_wrt (<) (map (\<lambda>p. the (token_fence (snd p))) (filter (\<lambda>p. fst p = ''l'') gs))"
proof -
  obtain s :: store where e: "rs_locks s = []" by (meson store.select_convs(11))
  let ?cs = "[Acquire (60, None, ''u'', 0) ''l'', Acquire (60, None, ''w'', 61) ''l''] :: store_op list"
  obtain gs s' where run: "store_run (\<lambda>_. ''0.5'') ?cs s = (gs, s')"
    by (cases "store_run (\<lambda>_. ''0.5'') ?cs s")
  have "envs_ok ?cs" by (simp add: envs_ok_def)
  note sorted = lock_fences_ascend [OF this run, of "''l''"]
  have "length gs = 2" using run e by (auto simp: acquire_lock_def Let_def)
  with run sorted show ?thesis by blast
qed

lemma new_store_fenced: "new_store mv mb mc = Inr s \<Longrightarrow> rl.fenced s"
  by (auto simp: new_store_def rl.fenced_def lock_recorded_def split: if_splits)

lemma show_one_two: "show_nat (Suc 0) = ''1''" "show_nat (Suc (Suc 0)) = ''2''"
  by code_simp+

text \<open>
  once a lock has been granted again, the earlier holder's token is dead for good: it never
  passes the ownership check, and can neither renew nor release the lock, at any later time.
\<close>

theorem stale_lock_token_rejected:
  assumes "new_store mv mb mc = Inr s0" and "envs_ok cs" and "store_run fr cs s0 = (gs, s)"
    and "gs = as @ (n, t) # bs @ (n, t') # ds"
  shows "\<not> is_lock_owner n t now s \<and> \<not> fst (renew_lock n t ttl now s)
       \<and> \<not> fst (release_lock n t s)"
proof -
  note run = assms(3) [folded store_run_is_lock_run]
  note facts = rl.run_fences [OF envs_ok_calls [OF assms(2)] run, of n]
  obtain f f' where f: "token_fence t = Some f" "token_fence t' = Some f'" and le: "f' \<le> rs_lock_fences s n"
    using facts assms(4) by fastforce
  have "f < f'" using facts f unfolding assms(4) by (simp add: sorted_wrt_append)
  have "rl.fenced s"
    by (rule rl.fenced_run [OF envs_ok_calls [OF assms(2)] new_store_fenced [OF assms(1)] run])
  with f le \<open>f < f'\<close> have "lock_recorded s n \<noteq> Some t" by (auto simp: rl.fenced_def)
  then show ?thesis
    by (auto simp: is_lock_owner_def renew_lock_def release_lock_def lock_recorded_def split: option.splits)
qed

theorem stale_lock_token_rejected_witness:
  "\<exists>s0 gs s. new_store 1 1 1 = Inr s0 \<and> store_run (\<lambda>_. ''0.5'')
       [Acquire (60, None, ''u'', 0) ''l'', Acquire (60, None, ''w'', 61) ''l''] s0 = (gs, s)
     \<and> \<not> is_lock_owner ''l'' ''1:u'' 62 s"
proof -
  obtain s0 where s0: "new_store 1 1 1 = Inr s0" and e: "rs_locks s0 = []" "rs_lock_fences s0 = (\<lambda>_. 0)"
    by (simp add: new_store_def)
  let ?cs = "[Acquire (60, None, ''u'', 0) ''l'', Acquire (60, None, ''w'', 61) ''l''] :: store_op list"
  obtain gs s where run: "store_run (\<lambda>_. ''0.5'') ?cs s0 = (gs, s)"
    by (cases "store_run (\<lambda>_. ''0.5'') ?cs s0")
  have gs: "gs = [] @ (''l'', ''1:u'') # [] @ (''l'', ''2:w'') # []"
    using run e
    by (auto simp: acquire_lock_def Let_def show_one_two)
  have "envs_ok ?cs" by (simp add: envs_ok_def)
  from stale_lock_token_rejected [OF s0 this run gs] s0 run show ?thesis by blast
qed



end
