(* ===== verification/Trip.thy ===== *)
theory Trip
  imports Runtime_Store
begin

text \<open>
  A trip in progress: its states and allowed transitions (\<open>services/agent_state.py\<close>), the
  policy that guards the companion's tools (\<open>services/agent_policy.py\<close>), the evaluation of trip
  events (\<open>services/trip_events.py\<close>) and the publication of snapshots under one sequence per trip
  (\<open>services/trip_stream.py\<close>). The enumerations are those of \<open>schemas/companion.py\<close>.
  Message texts that the code shows to users are constructors of \<open>event_reason\<close>.
\<close>

section \<open>Enumerations\<close>

datatype trip_state =
    Idle | Discovering | Clarifying | Planning | Plan_ready | Active_trip
  | Paused | Off_route | At_risk | Replanning | Completed | Cancelled

fun trip_state_value :: "trip_state \<Rightarrow> string" where
  "trip_state_value Idle = ''IDLE''"
| "trip_state_value Discovering = ''DISCOVERING''"
| "trip_state_value Clarifying = ''CLARIFYING''"
| "trip_state_value Planning = ''PLANNING''"
| "trip_state_value Plan_ready = ''PLAN_READY''"
| "trip_state_value Active_trip = ''ACTIVE_TRIP''"
| "trip_state_value Paused = ''PAUSED''"
| "trip_state_value Off_route = ''OFF_ROUTE''"
| "trip_state_value At_risk = ''AT_RISK''"
| "trip_state_value Replanning = ''REPLANNING''"
| "trip_state_value Completed = ''COMPLETED''"
| "trip_state_value Cancelled = ''CANCELLED''"

datatype trip_event_type =
    Location_updated | Schedule_delay | Traffic_changed | Weather_alert | Poi_status_changed
  | User_off_route | Deadline_risk | Stop_completed | Stop_skipped
  | User_paused | User_resumed | Trip_completed

fun trip_event_value :: "trip_event_type \<Rightarrow> string" where
  "trip_event_value Location_updated = ''LocationUpdated''"
| "trip_event_value Schedule_delay = ''ScheduleDelayDetected''"
| "trip_event_value Traffic_changed = ''TrafficChanged''"
| "trip_event_value Weather_alert = ''WeatherAlertReceived''"
| "trip_event_value Poi_status_changed = ''PoiStatusChanged''"
| "trip_event_value User_off_route = ''UserOffRoute''"
| "trip_event_value Deadline_risk = ''DeadlineRiskDetected''"
| "trip_event_value Stop_completed = ''PlanStopCompleted''"
| "trip_event_value Stop_skipped = ''PlanStopSkipped''"
| "trip_event_value User_paused = ''UserPausedTrip''"
| "trip_event_value User_resumed = ''UserResumedTrip''"
| "trip_event_value Trip_completed = ''TripCompleted''"

datatype consent_scope =
    Precise_location | Background_location | Share_location | Save_preference | Contact_person

fun consent_value :: "consent_scope \<Rightarrow> string" where
  "consent_value Precise_location = ''precise_location''"
| "consent_value Background_location = ''background_location''"
| "consent_value Share_location = ''share_location''"
| "consent_value Save_preference = ''save_preference''"
| "consent_value Contact_person = ''contact_person''"

text \<open>States compare as their values do, so that \<^const>\<open>sort\<close> is Python's \<open>sorted\<close> on them.\<close>

lemma trip_state_value_inj: "trip_state_value a = trip_state_value b \<Longrightarrow> a = b"
  by (cases a; cases b) simp_all

instantiation trip_state :: linorder
begin

definition less_eq_trip_state :: "trip_state \<Rightarrow> trip_state \<Rightarrow> bool" where
  "less_eq_trip_state a b \<longleftrightarrow> trip_state_value a \<le> trip_state_value b"

definition less_trip_state :: "trip_state \<Rightarrow> trip_state \<Rightarrow> bool" where
  "less_trip_state a b \<longleftrightarrow> trip_state_value a < trip_state_value b"

instance
  by standard
    (auto simp: less_eq_trip_state_def less_trip_state_def dest: trip_state_value_inj)

end

section \<open>Transitions\<close>

fun allowed_transitions :: "trip_state \<Rightarrow> trip_state list" where
  "allowed_transitions Idle = [Discovering, Plan_ready, Cancelled]"
| "allowed_transitions Discovering = [Clarifying, Planning, Cancelled]"
| "allowed_transitions Clarifying = [Planning, Cancelled]"
| "allowed_transitions Planning = [Plan_ready, Clarifying, Cancelled]"
| "allowed_transitions Plan_ready = [Active_trip, Cancelled]"
| "allowed_transitions Active_trip = [Paused, Off_route, At_risk, Completed, Cancelled]"
| "allowed_transitions Paused = [Active_trip, Completed, Cancelled]"
| "allowed_transitions Off_route = [Replanning, Active_trip, Completed, Cancelled]"
| "allowed_transitions At_risk = [Replanning, Active_trip, Completed, Cancelled]"
| "allowed_transitions Replanning = [Active_trip, At_risk, Completed, Cancelled]"
| "allowed_transitions Completed = []"
| "allowed_transitions Cancelled = []"

record transition_denied =
  td_status :: int
  td_code :: string
  td_allowed :: "string list"

definition validate_transition :: "trip_state \<Rightarrow> trip_state \<Rightarrow> transition_denied + unit" where
  "validate_transition current target =
     (if target \<notin> set (allowed_transitions current)
      then Inl \<lparr>td_status = 409, td_code = ''TRIP_STATE_TRANSITION_DENIED'',
                td_allowed = map trip_state_value (sort (allowed_transitions current))\<rparr>
      else Inr ())"

section \<open>Tool policy\<close>

record tool_policy =
  tp_allowed_states :: "trip_state list"
  tp_confirmation_required :: bool
  tp_consent_scope :: "consent_scope option"

definition all_trip_states :: "trip_state list" where
  "all_trip_states = [Idle, Discovering, Clarifying, Planning, Plan_ready, Active_trip,
     Paused, Off_route, At_risk, Replanning, Completed, Cancelled]"

definition tool_policies :: "(string, tool_policy) dict" where
  "tool_policies =
    [(''get_trip_state'', \<lparr>tp_allowed_states = all_trip_states,
        tp_confirmation_required = False, tp_consent_scope = None\<rparr>),
     (''get_weather'', \<lparr>tp_allowed_states = [Plan_ready, Active_trip, At_risk, Off_route, Replanning],
        tp_confirmation_required = False, tp_consent_scope = None\<rparr>),
     (''get_current_location'', \<lparr>tp_allowed_states = [Active_trip, Off_route, At_risk, Replanning],
        tp_confirmation_required = False, tp_consent_scope = Some Precise_location\<rparr>),
     (''propose_replan'', \<lparr>tp_allowed_states = [Active_trip, Off_route, At_risk, Replanning],
        tp_confirmation_required = False, tp_consent_scope = None\<rparr>)]"

definition evaluate_tool_policy ::
  "string \<Rightarrow> trip_state \<Rightarrow> consent_scope set \<Rightarrow> bool \<times> string \<times> bool" where
  "evaluate_tool_policy tool st granted =
     (case dget tool_policies tool of
        None \<Rightarrow> (False, ''tool_not_registered'', False)
      | Some policy \<Rightarrow>
          if st \<notin> set (tp_allowed_states policy)
          then (False, ''tool_not_allowed_in_state'', tp_confirmation_required policy)
          else case tp_consent_scope policy of
              Some scope \<Rightarrow>
                if scope \<notin> granted
                then (False, ''missing_consent:'' @ consent_value scope, tp_confirmation_required policy)
                else (True, ''allowed'', tp_confirmation_required policy)
            | None \<Rightarrow> (True, ''allowed'', tp_confirmation_required policy))"

section \<open>Events\<close>

datatype event_reason =
    No_impact | Left_route | Hard_constraint_at_risk | Delayed int | Traffic_delay int
  | Weather_impact | Trip_paused | Trip_resumed | Trip_done | Patch_only_text

datatype impact_level = Impact_none | Impact_high | Impact_critical

record event_proposal =
  ep_action :: string
  ep_reason :: event_reason
  ep_requires_confirmation :: bool

record event_decision =
  ed_next_state :: trip_state
  ed_impact_level :: impact_level
  ed_should_notify :: bool
  ed_reason :: event_reason
  ed_proposals :: "event_proposal list"

text \<open>
  \<open>str(payload.get("severity") or "low").lower() in {...}\<close>: the text of a value that is not a
  string is none of the three words.
\<close>

fun severe_text :: "json \<Rightarrow> bool" where
  "severe_text (JStr s) = (str_lower s \<in> {''high'', ''severe'', ''extreme''})"
| "severe_text _ = False"

definition event_impact ::
  "trip_state \<Rightarrow> trip_event_type \<Rightarrow> payload \<Rightarrow> (impact_level \<times> trip_state \<times> event_reason) res" where
  "event_impact current ev p =
     (case ev of
        User_off_route \<Rightarrow> Inr (Impact_high, Off_route, Left_route)
      | Deadline_risk \<Rightarrow> Inr (Impact_critical, At_risk, Hard_constraint_at_risk)
      | Poi_status_changed \<Rightarrow> Inr (Impact_critical, At_risk, Hard_constraint_at_risk)
      | Schedule_delay \<Rightarrow>
          res_bind (py_int_or0 (obj_get p ''delay_minutes'')) (\<lambda>d.
            let delay = max 0 d
            in if 10 \<le> delay
               then Inr (if 30 \<le> delay then Impact_critical else Impact_high, At_risk, Delayed delay)
               else Inr (Impact_none, current, No_impact))
      | Traffic_changed \<Rightarrow>
          res_bind (py_int_or0 (obj_get p ''extra_minutes'')) (\<lambda>d.
            let delay = max 0 d
            in if 10 \<le> delay then Inr (Impact_high, At_risk, Traffic_delay delay)
               else Inr (Impact_none, current, No_impact))
      | Weather_alert \<Rightarrow>
          if severe_text (obj_get p ''severity'') then Inr (Impact_high, At_risk, Weather_impact)
          else Inr (Impact_none, current, No_impact)
      | User_paused \<Rightarrow> Inr (Impact_none, Paused, Trip_paused)
      | User_resumed \<Rightarrow> Inr (Impact_none, Active_trip, Trip_resumed)
      | Trip_completed \<Rightarrow> Inr (Impact_none, Completed, Trip_done)
      | _ \<Rightarrow> Inr (Impact_none, current, No_impact))"

definition event_cooldown :: "instant option \<Rightarrow> int \<Rightarrow> instant \<Rightarrow> bool" where
  "event_cooldown last_notification cooldown_minutes clock =
     (case last_notification of
        None \<Rightarrow> False
      | Some t \<Rightarrow> clock - t < td_minutes cooldown_minutes)"

definition evaluate_trip_event ::
  "trip_state \<Rightarrow> trip_event_type \<Rightarrow> payload \<Rightarrow> instant option \<Rightarrow> int \<Rightarrow> instant
     \<Rightarrow> event_decision res" where
  "evaluate_trip_event current ev p last_notification cooldown_minutes clock =
     (let cooldown_active = event_cooldown last_notification cooldown_minutes clock
      in res_bind (event_impact current ev p) (\<lambda>(impact, next_state, reason).
           let proposals =
                 (if impact \<in> {Impact_high, Impact_critical}
                  then [\<lparr>ep_action = ''recalculate_remaining_plan'', ep_reason = reason,
                         ep_requires_confirmation = False\<rparr>,
                        \<lparr>ep_action = ''create_plan_patch'', ep_reason = Patch_only_text,
                         ep_requires_confirmation = True\<rparr>]
                  else []);
               should_notify = (impact = Impact_critical \<or> impact = Impact_high \<and> \<not> cooldown_active)
           in Inr \<lparr>ed_next_state = next_state, ed_impact_level = impact,
                   ed_should_notify = should_notify, ed_reason = reason,
                   ed_proposals = proposals\<rparr>))"

section \<open>The stream of a trip\<close>

definition trip_stream_ttl :: rat where
  "trip_stream_ttl = 86400"

definition trip_sequence_ttl :: rat where
  "trip_sequence_ttl = 10 * 365 * 24 * 60 * 60"

text \<open>
  The three awaited calls are three atomic steps of the store, each with its own clock reading;
  \<open>env1\<close> and \<open>env2\<close> are what other tasks did to the store in between.
\<close>

definition publish_trip_stream ::
  "(rat \<Rightarrow> string) \<Rightarrow> int \<Rightarrow> payload \<Rightarrow> rat \<times> rat \<times> rat \<times> rat
     \<Rightarrow> (store \<Rightarrow> store) \<Rightarrow> (store \<Rightarrow> store) \<Rightarrow> store \<Rightarrow> payload \<times> store" where
  "publish_trip_stream fr trip_id p clocks env1 env2 s =
     (let (t1, t2, t3, t4) = clocks;
          tid = show_int trip_id;
          (sequence, s1) = increment (''trip-sequence:'' @ tid) trip_sequence_ttl 1 t1 s;
          event = dset ''trip_id'' (JInt trip_id) (dset ''sequence'' (JInt sequence) p);
          s2 = set_json fr (''trip-stream:'' @ tid) (JObj event) trip_stream_ttl t2 t3 (env1 s1);
          s3 = publish (''trip:'' @ tid) event t4 (env2 s2)
      in (event, s3))"

end
