(* ===== verification/Trip_Properties.thy ===== *)
theory Trip_Properties
  imports Trip Store_Contracts
begin

text \<open>
  The trip's state machine as a step relation over validated transitions, what its histories
  satisfy, the exact conditions of the tool policy, and the decisions taken on events.
\<close>

section \<open>Histories of validated transitions\<close>

inductive trip_step :: "trip_state \<Rightarrow> trip_state \<Rightarrow> bool" where
  transition: "validate_transition a b = Inr () \<Longrightarrow> trip_step a b"

inductive trip_path :: "trip_state \<Rightarrow> trip_state list \<Rightarrow> trip_state \<Rightarrow> bool" where
  path_start: "trip_path a [a] a"
| path_step: "trip_path a p b \<Longrightarrow> trip_step b c \<Longrightarrow> trip_path a (p @ [c]) c"

inductive_simps trip_step_simp: "trip_step a b"
inductive_cases trip_stepE: "trip_step a b"

lemma trip_step_iff: "trip_step a b \<longleftrightarrow> b \<in> set (allowed_transitions a)"
  by (simp add: trip_step_simp validate_transition_def)

lemmas step_cases = trip_step_iff validate_transition_def

fun under_way :: "trip_state \<Rightarrow> bool" where
  "under_way Active_trip = True"
| "under_way Paused = True"
| "under_way Off_route = True"
| "under_way At_risk = True"
| "under_way Replanning = True"
| "under_way Completed = True"
| "under_way _ = False"

lemma under_way_source: "trip_step a b \<Longrightarrow> under_way b \<Longrightarrow> under_way a \<or> a = Plan_ready"
  by (cases a) (auto simp: trip_step_iff)

text \<open>
  along validated transitions a trip that starts idle is only ever under way, or completed,
  after it had a ready plan.
\<close>

theorem under_way_needs_plan:
  assumes "trip_path Idle p st" and "under_way st"
  shows "Plan_ready \<in> set p"
proof -
  have "(under_way b \<longrightarrow> Plan_ready \<in> set p) \<and> b \<in> set p" if "trip_path a p b" "a = Idle" for a p b
    using that
  proof (induction rule: trip_path.induct)
    case (path_step a p b c)
    then show ?case using under_way_source [of b c] by auto
  qed simp
  with assms show ?thesis by blast
qed

theorem under_way_needs_plan_witness:
  "trip_path Idle [Idle, Plan_ready, Active_trip, At_risk] At_risk
   \<and> Plan_ready \<in> set [Idle, Plan_ready, Active_trip, At_risk]"
proof -
  have s: "trip_step Idle Plan_ready" "trip_step Plan_ready Active_trip" "trip_step Active_trip At_risk"
    by (simp_all add: trip_step_iff)
  have "trip_path Idle [Idle, Plan_ready, Active_trip, At_risk] At_risk"
    using path_step [OF path_step [OF path_step [OF path_start s(1)] s(2)] s(3)] by simp
  with under_way_needs_plan [OF this] show ?thesis by simp
qed

section \<open>Tool policy\<close>

text \<open>
  the policy answers "allowed" exactly for a registered tool in one of its states with the
  consent it asks for; the current location in particular is read only in a running trip and
  with the precise-location consent, and no tool that is not in the table is ever allowed.
\<close>

theorem tool_policy_exact:
  "fst (evaluate_tool_policy tool st granted) \<longleftrightarrow>
     tool = ''get_trip_state''
   \<or> tool = ''get_weather'' \<and> st \<in> {Plan_ready, Active_trip, At_risk, Off_route, Replanning}
   \<or> tool = ''get_current_location'' \<and> st \<in> {Active_trip, Off_route, At_risk, Replanning}
       \<and> Precise_location \<in> granted
   \<or> tool = ''propose_replan'' \<and> st \<in> {Active_trip, Off_route, At_risk, Replanning}"
proof (cases "tool \<in> set (dkeys tool_policies)")
  case False
  then show ?thesis by (auto simp: evaluate_tool_policy_def tool_policies_def)
next
  case True
  have "st \<in> set all_trip_states" by (cases st) (simp_all add: all_trip_states_def)
  with True show ?thesis
    by (auto simp: evaluate_tool_policy_def tool_policies_def)
qed

section \<open>Decisions on events\<close>

definition patch_proposals :: "event_reason \<Rightarrow> event_proposal list" where
  "patch_proposals reason =
     [\<lparr>ep_action = ''recalculate_remaining_plan'', ep_reason = reason, ep_requires_confirmation = False\<rparr>,
      \<lparr>ep_action = ''create_plan_patch'', ep_reason = Patch_only_text, ep_requires_confirmation = True\<rparr>]"

lemma evaluate_trip_event_Inr:
  assumes "evaluate_trip_event current ev p prev mins clock = Inr d"
  obtains impact next_state reason where
    "event_impact current ev p = Inr (impact, next_state, reason)"
    "ed_impact_level d = impact" "ed_next_state d = next_state"
    "ed_should_notify d = (impact = Impact_critical
        \<or> impact = Impact_high \<and> \<not> event_cooldown prev mins clock)"
    "ed_proposals d = (if impact = Impact_none then [] else patch_proposals reason)"
proof -
  obtain impact next_state reason where
    i: "event_impact current ev p = Inr (impact, next_state, reason)"
    using assms by (auto simp: evaluate_trip_event_def Let_def res_bind_Inr_iff)
  show ?thesis
    by (rule that [OF i]; use assms i in \<open>cases impact; auto simp: evaluate_trip_event_def patch_proposals_def\<close>)
qed

lemma event_impact_active:
  "event_impact Active_trip ev p = Inr (impact, next_state, reason)
     \<Longrightarrow> next_state = Active_trip \<or> next_state \<in> set (allowed_transitions Active_trip)"
  by (auto simp: event_impact_def Let_def res_simps split: trip_event_type.splits if_splits)

text \<open>
  an event never changes the plan itself: it yields no proposal, or a recalculation and a
  patch that requires confirmation; the user is notified of a critical event always and of a
  high one outside the cooldown; and from a running trip every event leads to the same state or
  along an allowed transition.
\<close>

theorem trip_event_decision:
  assumes "evaluate_trip_event current ev p prev mins clock = Inr d"
  shows "(ed_proposals d = [] \<longleftrightarrow> ed_impact_level d = Impact_none)
       \<and> (\<forall>q \<in> set (ed_proposals d). ep_action q = ''create_plan_patch'' \<longrightarrow> ep_requires_confirmation q)
       \<and> (ed_should_notify d \<longleftrightarrow> ed_impact_level d = Impact_critical
            \<or> ed_impact_level d = Impact_high
              \<and> (case prev of None \<Rightarrow> True | Some t \<Rightarrow> t + mins * 60000000 \<le> clock))
       \<and> (current = Active_trip \<longrightarrow> ed_next_state d = Active_trip
            \<or> validate_transition Active_trip (ed_next_state d) = Inr ())"
proof -
  obtain impact next_state reason where
    e: "event_impact current ev p = Inr (impact, next_state, reason)"
      "ed_impact_level d = impact" "ed_next_state d = next_state"
      "ed_should_notify d = (impact = Impact_critical \<or> impact = Impact_high \<and> \<not> event_cooldown prev mins clock)"
      "ed_proposals d = (if impact = Impact_none then [] else patch_proposals reason)"
    using assms by (rule evaluate_trip_event_Inr)
  have "event_cooldown prev mins clock
      \<longleftrightarrow> \<not> (case prev of None \<Rightarrow> True | Some t \<Rightarrow> t + mins * 60000000 \<le> clock)"
    by (auto simp: event_cooldown_def td_minutes_def split: option.splits)
  with e event_impact_active [of ev p impact next_state reason] show ?thesis
    by (auto simp: validate_transition_def patch_proposals_def)
qed

theorem trip_event_decision_witness:
  "\<exists>d. evaluate_trip_event Active_trip Schedule_delay [(''delay_minutes'', JInt 45)] None 15 0 = Inr d
     \<and> ed_should_notify d \<and> ed_next_state d = At_risk
     \<and> validate_transition Active_trip (ed_next_state d) = Inr ()"
proof -
  obtain d where d: "evaluate_trip_event Active_trip Schedule_delay [(''delay_minutes'', JInt 45)] None 15 0 = Inr d"
    and "ed_next_state d = At_risk" "ed_impact_level d = Impact_critical"
    by (simp add: evaluate_trip_event_def event_impact_def obj_get_def py_int_or0_def)
  with trip_event_decision [OF d] show ?thesis by auto
qed


section \<open>The stream of a trip\<close>

lemma increment_value_live:
  assumes ok: "store_ok s" and cur: "dget (rs_counters s) k = Some (v, e)" and "now < e"
  shows "fst (increment k ttl amount now s) = v + amount"
proof -
  define s1 where "s1 = s\<lparr>rs_counter_operations := Suc (rs_counter_operations s)\<rparr>"
  define s2 where "s2 = (if rs_counter_operations s1 mod 256 = 0
      \<or> rs_max_counters s1 \<le> int (length (rs_counters s1)) then purge_expired_counters now s1 else s1)"
  have d: "dict_ok (rs_counters s1)" using ok by (simp add: s1_def store_ok_def)
  have cur2: "dget (rs_counters s2) k = Some (v, e)"
    using cur \<open>now < e\<close> unfolding s2_def purge_expired_counters_eq [OF d]
    by (simp add: s1_def dget_live [OF d [unfolded s1_def], simplified])
  then have mem: "k \<in> set (dkeys (rs_counters s2))" by (metis dget_None_iff option.distinct(1))
  show ?thesis
    using cur2 mem \<open>now < e\<close> unfolding increment_def s1_def [symmetric] s2_def [symmetric] Let_def
    by (auto split: prod.splits)
qed

definition sequence_key :: "int \<Rightarrow> string" where
  "sequence_key trip_id = ''trip-sequence:'' @ show_int trip_id"

lemma publish_trip_stream_live:
  assumes ok: "store_ok s" and cur: "dget (rs_counters s) (sequence_key tid) = Some (v, e)"
    and "t1 < e"
    and env: "\<And>s. store_ok s \<Longrightarrow> store_ok (env1 s) \<and> store_ok (env2 s)"
    and keeps: "\<And>s. dget (rs_counters (env1 s)) (sequence_key tid) = dget (rs_counters s) (sequence_key tid)"
      "\<And>s. dget (rs_counters (env2 s)) (sequence_key tid) = dget (rs_counters s) (sequence_key tid)"
    and run: "publish_trip_stream fr tid p (t1, t2, t3, t4) env1 env2 s = (event, s')"
  shows "dget event ''sequence'' = Some (JInt (v + 1))"
    and "dget (rs_counters s') (sequence_key tid) = Some (v + 1, e)" and "store_ok s'"
proof -
  define s1 where "s1 = snd (increment (sequence_key tid) trip_sequence_ttl 1 t1 s)"
  define ev where "ev = dset ''trip_id'' (JInt tid) (dset ''sequence'' (JInt (v + 1)) p)"
  define s2 where "s2 = set_json fr (''trip-stream:'' @ show_int tid) (JObj ev) trip_stream_ttl t2 t3 (env1 s1)"
  have inc: "increment (sequence_key tid) trip_sequence_ttl 1 t1 s = (v + 1, s1)"
    using increment_value_live [OF ok cur \<open>t1 < e\<close>] by (simp add: s1_def prod_eq_iff)
  have eq: "event = ev" "s' = publish (''trip:'' @ show_int tid) ev t4 (env2 s2)"
    using run inc unfolding publish_trip_stream_def Let_def sequence_key_def [symmetric]
    by (auto simp: ev_def s2_def)
  show "dget event ''sequence'' = Some (JInt (v + 1))" by (simp add: eq ev_def)
  have c1: "dget (rs_counters s1) (sequence_key tid) = Some (v + 1, e)"
    using increment_live [OF ok cur \<open>t1 < e\<close>, of "sequence_key tid"] by (simp add: s1_def)
  have "rs_counters s2 = rs_counters (env1 s1)"
    by (simp add: s2_def set_json_def Let_def)
  with c1 keeps show "dget (rs_counters s') (sequence_key tid) = Some (v + 1, e)"
    by (simp add: eq publish_def)
  have "store_ok s1" unfolding s1_def using ok by (rule store_ok_increment)
  then have "store_ok s2" unfolding s2_def using env by (intro store_ok_set_json) blast
  with env show "store_ok s'" unfolding eq by (intro store_ok_publish) blast
qed

text \<open>
  two consecutive snapshots of a trip carry consecutive sequence numbers: while the counter
  of the trip is live and nobody else increments it, whatever else other tasks do to the store
  between the steps.
\<close>

theorem trip_stream_consecutive:
  assumes "store_ok s" and "dget (rs_counters s) (sequence_key tid) = Some (v, e)"
    and "t1 < e" and "u1 < e"
    and "\<And>s. store_ok s \<Longrightarrow> store_ok (env1 s) \<and> store_ok (env2 s)"
    and "\<And>s. dget (rs_counters (env1 s)) (sequence_key tid) = dget (rs_counters s) (sequence_key tid)"
    and "\<And>s. dget (rs_counters (env2 s)) (sequence_key tid) = dget (rs_counters s) (sequence_key tid)"
    and "publish_trip_stream fr tid p (t1, t2, t3, t4) env1 env2 s = (event, s1)"
    and "publish_trip_stream fr tid p' (u1, u2, u3, u4) env1 env2 s1 = (event', s2)"
  shows "dget event ''sequence'' = Some (JInt (v + 1)) \<and> dget event' ''sequence'' = Some (JInt (v + 2))"
proof -
  note first = publish_trip_stream_live [OF assms(1,2,3,5,6,7,8)]
  note second = publish_trip_stream_live [OF first(3,2) assms(4,5,6,7,9)]
  from first(1) second(1) show ?thesis by simp
qed

theorem trip_stream_consecutive_witness:
  "\<exists>s event event' s1 s2.
     publish_trip_stream (\<lambda>_. ''0.5'') 7 [] (1, 1, 1, 1) id id s = (event, s1) \<and>
     publish_trip_stream (\<lambda>_. ''0.5'') 7 [] (2, 2, 2, 2) id id s1 = (event', s2) \<and>
     dget event ''sequence'' = Some (JInt 2) \<and> dget event' ''sequence'' = Some (JInt 3)"
proof -
  obtain s0 where s0: "new_store 9 1000 9 = Inr s0"
    and e: "rs_counters s0 = []" "rs_counter_operations s0 = 0" "rs_max_counters s0 = 9"
    by (simp add: new_store_def)
  define s where "s = snd (increment (sequence_key 7) trip_sequence_ttl 1 0 s0)"
  have ok: "store_ok s" unfolding s_def by (rule store_ok_increment [OF store_ok_new [OF s0]])
  have c: "dget (rs_counters s) (sequence_key 7) = Some (1, trip_sequence_ttl)"
    by (simp add: s_def increment_def e trip_sequence_ttl_def)
  obtain event s1 where p1: "publish_trip_stream (\<lambda>_. ''0.5'') 7 [] (1, 1, 1, 1) id id s = (event, s1)"
    by (cases "publish_trip_stream (\<lambda>_. ''0.5'') 7 [] (1, 1, 1, 1) id id s")
  obtain event' s2 where p2: "publish_trip_stream (\<lambda>_. ''0.5'') 7 [] (2, 2, 2, 2) id id s1 = (event', s2)"
    by (cases "publish_trip_stream (\<lambda>_. ''0.5'') 7 [] (2, 2, 2, 2) id id s1")
  have "dget event ''sequence'' = Some (JInt 2) \<and> dget event' ''sequence'' = Some (JInt 3)"
    using trip_stream_consecutive [OF ok c _ _ _ _ _ p1 p2] by (simp add: trip_sequence_ttl_def)
  with p1 p2 show ?thesis by blast
qed

end
