(* ===== verification/Protocol.thy ===== *)
theory Protocol
  imports Json
begin

text \<open>
  \<open>services/agent_protocol.py\<close> and the message envelope of \<open>schemas/agent_artifacts.py\<close>: the
  allow-listed routes between agents, the construction of a message with its content hash and
  idempotency key, its validation at both ends, local delivery with deduplication, and the
  minimised audit record.

  Parameters: \<open>sha\<close> is the hexadecimal SHA-256 of a text, \<open>fr\<close> the text of a float, and
  \<open>schema_ok name v\<close> says whether the pydantic model \<open>name\<close> accepts the value \<open>v\<close>. Trace
  headers are telemetry and are not part of the message here.
\<close>

section \<open>Endpoints, messages, routes\<close>

datatype agent_endpoint =
    Ep_user | Ep_system | Ep_supervisor | Ep_intent | Ep_search | Ep_safety | Ep_planner
  | Ep_critic | Ep_companion | Ep_replanner | Ep_tool_runtime | Ep_final_answer

fun endpoint_value :: "agent_endpoint \<Rightarrow> string" where
  "endpoint_value Ep_user = ''user''"
| "endpoint_value Ep_system = ''system''"
| "endpoint_value Ep_supervisor = ''supervisor''"
| "endpoint_value Ep_intent = ''intent''"
| "endpoint_value Ep_search = ''search''"
| "endpoint_value Ep_safety = ''safety''"
| "endpoint_value Ep_planner = ''planner''"
| "endpoint_value Ep_critic = ''critic''"
| "endpoint_value Ep_companion = ''companion''"
| "endpoint_value Ep_replanner = ''replanner''"
| "endpoint_value Ep_tool_runtime = ''tool_runtime''"
| "endpoint_value Ep_final_answer = ''final_answer''"

datatype message_type =
    Mt_command | Mt_event | Mt_artifact | Mt_result | Mt_error | Mt_tool_request | Mt_tool_result

fun message_type_value :: "message_type \<Rightarrow> string" where
  "message_type_value Mt_command = ''command''"
| "message_type_value Mt_event = ''event''"
| "message_type_value Mt_artifact = ''artifact''"
| "message_type_value Mt_result = ''result''"
| "message_type_value Mt_error = ''error''"
| "message_type_value Mt_tool_request = ''tool_request''"
| "message_type_value Mt_tool_result = ''tool_result''"

record agent_message =
  am_protocol_version :: string
  am_message_id :: string
  am_task_id :: string
  am_sender :: agent_endpoint
  am_receiver :: agent_endpoint
  am_type :: message_type
  am_artifact_type :: string
  am_content :: "(string \<times> json) list"
  am_content_hash :: string
  am_idempotency_key :: string
  am_correlation_id :: string
  am_causation_id :: "string option"
  am_reply_to :: "string option"
  am_inbox :: "string option"
  am_attempt :: int
  am_created_at :: instant
  am_expires_at :: "instant option"

record agent_route =
  ar_sender :: agent_endpoint
  ar_receiver :: agent_endpoint
  ar_type :: message_type
  ar_artifacts :: "string list"

definition mk_route :: "agent_endpoint \<Rightarrow> agent_endpoint \<Rightarrow> message_type \<Rightarrow> string list \<Rightarrow> agent_route" where
  "mk_route a b t arts = \<lparr>ar_sender = a, ar_receiver = b, ar_type = t, ar_artifacts = arts\<rparr>"

definition agent_routes :: "agent_route list" where
  "agent_routes =
    [mk_route Ep_user Ep_supervisor Mt_command [''planning_request''],
     mk_route Ep_supervisor Ep_intent Mt_command [''planning_request''],
     mk_route Ep_intent Ep_supervisor Mt_artifact [''intent_artifact''],
     mk_route Ep_intent Ep_supervisor Mt_result [''intent_artifact''],
     mk_route Ep_supervisor Ep_search Mt_command [''intent_artifact'', ''retry_directive''],
     mk_route Ep_search Ep_planner Mt_artifact [''search_artifact''],
     mk_route Ep_search Ep_safety Mt_artifact [''search_artifact''],
     mk_route Ep_safety Ep_planner Mt_artifact [''safety_report''],
     mk_route Ep_planner Ep_critic Mt_artifact [''plan_candidate''],
     mk_route Ep_planner Ep_supervisor Mt_result [''plan_candidate'', ''planner_execution''],
     mk_route Ep_supervisor Ep_planner Mt_command [''planner_context''],
     mk_route Ep_critic Ep_supervisor Mt_result [''review_report'', ''critic_execution''],
     mk_route Ep_supervisor Ep_critic Mt_command [''critic_context''],
     mk_route Ep_system Ep_supervisor Mt_error [''recovery_event''],
     mk_route Ep_supervisor Ep_final_answer Mt_result [''final_answer''],
     mk_route Ep_system Ep_companion Mt_event [''trip_observation''],
     mk_route Ep_system Ep_companion Mt_error [''recovery_event''],
     mk_route Ep_companion Ep_tool_runtime Mt_tool_request [''tool_request''],
     mk_route Ep_tool_runtime Ep_companion Mt_tool_result [''tool_result''],
     mk_route Ep_companion Ep_final_answer Mt_result [''companion_action_report''],
     mk_route Ep_companion Ep_supervisor Mt_artifact [''trip_event_artifact''],
     mk_route Ep_supervisor Ep_replanner Mt_command [''trip_event_artifact''],
     mk_route Ep_replanner Ep_planner Mt_artifact [''replan_directive''],
     mk_route Ep_replanner Ep_planner Mt_result [''replan_directive''],
     mk_route Ep_planner Ep_critic Mt_artifact [''plan_patch_candidate''],
     mk_route Ep_critic Ep_supervisor Mt_result [''dynamic_patch_review''],
     mk_route Ep_supervisor Ep_final_answer Mt_result [''plan_patch_proposal'']]"

definition max_agent_message_bytes :: nat where
  "max_agent_message_bytes = 256 * 1024"

definition max_agent_audit_bytes :: nat where
  "max_agent_audit_bytes = 8 * 1024"

datatype protocol_error =
    Message_too_large | Invalid_envelope | Forbidden_route | Invalid_payload
  | Hash_mismatch | Key_mismatch | Message_expired

section \<open>The envelope\<close>

definition hex_digit :: "char \<Rightarrow> bool" where
  "hex_digit c \<longleftrightarrow> is_digit c \<or> c \<in> set ''abcdef''"

definition hex64 :: "string \<Rightarrow> bool" where
  "hex64 s \<longleftrightarrow> length s = 64 \<and> list_all hex_digit s"

definition name_char :: "char \<Rightarrow> bool" where
  "name_char c = (let n = of_char c :: nat in
     is_digit c \<or> (65 \<le> n \<and> n \<le> 90) \<or> (97 \<le> n \<and> n \<le> 122) \<or> c \<in> set ''._-'')"

definition inbox_name_ok :: "string option \<Rightarrow> bool" where
  "inbox_name_ok x =
     (case x of None \<Rightarrow> True
      | Some s \<Rightarrow> 16 \<le> length s \<and> length s \<le> 80 \<and> list_all name_char s)"

text \<open>The field constraints of \<open>AgentMessage\<close> and its \<open>validate_envelope\<close>.\<close>

definition envelope_ok :: "agent_message \<Rightarrow> bool" where
  "envelope_ok m \<longleftrightarrow>
     am_protocol_version m = ''1.0'' \<and>
     8 \<le> cp_length (am_task_id m) \<and> cp_length (am_task_id m) \<le> 128 \<and>
     1 \<le> cp_length (am_artifact_type m) \<and> cp_length (am_artifact_type m) \<le> 80 \<and>
     hex64 (am_content_hash m) \<and>
     16 \<le> cp_length (am_idempotency_key m) \<and> cp_length (am_idempotency_key m) \<le> 128 \<and>
     inbox_name_ok (am_reply_to m) \<and> inbox_name_ok (am_inbox m) \<and>
     1 \<le> am_attempt m \<and> am_attempt m \<le> 5 \<and>
     am_sender m \<noteq> am_receiver m \<and>
     \<not> (am_reply_to m \<noteq> None \<and> am_inbox m \<noteq> None) \<and>
     \<not> (am_inbox m \<noteq> None \<and> am_causation_id m = None) \<and>
     (case am_expires_at m of None \<Rightarrow> True | Some t \<Rightarrow> am_created_at m < t)"

section \<open>Hashes and construction\<close>

definition sha_of :: "(string \<Rightarrow> string) \<Rightarrow> (rat \<Rightarrow> string) \<Rightarrow> json \<Rightarrow> string" where
  "sha_of sha fr v = sha (canonical_json fr v)"

definition opt_json :: "string option \<Rightarrow> json" where
  "opt_json x = (case x of None \<Rightarrow> JNull | Some s \<Rightarrow> JStr s)"

text \<open>The object whose hash is the idempotency key; \<open>build\<close> and \<open>validate\<close> hash the same one.\<close>

definition idempotency_object ::
  "string \<Rightarrow> string \<Rightarrow> agent_endpoint \<Rightarrow> agent_endpoint \<Rightarrow> message_type \<Rightarrow> string \<Rightarrow> string \<Rightarrow> string
     \<Rightarrow> string option \<Rightarrow> string option \<Rightarrow> string option \<Rightarrow> json" where
  "idempotency_object version task_id sender receiver mtype artifact_type content_hash
       correlation causation reply_to inbox =
     JObj [(''protocol_version'', JStr version), (''task_id'', JStr task_id),
           (''sender'', JStr (endpoint_value sender)), (''receiver'', JStr (endpoint_value receiver)),
           (''message_type'', JStr (message_type_value mtype)), (''artifact_type'', JStr artifact_type),
           (''content_hash'', JStr content_hash), (''correlation_id'', JStr correlation),
           (''causation_id'', opt_json causation), (''reply_to'', opt_json reply_to),
           (''inbox'', opt_json inbox)]"

definition message_idempotency :: "agent_message \<Rightarrow> json" where
  "message_idempotency m =
     idempotency_object (am_protocol_version m) (am_task_id m) (am_sender m) (am_receiver m)
       (am_type m) (am_artifact_type m) (am_content_hash m) (am_correlation_id m)
       (am_causation_id m) (am_reply_to m) (am_inbox m)"

text \<open>\<open>fresh_message\<close>, \<open>fresh_correlation\<close> and \<open>now\<close> are the identifiers and the time read.\<close>

definition build_message ::
  "(string \<Rightarrow> string) \<Rightarrow> (rat \<Rightarrow> string) \<Rightarrow> string \<Rightarrow> string \<Rightarrow> instant
   \<Rightarrow> string \<Rightarrow> agent_endpoint \<Rightarrow> agent_endpoint \<Rightarrow> message_type \<Rightarrow> string \<Rightarrow> (string \<times> json) list
   \<Rightarrow> string option \<Rightarrow> string option \<Rightarrow> string option \<Rightarrow> string option \<Rightarrow> int
   \<Rightarrow> protocol_error + agent_message" where
  "build_message sha fr fresh_message fresh_correlation now task_id sender receiver mtype
       artifact_type content correlation_id causation_id reply_to inbox attempt =
     (let serialized = canonical_json fr (JObj content)
      in if max_agent_message_bytes < length serialized then Inl Message_too_large
         else
           let content_hash = sha serialized;
               correlation = (case correlation_id of Some c \<Rightarrow> c | None \<Rightarrow> fresh_correlation);
               key = sha_of sha fr (idempotency_object ''1.0'' task_id sender receiver mtype
                       artifact_type content_hash correlation causation_id reply_to inbox);
               m = \<lparr>am_protocol_version = ''1.0'', am_message_id = fresh_message,
                    am_task_id = task_id, am_sender = sender, am_receiver = receiver,
                    am_type = mtype, am_artifact_type = artifact_type, am_content = content,
                    am_content_hash = content_hash, am_idempotency_key = key,
                    am_correlation_id = correlation, am_causation_id = causation_id,
                    am_reply_to = reply_to, am_inbox = inbox, am_attempt = attempt,
                    am_created_at = now, am_expires_at = None\<rparr>
           in if envelope_ok m then Inr m else Inl Invalid_envelope)"

section \<open>Validation\<close>

definition authorized :: "agent_message \<Rightarrow> bool" where
  "authorized m \<longleftrightarrow>
     list_ex (\<lambda>r. ar_sender r = am_sender m \<and> ar_receiver r = am_receiver m
       \<and> ar_type r = am_type m \<and> am_artifact_type m \<in> set (ar_artifacts r)) agent_routes"

definition metadata_keys :: "string list" where
  "metadata_keys = [''shared_state_ref'', ''state_revision'', ''state_hash'']"

definition non_negative_int :: "json \<Rightarrow> bool" where
  "non_negative_int v = (case py_int v of Inr i \<Rightarrow> 0 \<le> i | Inl _ \<Rightarrow> False)"

text \<open>\<open>str(...)\<close> of a list, an object, a boolean, a float or null is not 64 hexadecimal digits.\<close>

fun state_hash_ok :: "json \<Rightarrow> bool" where
  "state_hash_ok (JStr s) = hex64 s"
| "state_hash_ok (JInt i) = hex64 (show_int i)"
| "state_hash_ok _ = False"

definition has_exactly :: "(string \<times> json) list \<Rightarrow> string list \<Rightarrow> bool" where
  "has_exactly p keys \<longleftrightarrow> set (dkeys p) = set keys"

fun is_object :: "json \<Rightarrow> bool" where
  "is_object (JObj _) = True"
| "is_object _ = False"

text \<open>What a \<open>for\<close> loop iterates over: \<open>None\<close> when the value is not iterable.\<close>

fun iter_items :: "json \<Rightarrow> json list option" where
  "iter_items (JArr xs) = Some xs"
| "iter_items (JObj kvs) = Some (map (\<lambda>(k, v). JStr k) kvs)"
| "iter_items (JStr s) = Some (map (\<lambda>c. JStr [c]) s)"
| "iter_items _ = None"

definition iter_all :: "(json \<Rightarrow> bool) \<Rightarrow> json \<Rightarrow> bool" where
  "iter_all f v = (case iter_items v of None \<Rightarrow> False | Some xs \<Rightarrow> list_all f xs)"

text \<open>Whether \<open>float(v)\<close> succeeds with a value that is not negative.\<close>

definition float_mantissa :: "string \<Rightarrow> string \<times> string \<times> string option" where
  "float_mantissa s =
     (let m = takeWhile (\<lambda>c. c \<noteq> CHR ''e'' \<and> c \<noteq> CHR ''E'') s;
          rest = dropWhile (\<lambda>c. c \<noteq> CHR ''e'' \<and> c \<noteq> CHR ''E'') s;
          (whole, dot, frac) = str_partition (CHR ''.'') m
      in (whole, frac, if rest = [] then None else Some (drop 1 rest)))"

definition digits_or_empty :: "string \<Rightarrow> bool" where
  "digits_or_empty s \<longleftrightarrow> s = [] \<or> int_body False 0 s \<noteq> None"

definition unsigned_text :: "string \<Rightarrow> bool \<times> string" where
  "unsigned_text t =
     (case t of
        c # cs \<Rightarrow> if c = CHR ''-'' then (True, cs) else if c = CHR ''+'' then (False, cs) else (False, t)
      | [] \<Rightarrow> (False, []))"

definition float_text_non_negative :: "string \<Rightarrow> bool" where
  "float_text_non_negative s =
     (let (neg, body) = unsigned_text (str_strip s);
          (whole, frac, exponent) = float_mantissa body;
          word = str_lower body
      in if word = ''nan'' then True
         else if word = ''inf'' \<or> word = ''infinity'' then \<not> neg
         else digits_or_empty whole \<and> digits_or_empty frac \<and> (whole \<noteq> [] \<or> frac \<noteq> [])
              \<and> (case exponent of None \<Rightarrow> True
                 | Some e \<Rightarrow> int_body False 0 (snd (unsigned_text e)) \<noteq> None)
              \<and> (\<not> neg \<or> list_all (\<lambda>c. c = CHR ''0'' \<or> c = CHR ''_'') (whole @ frac)))"

fun non_negative_float :: "json \<Rightarrow> bool" where
  "non_negative_float (JInt i) = (0 \<le> i)"
| "non_negative_float (JFloat q) = (0 \<le> q)"
| "non_negative_float (JBool b) = True"
| "non_negative_float (JStr s) = float_text_non_negative s"
| "non_negative_float _ = False"

definition execution_payload_ok ::
  "(string \<Rightarrow> json \<Rightarrow> bool) \<Rightarrow> (string \<times> json) list \<Rightarrow> string \<Rightarrow> string \<Rightarrow> bool" where
  "execution_payload_ok schema_ok p expected_agent expected_artifact_type \<longleftrightarrow>
     schema_ok ''ArtifactEnvelope'' (obj_get p ''artifact'') \<and>
     (case obj_get p ''artifact'' of
        JObj a \<Rightarrow> obj_get a ''producer_agent'' = JStr expected_agent
                  \<and> obj_get a ''artifact_type'' = JStr expected_artifact_type
      | _ \<Rightarrow> False) \<and>
     obj_get p ''tool_audit_complete'' = JBool True \<and>
     iter_all (schema_ok ''AgentToolCallAudit'')
       (case dget p ''tool_calls'' of None \<Rightarrow> JArr [] | Some v \<Rightarrow> v) \<and>
     (case obj_get p ''metrics'' of
        JObj ms \<Rightarrow>
          has_exactly ms [''latency_ms'', ''input_tokens'', ''output_tokens'', ''estimated_cost_usd'',
            ''fallback_used'', ''reason''] \<and>
          non_negative_int (obj_get ms ''latency_ms'') \<and>
          non_negative_int (obj_get ms ''input_tokens'') \<and>
          non_negative_int (obj_get ms ''output_tokens'') \<and>
          non_negative_float (obj_get ms ''estimated_cost_usd'')
      | _ \<Rightarrow> False)"

definition review_verdicts :: "string list" where
  "review_verdicts = [''approved'', ''approved_with_warnings'', ''needs_clarification'',
     ''retry_with_soft_adjustments'']"

definition metadata_ok :: "string \<Rightarrow> (string \<times> json) list \<Rightarrow> bool" where
  "metadata_ok task_id content \<longleftrightarrow>
     set metadata_keys \<subseteq> set (dkeys content) \<and>
     obj_get content ''shared_state_ref'' = JStr task_id \<and>
     non_negative_int (obj_get content ''state_revision'') \<and>
     state_hash_ok (obj_get content ''state_hash'')"

text \<open>\<open>_validate_payload\<close>: false where the code raises one of the exceptions it converts.\<close>

definition state_backed_ok ::
  "(string \<Rightarrow> json \<Rightarrow> bool) \<Rightarrow> string \<Rightarrow> (string \<times> json) list \<Rightarrow> bool option" where
  "state_backed_ok schema_ok artifact_type p =
     (if artifact_type = ''intent_artifact'' then
        Some (has_exactly p [''artifact_hash'', ''question_count'']
              \<and> non_negative_int (obj_get p ''question_count''))
      else if artifact_type = ''search_artifact'' then
        Some (has_exactly p [''artifact_hash'', ''summary''] \<and> is_object (obj_get p ''summary''))
      else if artifact_type = ''safety_report'' then
        Some (has_exactly p [''artifact_hash'', ''search_artifact_hash'', ''summary'']
              \<and> is_object (obj_get p ''summary''))
      else if artifact_type = ''plan_candidate'' then
        Some (has_exactly p [''workflow_state'', ''status'', ''algorithm'', ''candidate_count'',
              ''stop_count'', ''conflict_count'', ''warning_count'', ''tool_error_codes'', ''plan_hash''])
      else if artifact_type = ''review_report'' then
        Some (has_exactly p [''verdict'', ''confidence'', ''finding_count'']
              \<and> obj_get p ''verdict'' \<in> JStr ` set review_verdicts)
      else if artifact_type = ''retry_directive'' then
        Some (has_exactly p [''soft_adjustments'']
              \<and> schema_ok ''CriticSoftAdjustments'' (obj_get p ''soft_adjustments''))
      else None)"

definition full_payload_ok ::
  "(string \<Rightarrow> json \<Rightarrow> bool) \<Rightarrow> string \<Rightarrow> (string \<times> json) list \<Rightarrow> bool" where
  "full_payload_ok schema_ok artifact_type p =
     (if artifact_type = ''planning_request'' then schema_ok ''AIPlanRequest'' (JObj p)
      else if artifact_type = ''intent_artifact'' then schema_ok ''PlanningIntent'' (obj_get p ''intent'')
      else if artifact_type = ''search_artifact'' then
        iter_all (iter_all (schema_ok ''PoiCandidate''))
          (case dget p ''candidates'' of None \<Rightarrow> JArr [] | Some v \<Rightarrow> v)
      else if artifact_type = ''plan_candidate'' then schema_ok ''AIPlanResult'' (JObj p)
      else if artifact_type = ''planner_context'' then schema_ok ''PlanningContext'' (obj_get p ''context'')
      else if artifact_type = ''planner_execution'' then
        schema_ok ''AIPlanResult'' (obj_get p ''output'')
        \<and> execution_payload_ok schema_ok p ''planner'' ''plan_candidate''
      else if artifact_type = ''review_report'' then schema_ok ''ReviewReport'' (JObj p)
      else if artifact_type = ''critic_context'' then schema_ok ''CriticContext'' (obj_get p ''context'')
      else if artifact_type = ''critic_execution'' then
        schema_ok ''ReviewReport'' (obj_get p ''output'')
        \<and> execution_payload_ok schema_ok p ''critic'' ''review_report''
      else if artifact_type = ''retry_directive'' then
        has_exactly p [''intent'', ''soft_adjustments'']
        \<and> schema_ok ''PlanningIntent'' (obj_get p ''intent'')
        \<and> schema_ok ''CriticSoftAdjustments'' (obj_get p ''soft_adjustments'')
      else if artifact_type = ''trip_event_artifact'' then schema_ok ''TripEventArtifact'' (JObj p)
      else if artifact_type = ''replan_directive'' then
        schema_ok ''ReplanDirective'' (case dget p ''directive'' of None \<Rightarrow> JObj p | Some v \<Rightarrow> v)
      else if artifact_type = ''plan_patch_candidate'' then schema_ok ''PlanPatchArtifact'' (JObj p)
      else if artifact_type = ''dynamic_patch_review'' then schema_ok ''DynamicPatchReview'' (JObj p)
      else if artifact_type = ''plan_patch_proposal'' then schema_ok ''PlanPatchArtifact'' (JObj p)
      else True)"

definition payload_ok :: "(string \<Rightarrow> json \<Rightarrow> bool) \<Rightarrow> agent_message \<Rightarrow> bool" where
  "payload_ok schema_ok m =
     (let content = am_content m;
          has_metadata = list_ex (\<lambda>k. k \<in> set (dkeys content)) metadata_keys;
          p = filter (\<lambda>kv. fst kv \<notin> set metadata_keys) content
      in (has_metadata \<longrightarrow> metadata_ok (am_task_id m) content)
         \<and> (case (if has_metadata then state_backed_ok schema_ok (am_artifact_type m) p else None) of
              Some b \<Rightarrow> b
            | None \<Rightarrow> full_payload_ok schema_ok (am_artifact_type m) p))"

definition validate_message ::
  "(string \<Rightarrow> string) \<Rightarrow> (rat \<Rightarrow> string) \<Rightarrow> (string \<Rightarrow> json \<Rightarrow> bool) \<Rightarrow> instant \<Rightarrow> agent_message
     \<Rightarrow> protocol_error + unit" where
  "validate_message sha fr schema_ok now m =
     (if \<not> authorized m then Inl Forbidden_route
      else if \<not> payload_ok schema_ok m then Inl Invalid_payload
      else
        let serialized = canonical_json fr (JObj (am_content m))
        in if max_agent_message_bytes < length serialized then Inl Message_too_large
           else if sha serialized \<noteq> am_content_hash m then Inl Hash_mismatch
           else if sha_of sha fr (message_idempotency m) \<noteq> am_idempotency_key m then Inl Key_mismatch
           else case am_expires_at m of
               Some t \<Rightarrow> if t \<le> now then Inl Message_expired else Inr ()
             | None \<Rightarrow> Inr ())"

section \<open>Local delivery and audit\<close>

datatype delivery_status = Delivered | Duplicate

type_synonym router_state = "(string, agent_message) dict"

definition deliver ::
  "(string \<Rightarrow> string) \<Rightarrow> (rat \<Rightarrow> string) \<Rightarrow> (string \<Rightarrow> json \<Rightarrow> bool) \<Rightarrow> instant \<Rightarrow> agent_message
     \<Rightarrow> router_state \<Rightarrow> (protocol_error + agent_message \<times> delivery_status) \<times> router_state" where
  "deliver sha fr schema_ok now m d =
     (case validate_message sha fr schema_ok now m of
        Inl e \<Rightarrow> (Inl e, d)
      | Inr _ \<Rightarrow>
          case dget d (am_idempotency_key m) of
            Some existing \<Rightarrow> (Inr (existing, Duplicate), d)
          | None \<Rightarrow> (Inr (m, Delivered), dset (am_idempotency_key m) m d))"

text \<open>The \<open>content_summary\<close> of the audit record; its other fields are copied from the message.\<close>

definition audit_summary :: "(rat \<Rightarrow> string) \<Rightarrow> (string \<times> json) list \<Rightarrow> json" where
  "audit_summary fr content =
     (let minimized = minimize (JObj content);
          serialized = canonical_json fr minimized
      in if max_agent_audit_bytes < length serialized
         then JObj [(''redacted'', JStr ''oversized_agent_message''),
                    (''original_byte_size'', JInt (int (length serialized))),
                    (''top_level_keys'', JArr (map JStr (sort (dkeys content))))]
         else minimized)"

end
