(* ===== verification/Protocol_Properties.thy ===== *)
theory Protocol_Properties
  imports Protocol
begin

text \<open>
  Round trip of construction and validation, what an accepted message binds, which routes exist,
  idempotent local delivery, and the safety of audit records.
\<close>

section \<open>JSON strings are uniquely decodable\<close>

definition hex_val :: "char \<Rightarrow> nat" where
  "hex_val c = (let n = of_char c :: nat in if n < 58 then n - 48 else n - 87)"

text \<open>Reads one character off the text of an escaped string.\<close>

definition unescape_one :: "string \<Rightarrow> (char \<times> string) option" where
  "unescape_one s =
     (case s of
        [] \<Rightarrow> None
      | c # cs \<Rightarrow>
          if of_char c \<noteq> (92::nat) then Some (c, cs)
          else case cs of
              [] \<Rightarrow> None
            | d # ds \<Rightarrow>
                if d = CHR ''n'' then Some (char_of (10::nat), ds)
                else if d = CHR ''r'' then Some (char_of (13::nat), ds)
                else if d = CHR ''t'' then Some (char_of (9::nat), ds)
                else if d = CHR ''b'' then Some (char_of (8::nat), ds)
                else if d = CHR ''f'' then Some (char_of (12::nat), ds)
                else if d = CHR ''u'' then
                  Some (char_of (16 * hex_val (ds ! 2) + hex_val (ds ! 3)), drop 4 ds)
                else Some (d, ds))"

lemma hex_val_char: "d < 16 \<Longrightarrow> hex_val (hex_char d) = d"
  by (simp add: hex_val_def hex_char_def)

lemma char_of_nat_eq: "of_char c = n \<Longrightarrow> char_of (n::nat) = c"
  by auto

lemma special_chars:
  "of_char CHR ''n'' = (110::nat)" "of_char CHR ''r'' = (114::nat)" "of_char CHR ''t'' = (116::nat)"
  "of_char CHR ''b'' = (98::nat)" "of_char CHR ''f'' = (102::nat)" "of_char CHR ''u'' = (117::nat)"
  by simp_all

lemma unescape_escape: "unescape_one (escape_char c @ x) = Some (c, x)"
proof -
  define n where "n = (of_char c :: nat)"
  have c: "c = char_of n" by (simp add: n_def)
  have n: "n < 256" by (simp add: n_def)
  consider "n = 34" | "n = 92" | "n = 10" | "n = 13" | "n = 9" | "n = 8" | "n = 12"
    | "n < 32" "n \<noteq> 10" "n \<noteq> 13" "n \<noteq> 9" "n \<noteq> 8" "n \<noteq> 12" | "32 \<le> n" "n \<noteq> 34" "n \<noteq> 92"
    by linarith
  then show ?thesis
  proof cases
    case 8
    then have "16 * hex_val (hex_char (n div 16)) + hex_val (hex_char (n mod 16)) = n"
      by (simp add: hex_val_char)
    with 8 show ?thesis
      by (simp add: unescape_one_def escape_char_def n_def [symmetric] c Let_def)
  next
    case 9
    then show ?thesis by (simp add: unescape_one_def escape_char_def n_def [symmetric] Let_def)
  qed (simp_all add: unescape_one_def escape_char_def n_def [symmetric] Let_def c special_chars
      of_char_eq_iff [symmetric, where ?'a = nat])
qed

lemma escape_not_quote: "escape_char c = h # t \<Longrightarrow> h \<noteq> char_of (34::nat)"
  by (auto simp: escape_char_def Let_def split: if_splits)

lemma escape_not_Nil [simp]: "escape_char c \<noteq> []"
  by (simp add: escape_char_def Let_def)

lemma escaped_inj:
  "concat (map escape_char s) @ char_of (34::nat) # x = concat (map escape_char t) @ char_of (34::nat) # y
     \<Longrightarrow> s = t \<and> x = y"
proof (induction s arbitrary: t)
  case Nil
  then show ?case
    by (cases t) (auto, metis append_Cons escape_not_Nil escape_not_quote list.exhaust list.inject)
next
  case (Cons c s)
  show ?case
  proof (cases t)
    case Nil
    with Cons.prems show ?thesis
      by auto (metis append_Cons escape_not_Nil escape_not_quote list.exhaust list.inject)
  next
    case t: (Cons d t')
    let ?x = "concat (map escape_char s) @ char_of (34::nat) # x"
    let ?y = "concat (map escape_char t') @ char_of (34::nat) # y"
    have "unescape_one (escape_char c @ ?x) = unescape_one (escape_char d @ ?y)"
      using Cons.prems t by simp
    then have "c = d" and "?x = ?y" by (simp_all only: unescape_escape option.inject prod.inject)
    with Cons.IH t show ?thesis by blast
  qed
qed

lemma json_string_inj: "json_string s @ x = json_string t @ y \<Longrightarrow> s = t \<and> x = y"
  unfolding json_string_def using escaped_inj [of s x t y] by simp

lemma json_string_inj_iff: "json_string s @ x = json_string t @ y \<longleftrightarrow> s = t \<and> x = y"
  using json_string_inj by blast

section \<open>The idempotency key binds the envelope\<close>

fun flat :: "json \<Rightarrow> bool" where
  "flat JNull = True"
| "flat (JStr _) = True"
| "flat _ = False"

lemma quote_not_n: "char_of (34::nat) = CHR ''n'' \<longleftrightarrow> False" "CHR ''n'' = char_of (34::nat) \<longleftrightarrow> False"
  by code_simp+

lemma flat_dumps_inj:
  assumes "flat v" and "flat w" and "dumps fr i k v @ x = dumps fr i k w @ y"
  shows "v = w \<and> x = y"
  using assms
proof (cases v; cases w)
  fix a b
  assume "v = JStr a" and "w = JStr b"
  then show ?thesis using assms(3) json_string_inj [of a x b y] by simp
qed (auto simp: json_string_def quote_not_n)

lemma flat_fields_inj:
  assumes "length xs = length ys" and "map fst xs = map fst ys"
    and "list_all (\<lambda>p. flat (snd p)) xs" and "list_all (\<lambda>p. flat (snd p)) ys"
    and "dumps_fields fr i k xs @ x = dumps_fields fr i k ys @ y"
  shows "xs = ys"
  using assms
proof (induction xs ys arbitrary: x y rule: list_induct2)
  case Nil
  then show ?case by simp
next
  case (Cons p xs q ys)
  obtain kp vp where p: "p = (kp, vp)" by (cases p)
  obtain vq where q: "q = (kp, vq)" using Cons.prems(1) p by (cases q) auto
  have fl: "flat vp" "flat vq" using Cons.prems(2,3) p q by simp_all
  show ?case
  proof (cases xs)
    case Nil
    then have "ys = []" using Cons.hyps by simp
    with Nil Cons.prems(4) flat_dumps_inj [OF fl] p q show ?thesis by auto
  next
    case (Cons a xs')
    then obtain b ys' where ys: "ys = b # ys'" using Cons.hyps by (cases ys) auto
    have "dumps fr i k vp @ i @ dumps_fields fr i k xs @ x = dumps fr i k vq @ i @ dumps_fields fr i k ys @ y"
      using Cons.prems(4) p q ys \<open>xs = a # xs'\<close> by simp
    then have "vp = vq" and "dumps_fields fr i k xs @ x = dumps_fields fr i k ys @ y"
      using flat_dumps_inj [OF fl, of fr i k "i @ dumps_fields fr i k xs @ x"
          "i @ dumps_fields fr i k ys @ y"] by auto
    with Cons.IH Cons.prems(1-3) p q show ?thesis by auto
  qed
qed

lemma map_fst_sort_key: "map fst (sort_key fst xs) = sort (map fst xs)"
  by (rule properties_for_sort [symmetric]) simp_all

lemma flat_object_canonical_inj:
  assumes keys: "map fst xs = map fst ys" and d: "dict_ok xs"
    and "list_all (\<lambda>p. flat (snd p)) xs" and "list_all (\<lambda>p. flat (snd p)) ys"
    and eq: "canonical_json fr (JObj xs) = canonical_json fr (JObj ys)"
  shows "xs = ys"
proof -
  have same: "sort_keys v = v" if "flat v" for v using that by (cases v) auto
  have id: "sort_keys_fields zs = zs" if "list_all (\<lambda>p. flat (snd p)) zs" for zs
    using that by (auto simp: sort_keys_fields_map list_all_iff same intro!: map_idI)
  have sorted: "list_all (\<lambda>p. flat (snd p)) (sort_key fst zs) = list_all (\<lambda>p. flat (snd p)) zs" for zs
    by (simp add: list_all_iff)
  have "dumps_fields fr '','' '':'' (sort_key fst xs) @ ''}'' = dumps_fields fr '','' '':'' (sort_key fst ys) @ ''}''"
    using eq by (simp add: canonical_json_def id assms)
  then have "sort_key fst xs = sort_key fst ys"
    by (rule flat_fields_inj [rotated 4])
      (simp_all add: map_fst_sort_key keys sorted assms arg_cong [OF keys, of length, simplified])
  then have set: "set xs = set ys" by (metis set_sort)
  show ?thesis
  proof (rule nth_equalityI)
    show len: "length xs = length ys" using keys by (metis length_map)
    fix j
    assume j: "j < length xs"
    then have "fst (xs ! j) = fst (ys ! j)" using keys len by (metis nth_map)
    moreover have "ys ! j \<in> set xs" using j len set by simp
    ultimately show "xs ! j = ys ! j"
      using d j by (simp add: distinct_map inj_on_def)
  qed
qed

lemma endpoint_value_inj: "endpoint_value a = endpoint_value b \<Longrightarrow> a = b"
  by (cases a; cases b) simp_all

lemma message_type_value_inj: "message_type_value a = message_type_value b \<Longrightarrow> a = b"
  by (cases a; cases b) simp_all

lemma opt_json_inj: "opt_json a = opt_json b \<Longrightarrow> a = b"
  by (cases a; cases b) (simp_all add: opt_json_def)

lemma flat_opt_json [simp]: "flat (opt_json a)"
  by (cases a) (simp_all add: opt_json_def)

lemma idempotency_object_inj:
  assumes "canonical_json fr (idempotency_object v t a b m r h c ca re inb)
         = canonical_json fr (idempotency_object v' t' a' b' m' r' h' c' ca' re' inb')"
  shows "t = t' \<and> a = a' \<and> b = b' \<and> m = m' \<and> r = r' \<and> h = h' \<and> c = c' \<and> ca = ca' \<and> re = re' \<and> inb = inb'"
  using flat_object_canonical_inj [OF _ _ _ _ assms [unfolded idempotency_object_def]]
  by (auto dest: endpoint_value_inj message_type_value_inj opt_json_inj)

lemma validate_message_Inr:
  "validate_message sha fr schema_ok now m = Inr u \<longleftrightarrow>
     authorized m \<and> payload_ok schema_ok m
     \<and> length (canonical_json fr (JObj (am_content m))) \<le> max_agent_message_bytes
     \<and> am_content_hash m = sha (canonical_json fr (JObj (am_content m)))
     \<and> am_idempotency_key m = sha_of sha fr (message_idempotency m)
     \<and> (case am_expires_at m of None \<Rightarrow> True | Some t \<Rightarrow> now < t)"
  by (auto simp: validate_message_def Let_def split: if_splits option.splits)

text \<open>
  two accepted messages with the same idempotency key are the same message as far as their
  recipient is concerned: task, sender, receiver, type, artifact, correlation, causation, reply
  and inbox agree, and so do the canonical texts of their contents, unless the two hash a
  collision of SHA-256.
\<close>

theorem idempotency_key_binds:
  assumes "validate_message sha fr schema_ok now m = Inr ()"
    and "validate_message sha fr schema_ok now' m' = Inr ()"
    and "am_idempotency_key m = am_idempotency_key m'"
    and no_collision: "\<And>x y. x \<in> {canonical_json fr (message_idempotency m), canonical_json fr (JObj (am_content m))}
      \<Longrightarrow> y \<in> {canonical_json fr (message_idempotency m'), canonical_json fr (JObj (am_content m'))}
      \<Longrightarrow> sha x = sha y \<Longrightarrow> x = y"
  shows "am_task_id m = am_task_id m' \<and> am_sender m = am_sender m' \<and> am_receiver m = am_receiver m'
    \<and> am_type m = am_type m' \<and> am_artifact_type m = am_artifact_type m'
    \<and> am_correlation_id m = am_correlation_id m' \<and> am_causation_id m = am_causation_id m'
    \<and> am_reply_to m = am_reply_to m' \<and> am_inbox m = am_inbox m'
    \<and> canonical_json fr (JObj (am_content m)) = canonical_json fr (JObj (am_content m'))"
proof -
  have "sha (canonical_json fr (message_idempotency m)) = sha (canonical_json fr (message_idempotency m'))"
    using assms(1-3) unfolding validate_message_Inr sha_of_def by metis
  then have "canonical_json fr (message_idempotency m) = canonical_json fr (message_idempotency m')"
    using no_collision by blast
  note fields = idempotency_object_inj [OF this [unfolded message_idempotency_def]]
  then have "sha (canonical_json fr (JObj (am_content m))) = sha (canonical_json fr (JObj (am_content m')))"
    using assms(1,2) unfolding validate_message_Inr by metis
  then have "canonical_json fr (JObj (am_content m)) = canonical_json fr (JObj (am_content m'))"
    using no_collision by blast
  with fields show ?thesis by simp
qed

section \<open>Construction and validation\<close>

lemma build_message_Inr:
  assumes "build_message sha fr fm fc now t a b mt art content cor cau re inb n = Inr m"
  shows "am_content m = content \<and> am_sender m = a \<and> am_receiver m = b \<and> am_type m = mt
    \<and> am_artifact_type m = art \<and> am_task_id m = t \<and> am_expires_at m = None \<and> am_attempt m = n
    \<and> length (canonical_json fr (JObj content)) \<le> max_agent_message_bytes
    \<and> am_content_hash m = sha (canonical_json fr (JObj content))
    \<and> am_idempotency_key m = sha_of sha fr (message_idempotency m)
    \<and> envelope_ok m"
  using assms by (auto simp: build_message_def Let_def message_idempotency_def split: if_splits)


text \<open>A SHA-256 stand-in for evaluation: 64 hexadecimal digits.\<close>

definition example_sha :: "string \<Rightarrow> string" where
  "example_sha s = replicate 64 (if even (length s) then CHR ''a'' else CHR ''b'')"

definition example_request :: agent_message where
  "example_request =
     (case build_message example_sha (\<lambda>_. ''0.5'') ''m1'' ''c1'' 0 ''task-0001'' Ep_user Ep_supervisor
        Mt_command ''planning_request'' [(''city'', JStr ''x'')] None None None None 1 of Inr m \<Rightarrow> m)"

lemma example_request_built:
  "build_message example_sha (\<lambda>_. ''0.5'') ''m1'' ''c1'' 0 ''task-0001'' Ep_user Ep_supervisor
     Mt_command ''planning_request'' [(''city'', JStr ''x'')] None None None None 1 = Inr example_request"
proof -
  have "hex64 (example_sha x)" for x
    by (simp add: hex64_def example_sha_def list_all_iff hex_digit_def)
  moreover have "cp_length (example_sha x) = 64" for x
    by (simp add: example_sha_def cp_length_def is_cont_def)
  ultimately show ?thesis
    by (simp add: example_request_def build_message_def Let_def envelope_ok_def inbox_name_ok_def
        sha_of_def cp_length_def is_cont_def canonical_json_def json_string_def escape_char_def
        max_agent_message_bytes_def)
qed

lemma example_request_ok:
  "authorized example_request" "payload_ok (\<lambda>_ _. True) example_request"
  using build_message_Inr [OF example_request_built]
  by (simp_all add: authorized_def agent_routes_def mk_route_def payload_ok_def metadata_keys_def
      full_payload_ok_def Let_def)


lemma example_request_valid:
  "validate_message example_sha (\<lambda>_. ''0.5'') (\<lambda>_ _. True) later example_request = Inr ()"
  using build_message_Inr [OF example_request_built] example_request_ok
  by (simp add: validate_message_Inr)

lemma authorized_cong:
  "am_sender m = am_sender m' \<Longrightarrow> am_receiver m = am_receiver m' \<Longrightarrow> am_type m = am_type m'
     \<Longrightarrow> am_artifact_type m = am_artifact_type m' \<Longrightarrow> authorized m = authorized m'"
  by (simp add: authorized_def)

lemma payload_ok_cong:
  "am_content m = am_content m' \<Longrightarrow> am_task_id m = am_task_id m'
     \<Longrightarrow> am_artifact_type m = am_artifact_type m' \<Longrightarrow> payload_ok f m = payload_ok f m'"
  unfolding payload_ok_def by (simp only:)

theorem idempotency_key_binds_witness:
  "\<exists>m m'. m \<noteq> m' \<and> validate_message (\<lambda>x. x) (\<lambda>_. ''0.5'') (\<lambda>_ _. True) 0 m = Inr ()
     \<and> validate_message (\<lambda>x. x) (\<lambda>_. ''0.5'') (\<lambda>_ _. True) 0 m' = Inr ()
     \<and> am_task_id m = am_task_id m'"
proof -
  define h where "h = canonical_json (\<lambda>_. ''0.5'') (JObj (am_content example_request))"
  define m where "m = example_request\<lparr>am_content_hash := h, am_idempotency_key :=
    canonical_json (\<lambda>_. ''0.5'') (message_idempotency (example_request\<lparr>am_content_hash := h\<rparr>))\<rparr>"
  define m' where "m' = m\<lparr>am_attempt := 2\<rparr>"
  have "am_attempt example_request = 1"
    using build_message_Inr [OF example_request_built] by blast
  then have "am_attempt m = 1" and "am_attempt m' = 2" by (simp_all add: m_def m'_def)
  then have ne: "m \<noteq> m'" by auto
  have ok: "authorized m" "authorized m'" "payload_ok (\<lambda>_ _. True) m" "payload_ok (\<lambda>_ _. True) m'"
    using example_request_ok
      authorized_cong [of m example_request] authorized_cong [of m' example_request]
      payload_ok_cong [of m example_request] payload_ok_cong [of m' example_request]
    by (simp_all add: m_def m'_def)
  have v: "validate_message (\<lambda>x. x) (\<lambda>_. ''0.5'') (\<lambda>_ _. True) 0 m = Inr ()"
    "validate_message (\<lambda>x. x) (\<lambda>_. ''0.5'') (\<lambda>_ _. True) 0 m' = Inr ()"
    using build_message_Inr [OF example_request_built] ok
    by (simp_all add: validate_message_Inr m_def m'_def h_def sha_of_def message_idempotency_def)
  have "am_idempotency_key m = am_idempotency_key m'" by (simp add: m'_def)
  with idempotency_key_binds [OF v] ne v show ?thesis by blast
qed

section \<open>Routes\<close>

definition route_confined :: "agent_route \<Rightarrow> bool" where
  "route_confined r \<longleftrightarrow>
     (ar_receiver r = Ep_final_answer \<longrightarrow> ar_sender r \<in> {Ep_supervisor, Ep_companion})
   \<and> (ar_receiver r = Ep_tool_runtime \<longrightarrow> ar_sender r = Ep_companion \<and> ar_type r = Mt_tool_request)
   \<and> (ar_sender r = Ep_user \<longrightarrow> ar_receiver r = Ep_supervisor \<and> ar_artifacts r = [''planning_request''])
   \<and> ar_receiver r \<notin> {Ep_user, Ep_system}
   \<and> (ar_type r = Mt_command \<longrightarrow> ar_sender r \<in> {Ep_user, Ep_supervisor})
   \<and> ar_sender r \<noteq> ar_receiver r"

lemma agent_routes_confined: "list_all route_confined agent_routes"
  by (simp add: agent_routes_def mk_route_def route_confined_def)

text \<open>
  the answer endpoint hears only the supervisor and the companion, tools run only on the
  companion's request, users reach only the supervisor, and no message is addressed to the user
  or to the system.
\<close>

theorem routes_confine_agents:
  assumes "validate_message sha fr schema_ok now m = Inr ()"
  shows "(am_receiver m = Ep_final_answer \<longrightarrow> am_sender m \<in> {Ep_supervisor, Ep_companion})
       \<and> (am_receiver m = Ep_tool_runtime \<longrightarrow> am_sender m = Ep_companion \<and> am_type m = Mt_tool_request)
       \<and> (am_sender m = Ep_user \<longrightarrow> am_receiver m = Ep_supervisor \<and> am_artifact_type m = ''planning_request'')
       \<and> am_receiver m \<notin> {Ep_user, Ep_system}
       \<and> (am_type m = Mt_command \<longrightarrow> am_sender m \<in> {Ep_user, Ep_supervisor})
       \<and> am_sender m \<noteq> am_receiver m"
proof -
  have "authorized m" using assms by (simp add: validate_message_Inr)
  then obtain r where r: "r \<in> set agent_routes" "ar_sender r = am_sender m" "ar_receiver r = am_receiver m"
      "ar_type r = am_type m" "am_artifact_type m \<in> set (ar_artifacts r)"
    by (auto simp: authorized_def list_ex_iff)
  have "route_confined r" using agent_routes_confined r(1) by (simp add: list_all_iff)
  with r(2-5) show ?thesis by (auto simp: route_confined_def)
qed

theorem routes_confine_agents_witness:
  "am_receiver example_request \<notin> {Ep_user, Ep_system}"
  using routes_confine_agents [OF example_request_valid] by blast

section \<open>Delivery\<close>

fun deliver_all ::
  "(string \<Rightarrow> string) \<Rightarrow> (rat \<Rightarrow> string) \<Rightarrow> (string \<Rightarrow> json \<Rightarrow> bool) \<Rightarrow> (instant \<times> agent_message) list
     \<Rightarrow> router_state \<Rightarrow> agent_message list \<times> router_state" where
  "deliver_all sha fr schema_ok [] d = ([], d)"
| "deliver_all sha fr schema_ok ((now, m) # ms) d =
     (case deliver sha fr schema_ok now m d of
        (Inr (m', Delivered), d') \<Rightarrow>
          (let (out, d2) = deliver_all sha fr schema_ok ms d' in (m' # out, d2))
      | (_, d') \<Rightarrow> deliver_all sha fr schema_ok ms d')"

lemma deliver_all_keys:
  "deliver_all sha fr schema_ok ms d = (out, d') \<Longrightarrow>
     distinct (map am_idempotency_key out)
     \<and> set (map am_idempotency_key out) \<inter> set (dkeys d) = {}
     \<and> set (dkeys d') = set (dkeys d) \<union> set (map am_idempotency_key out)"
proof (induction ms arbitrary: d out)
  case (Cons p ms)
  obtain now m where p: "p = (now, m)" by (cases p)
  show ?case
  proof (cases "validate_message sha fr schema_ok now m")
    case (Inl e)
    then have "deliver sha fr schema_ok now m d = (Inl e, d)" by (simp add: deliver_def)
    with Cons p show ?thesis by simp
  next
    case (Inr u)
    show ?thesis
    proof (cases "dget d (am_idempotency_key m)")
      case (Some x)
      with Inr have "deliver sha fr schema_ok now m d = (Inr (x, Duplicate), d)"
        by (simp add: deliver_def)
      with Cons p show ?thesis by simp
    next
      case None
      with Inr have del: "deliver sha fr schema_ok now m d
          = (Inr (m, Delivered), dset (am_idempotency_key m) m d)"
        by (simp add: deliver_def)
      obtain out2 where rest: "deliver_all sha fr schema_ok ms (dset (am_idempotency_key m) m d) = (out2, d')"
        and out: "out = m # out2"
        using Cons.prems p del by (auto split: prod.splits)
      have "am_idempotency_key m \<notin> set (dkeys d)" using None by (simp add: dget_None_iff)
      with Cons.IH [OF rest] out show ?thesis unfolding dkeys_dset by auto
    qed
  qed
qed simp

text \<open>
  local delivery is idempotent: in any sequence of deliveries, retries and duplicates
  included, no two messages are delivered under one idempotency key.
\<close>

theorem delivered_at_most_once:
  "distinct (map am_idempotency_key (fst (deliver_all sha fr schema_ok ms [])))"
  using deliver_all_keys [of sha fr schema_ok ms "[]"]
  by (cases "deliver_all sha fr schema_ok ms []") simp

section \<open>Audit\<close>

text \<open>
  the content kept for audit is either minimised, with no coordinate, no secret and no raw
  text in it, and at most 8 KiB long, or only the size and the top-level key names of a message
  whose minimised content is longer.
\<close>

theorem audit_summary_minimised:
  "audit_safe (audit_summary fr content)
     \<and> length (canonical_json fr (audit_summary fr content)) \<le> max_agent_audit_bytes
   \<or> audit_summary fr content
     = JObj [(''redacted'', JStr ''oversized_agent_message''),
             (''original_byte_size'', JInt (int (length (canonical_json fr (minimize (JObj content)))))),
             (''top_level_keys'', JArr (map JStr (sort (dkeys content))))]"
  using minimize_audit_safe(1) [of "JObj content"]
  by (auto simp: audit_summary_def Let_def)

end
