(* ===== verification/Tools.thy ===== *)
theory Tools
  imports Trip
begin

text \<open>
  The capability registry every agent call goes through (\<open>services/agent_tool_registry.py\<close>), the
  responsibility contracts of the roles built from it (\<open>services/agent_role_contracts.py\<close>), and
  the stable error codes and result envelopes of tools (\<open>services/agent_tool_contracts.py\<close>).
  Metrics and log lines of a denial are not modelled; the argument schema of a grant, a
  rendering of a pydantic model, is a parameter.
\<close>

datatype agent_type =
    Ag_supervisor | Ag_intent | Ag_search | Ag_safety | Ag_planner | Ag_critic | Ag_companion
  | Ag_replanner

datatype invocation_mode = Agent_callable | Internal_stage | Workflow_only

datatype data_scope =
    Sc_planning_request | Sc_map_search | Sc_safety_review | Sc_route_matrix
  | Sc_route_optimization | Sc_transit_routes | Sc_trip_state | Sc_precise_location | Sc_weather
  | Sc_replan_proposal | Sc_external_share | Sc_user_preferences

record agent_capability =
  cap_name :: string
  cap_agents :: "agent_type set"
  cap_mode :: invocation_mode
  cap_scopes :: "data_scope set"
  cap_side_effect :: string
  cap_schema_ref :: "string option"

record 'a capability_grant =
  gr_capability :: agent_capability
  gr_agent :: agent_type
  gr_mode :: invocation_mode
  gr_scopes :: "data_scope set"
  gr_schema :: 'a

definition read_only :: "string \<Rightarrow> agent_type set \<Rightarrow> invocation_mode \<Rightarrow> data_scope set \<Rightarrow> string option \<Rightarrow> agent_capability" where
  "read_only name agents mode scopes ref =
     \<lparr>cap_name = name, cap_agents = agents, cap_mode = mode, cap_scopes = scopes,
      cap_side_effect = ''read_only'', cap_schema_ref = ref\<rparr>"

definition capabilities :: "agent_capability list" where
  "capabilities =
    [read_only ''parse_requirement'' {Ag_intent} Internal_stage {Sc_planning_request} (Some ''ParseRequirementArgs''),
     read_only ''search_poi'' {Ag_search} Internal_stage {Sc_map_search} (Some ''SearchPoiArgs''),
     read_only ''check_travel_safety'' {Ag_safety} Internal_stage {Sc_safety_review} (Some ''SafetyCheckArgs''),
     read_only ''get_route_matrix'' {Ag_planner} Internal_stage {Sc_route_matrix} (Some ''RouteMatrixArgs''),
     read_only ''optimize_route'' {Ag_planner} Internal_stage {Sc_route_optimization} (Some ''OptimizeRouteArgs''),
     read_only ''verify_transit_edges'' {Ag_planner} Internal_stage {Sc_transit_routes} (Some ''RouteMatrixArgs''),
     read_only ''get_trip_state'' {Ag_companion} Agent_callable {Sc_trip_state} (Some ''TripStateQueryArgs''),
     read_only ''get_current_location'' {Ag_companion} Agent_callable {Sc_precise_location}
       (Some ''CurrentLocationQueryArgs''),
     read_only ''get_weather'' {Ag_companion} Agent_callable {Sc_weather} (Some ''WeatherQueryArgs''),
     (read_only ''propose_replan'' {Ag_companion} Agent_callable {Sc_trip_state, Sc_replan_proposal}
       (Some ''ReplanProposalArgs''))\<lparr>cap_side_effect := ''proposal_only''\<rparr>,
     read_only ''generate_attraction_brief'' {} Workflow_only {Sc_trip_state} None,
     (read_only ''create_plan_patch'' {} Workflow_only {Sc_trip_state, Sc_replan_proposal} None)
       \<lparr>cap_side_effect := ''proposal_persist''\<rparr>,
     (read_only ''share_trip_status'' {} Workflow_only {Sc_trip_state, Sc_external_share} None)
       \<lparr>cap_side_effect := ''external_write''\<rparr>,
     read_only ''load_confirmed_preferences'' {} Workflow_only {Sc_user_preferences} None,
     (read_only ''save_explicit_preference'' {} Workflow_only {Sc_user_preferences} None)
       \<lparr>cap_side_effect := ''persistent_write''\<rparr>,
     (read_only ''delete_explicit_preference'' {} Workflow_only {Sc_user_preferences} None)
       \<lparr>cap_side_effect := ''persistent_delete''\<rparr>]"

section \<open>The registry\<close>

type_synonym registry = "(string, agent_capability) dict"

definition new_registry :: "agent_capability list \<Rightarrow> registry res" where
  "new_registry caps =
     (let by_name = foldl (\<lambda>d c. dset (cap_name c) c d) [] caps
      in if length by_name \<noteq> length caps
         then Inl (ValueError ''duplicate Agent capability name'') else Inr by_name)"

definition names_for :: "registry \<Rightarrow> agent_type \<Rightarrow> invocation_mode \<Rightarrow> string list" where
  "names_for reg agent mode =
     map cap_name (filter (\<lambda>c. agent \<in> cap_agents c \<and> cap_mode c = mode) (map snd reg))"

datatype denial = Tool_not_registered | Tool_not_allowed_for_agent | Mode_not_allowed | Scope_not_allowed

definition authorize ::
  "(string \<Rightarrow> 'a) \<Rightarrow> registry \<Rightarrow> agent_type \<Rightarrow> string \<Rightarrow> invocation_mode \<Rightarrow> data_scope set
     \<Rightarrow> denial + 'a capability_grant" where
  "authorize schema reg agent name mode scopes =
     (case dget reg name of
        None \<Rightarrow> Inl Tool_not_registered
      | Some c \<Rightarrow>
          if agent \<notin> cap_agents c then Inl Tool_not_allowed_for_agent
          else if cap_mode c \<noteq> mode then Inl Mode_not_allowed
          else if scopes \<noteq> cap_scopes c then Inl Scope_not_allowed
          else Inr \<lparr>gr_capability = c, gr_agent = agent, gr_mode = mode, gr_scopes = scopes,
                    gr_schema = schema name\<rparr>)"

definition tool_registry :: registry where
  "tool_registry = map (\<lambda>c. (cap_name c, c)) capabilities"

section \<open>Role contracts\<close>

datatype role =
    Requirement_clarification | Place_research | Itinerary_coordination | Plan_review
  | Runtime_companion

record role_contract =
  rc_agents :: "agent_type list"
  rc_allowed_tools :: "string list"
  rc_internal :: "string list"
  rc_forbidden :: "string list"
  rc_outputs :: "string list"

fun role_contracts :: "role \<Rightarrow> role_contract" where
  "role_contracts Requirement_clarification =
     \<lparr>rc_agents = [Ag_intent], rc_allowed_tools = [],
      rc_internal = names_for tool_registry Ag_intent Internal_stage,
      rc_forbidden = [''generate_poi'', ''call_map_provider'', ''modify_formal_plan'', ''create_plan_patch''],
      rc_outputs = [''intent_artifact'', ''clarification_questions'']\<rparr>"
| "role_contracts Place_research =
     \<lparr>rc_agents = [Ag_search], rc_allowed_tools = [],
      rc_internal = names_for tool_registry Ag_search Internal_stage,
      rc_forbidden = [''generate_fake_poi'', ''modify_formal_plan'', ''optimize_route'', ''create_plan_patch''],
      rc_outputs = [''candidate_set'', ''search_artifact'']\<rparr>"
| "role_contracts Itinerary_coordination =
     \<lparr>rc_agents = [Ag_supervisor, Ag_replanner, Ag_planner], rc_allowed_tools = [],
      rc_internal = names_for tool_registry Ag_planner Internal_stage
                  @ names_for tool_registry Ag_supervisor Internal_stage,
      rc_forbidden = [''fabricate_poi'', ''ignore_hard_constraints'', ''direct_user_data_export''],
      rc_outputs = [''agent_execution_plan'', ''route_solution'', ''plan_candidate'']\<rparr>"
| "role_contracts Plan_review =
     \<lparr>rc_agents = [Ag_critic, Ag_safety], rc_allowed_tools = [],
      rc_internal = names_for tool_registry Ag_safety Internal_stage,
      rc_forbidden = [''modify_hard_constraints'', ''generate_poi'', ''call_route_solver'', ''write_formal_plan''],
      rc_outputs = [''safety_report'', ''review_report'']\<rparr>"
| "role_contracts Runtime_companion =
     \<lparr>rc_agents = [Ag_companion],
      rc_allowed_tools = names_for tool_registry Ag_companion Agent_callable,
      rc_internal = [],
      rc_forbidden = [''overwrite_formal_plan'', ''call_planning_period_search'',
        ''call_route_optimizer_directly'', ''bypass_user_confirmation''],
      rc_outputs = [''companion_action_report'', ''pending_plan_patch'']\<rparr>"

section \<open>Tool results\<close>

definition tool_argument_models :: "(string, string) dict" where
  "tool_argument_models =
    [(''parse_requirement'', ''ParseRequirementArgs''), (''check_travel_safety'', ''SafetyCheckArgs''),
     (''get_trip_state'', ''TripStateQueryArgs''), (''get_current_location'', ''CurrentLocationQueryArgs''),
     (''get_weather'', ''WeatherQueryArgs''), (''propose_replan'', ''ReplanProposalArgs''),
     (''search_poi'', ''SearchPoiArgs''), (''get_route_matrix'', ''RouteMatrixArgs''),
     (''verify_transit_edges'', ''RouteMatrixArgs''), (''optimize_route'', ''OptimizeRouteArgs'')]"

record tool_envelope =
  te_success :: bool
  te_error_code :: "string option"
  te_retryable :: bool
  te_source :: string
  te_expires_at :: "instant option"
  te_confidence :: rat
  te_artifact_ref :: "string option"
  te_data :: payload

definition tool_result_success ::
  "payload \<Rightarrow> string \<Rightarrow> instant option \<Rightarrow> rat \<Rightarrow> string option \<Rightarrow> tool_envelope" where
  "tool_result_success p source expires confidence ref =
     \<lparr>te_success = True, te_error_code = None, te_retryable = False, te_source = source,
      te_expires_at = expires, te_confidence = confidence, te_artifact_ref = ref, te_data = p\<rparr>"

definition tool_result_error ::
  "string \<Rightarrow> bool \<Rightarrow> string \<Rightarrow> rat \<Rightarrow> payload option \<Rightarrow> tool_envelope" where
  "tool_result_error code retryable source confidence p =
     \<lparr>te_success = False, te_error_code = Some code, te_retryable = retryable, te_source = source,
      te_expires_at = None, te_confidence = confidence, te_artifact_ref = None,
      te_data = (case p of None \<Rightarrow> [] | Some d \<Rightarrow> d)\<rparr>"

definition upper_char :: "char \<Rightarrow> char" where
  "upper_char c = (let n = of_char c :: nat in if 97 \<le> n \<and> n \<le> 122 then char_of (n - 32) else c)"

definition contains :: "string \<Rightarrow> string \<Rightarrow> bool" where
  "contains sub s = list_ex (\<lambda>i. take (length sub) (drop i s) = sub) [0..<Suc (length s)]"

text \<open>An exception as this function sees it: its text, its class and the classes it descends from.\<close>

record seen_exception =
  se_text :: string
  se_class :: string
  se_is_timeout :: bool
  se_is_validation :: bool

definition stable_tool_error :: "seen_exception \<Rightarrow> string" where
  "stable_tool_error e =
     (let explicit = map upper_char (str_strip (se_text e));
          name = str_lower (se_class e)
      in if explicit \<in> {''UPSTREAM_TIMEOUT'', ''QUOTA_EXHAUSTED'', ''DATA_EXPIRED'',
           ''INVALID_TOOL_ARGUMENTS'', ''UPSTREAM_ERROR''} then explicit
         else if se_is_timeout e then ''UPSTREAM_TIMEOUT''
         else if se_is_validation e then ''INVALID_TOOL_ARGUMENTS''
         else if contains ''timeout'' name then ''UPSTREAM_TIMEOUT''
         else if contains ''quota'' name \<or> contains ''rate'' name then ''QUOTA_EXHAUSTED''
         else if contains ''expired'' name \<or> contains ''stale'' name then ''DATA_EXPIRED''
         else ''UPSTREAM_ERROR'')"

section \<open>Properties\<close>

lemma new_registry_ok: "new_registry capabilities = Inr tool_registry"
  by (simp add: new_registry_def tool_registry_def capabilities_def read_only_def)

lemma registry_entries:
  "dget tool_registry name = Some c \<Longrightarrow> c \<in> set capabilities \<and> cap_name c = name"
  by (auto simp: tool_registry_def dest: map_of_SomeD)

text \<open>
  the registry fails closed: a grant is given only for a registered capability, to an agent
  it lists, in its own mode and with exactly its data scopes; and a capability reserved to
  server workflows is never granted to any agent.
\<close>

theorem authorize_fails_closed:
  assumes "authorize schema tool_registry agent name mode scopes = Inr g"
  shows "gr_capability g \<in> set capabilities \<and> cap_name (gr_capability g) = name
       \<and> agent \<in> cap_agents (gr_capability g) \<and> cap_mode (gr_capability g) = mode
       \<and> cap_scopes (gr_capability g) = scopes \<and> mode \<noteq> Workflow_only"
proof -
  obtain c where c: "dget tool_registry name = Some c" "agent \<in> cap_agents c" "cap_mode c = mode"
      "cap_scopes c = scopes" "gr_capability g = c"
    using assms by (auto simp: authorize_def split: option.splits if_splits)
  have "\<forall>c \<in> set capabilities. cap_mode c = Workflow_only \<longrightarrow> cap_agents c = {}"
    by (simp add: capabilities_def read_only_def)
  with c registry_entries [OF c(1)] show ?thesis by auto
qed

theorem authorize_fails_closed_witness:
  "\<exists>g. authorize (\<lambda>_. ()) tool_registry Ag_companion ''get_weather'' Agent_callable {Sc_weather} = Inr g
     \<and> agent_capability.cap_name (gr_capability g) = ''get_weather''"
proof -
  obtain g where g: "authorize (\<lambda>_. ()) tool_registry Ag_companion ''get_weather'' Agent_callable {Sc_weather} = Inr g"
    by (simp add: authorize_def tool_registry_def capabilities_def read_only_def)
  with authorize_fails_closed [OF g] show ?thesis by blast
qed

text \<open>
  the two tables agree: the tools a model may call through the registry are, in order, the
  four tools the state policy knows, and no role but the companion has any such tool, nor any
  role an internal capability that a model may call.
\<close>

theorem policy_matches_registry:
  "set (names_for tool_registry Ag_companion Agent_callable) = set (dkeys tool_policies)
   \<and> {r. rc_allowed_tools (role_contracts r) \<noteq> []} \<subseteq> {Runtime_companion}
   \<and> (\<forall>r. set (rc_internal (role_contracts r)) \<inter> set (dkeys tool_policies) = {})
   \<and> (\<forall>r. set (rc_forbidden (role_contracts r)) \<inter>
           (set (rc_allowed_tools (role_contracts r)) \<union> set (rc_internal (role_contracts r))) = {})"
proof -
  have names: "names_for tool_registry Ag_companion Agent_callable
      = [''get_trip_state'', ''get_current_location'', ''get_weather'', ''propose_replan'']"
    "names_for tool_registry Ag_intent Internal_stage = [''parse_requirement'']"
    "names_for tool_registry Ag_search Internal_stage = [''search_poi'']"
    "names_for tool_registry Ag_planner Internal_stage = [''get_route_matrix'', ''optimize_route'', ''verify_transit_edges'']"
    "names_for tool_registry Ag_supervisor Internal_stage = []"
    "names_for tool_registry Ag_safety Internal_stage = [''check_travel_safety'']"
    by (simp_all add: names_for_def tool_registry_def capabilities_def read_only_def)
  have keys: "dkeys tool_policies = [''get_trip_state'', ''get_weather'', ''get_current_location'', ''propose_replan'']"
    by (simp add: tool_policies_def)
  have "(rc_allowed_tools (role_contracts r) \<noteq> [] \<longrightarrow> r = Runtime_companion)
      \<and> set (rc_internal (role_contracts r)) \<inter> set (dkeys tool_policies) = {}
      \<and> set (rc_forbidden (role_contracts r)) \<inter>
           (set (rc_allowed_tools (role_contracts r)) \<union> set (rc_internal (role_contracts r))) = {}" for r
    by (cases r) (simp_all add: names keys)
  then show ?thesis by (auto simp: names keys)
qed

end
