(* ===== verification/Shared_State.thy ===== *)
theory Shared_State
  imports Tools Protocol Store_Contracts
begin

text \<open>
  \<open>services/agent_shared_state.py\<close> with the state of \<open>schemas/agent_state.py\<close>: the task state that
  agents share through the runtime store, written with compare-and-set on its revision, and
  limited per role in what may be read, written and done.

  The values of the nested pydantic models are kept in their dumped JSON form, and \<open>schema_ok
  name v\<close> says whether the model \<open>name\<close> accepts \<open>v\<close>. \<open>iso_text\<close> and \<open>read_iso\<close> are the ISO text of an
  instant and its reading; \<open>sha\<close> and \<open>fr\<close> are as in \<open>Protocol\<close>. Each awaited call of the store
  is an atomic step with its own clock reading; \<open>env\<close> is what other tasks did to the store
  between the read and the compare-and-set.
\<close>

section \<open>The state\<close>

datatype phase =
    Ph_initialized | Ph_intent_ready | Ph_search_ready | Ph_safety_ready | Ph_plan_ready
  | Ph_reviewed | Ph_retrying | Ph_finalized | Ph_in_trip | Ph_completed | Ph_failed

fun phase_value :: "phase \<Rightarrow> string" where
  "phase_value Ph_initialized = ''initialized''"
| "phase_value Ph_intent_ready = ''intent_ready''"
| "phase_value Ph_search_ready = ''search_ready''"
| "phase_value Ph_safety_ready = ''safety_ready''"
| "phase_value Ph_plan_ready = ''plan_ready''"
| "phase_value Ph_reviewed = ''reviewed''"
| "phase_value Ph_retrying = ''retrying''"
| "phase_value Ph_finalized = ''finalized''"
| "phase_value Ph_in_trip = ''in_trip''"
| "phase_value Ph_completed = ''completed''"
| "phase_value Ph_failed = ''failed''"

definition all_phases :: "phase list" where
  "all_phases = [Ph_initialized, Ph_intent_ready, Ph_search_ready, Ph_safety_ready, Ph_plan_ready,
     Ph_reviewed, Ph_retrying, Ph_finalized, Ph_in_trip, Ph_completed, Ph_failed]"

fun agent_value :: "agent_type \<Rightarrow> string" where
  "agent_value Ag_supervisor = ''supervisor''"
| "agent_value Ag_intent = ''intent''"
| "agent_value Ag_search = ''search''"
| "agent_value Ag_safety = ''safety''"
| "agent_value Ag_planner = ''planner''"
| "agent_value Ag_critic = ''critic''"
| "agent_value Ag_companion = ''companion''"
| "agent_value Ag_replanner = ''replanner''"

definition all_agents :: "agent_type list" where
  "all_agents = [Ag_supervisor, Ag_intent, Ag_search, Ag_safety, Ag_planner, Ag_critic,
     Ag_companion, Ag_replanner]"

record state_event =
  se_revision :: int
  se_actor :: agent_type
  se_action :: string
  se_changed :: "string list"
  se_message :: "string option"
  se_hash :: string
  se_created :: instant

record shared_state =
  ss_version :: string
  ss_task :: string
  ss_revision :: int
  ss_hash :: string
  ss_phase :: phase
  ss_requirement :: json
  ss_questions :: json
  ss_candidates :: json
  ss_route :: json
  ss_evaluation :: json
  ss_adjustments :: json
  ss_context :: json
  ss_history :: "state_event list"
  ss_created :: instant
  ss_updated :: instant
  ss_expires :: instant

section \<open>Access tables\<close>

fun write_fields :: "agent_type \<Rightarrow> string list" where
  "write_fields Ag_supervisor = [''soft_adjustments'', ''execution_context'']"
| "write_fields Ag_intent = [''user_requirement'', ''clarification_questions'']"
| "write_fields Ag_search = [''poi_candidates'']"
| "write_fields Ag_safety = [''execution_context'']"
| "write_fields Ag_planner = [''route_plan'']"
| "write_fields Ag_critic = [''evaluation_result'']"
| "write_fields Ag_companion = [''execution_context'']"
| "write_fields Ag_replanner = []"

text \<open>The table has no entry for the replanner: looking it up raises \<open>KeyError\<close>.\<close>

fun read_fields :: "agent_type \<Rightarrow> string list option" where
  "read_fields Ag_supervisor = Some [''user_requirement'', ''clarification_questions'',
     ''poi_candidates'', ''route_plan'', ''evaluation_result'', ''soft_adjustments'',
     ''execution_context'', ''execution_history'']"
| "read_fields Ag_intent = Some [''user_requirement'', ''clarification_questions'']"
| "read_fields Ag_search = Some [''user_requirement'', ''soft_adjustments'']"
| "read_fields Ag_safety = Some [''user_requirement'', ''poi_candidates'', ''execution_context'']"
| "read_fields Ag_planner = Some [''user_requirement'', ''poi_candidates'', ''soft_adjustments'',
     ''execution_context'']"
| "read_fields Ag_critic = Some [''user_requirement'', ''route_plan'']"
| "read_fields Ag_companion = Some [''route_plan'', ''evaluation_result'', ''execution_context'',
     ''execution_history'']"
| "read_fields Ag_replanner = None"

definition action_phase :: "(string, phase) dict" where
  "action_phase =
    [(''intent_analyzed'', Ph_intent_ready), (''search_completed'', Ph_search_ready),
     (''safety_checked'', Ph_safety_ready), (''plan_completed'', Ph_plan_ready),
     (''critic_reviewed'', Ph_reviewed), (''soft_retry_scheduled'', Ph_retrying),
     (''recovery_applied'', Ph_retrying), (''workflow_finalized'', Ph_finalized),
     (''workflow_failed'', Ph_failed), (''trip_started'', Ph_in_trip),
     (''trip_event_processed'', Ph_in_trip), (''trip_completed'', Ph_completed)]"

definition action_actor :: "(string, agent_type) dict" where
  "action_actor =
    [(''intent_analyzed'', Ag_intent), (''search_completed'', Ag_search),
     (''safety_checked'', Ag_safety), (''plan_completed'', Ag_planner),
     (''critic_reviewed'', Ag_critic), (''soft_retry_scheduled'', Ag_supervisor),
     (''recovery_applied'', Ag_supervisor), (''workflow_finalized'', Ag_supervisor),
     (''workflow_failed'', Ag_supervisor), (''trip_started'', Ag_companion),
     (''trip_event_processed'', Ag_companion), (''trip_completed'', Ag_companion)]"

fun phase_transitions :: "phase \<Rightarrow> phase list" where
  "phase_transitions Ph_initialized = [Ph_intent_ready, Ph_plan_ready, Ph_retrying, Ph_failed]"
| "phase_transitions Ph_intent_ready = [Ph_search_ready, Ph_retrying, Ph_finalized, Ph_failed]"
| "phase_transitions Ph_search_ready = [Ph_safety_ready, Ph_plan_ready, Ph_retrying, Ph_failed]"
| "phase_transitions Ph_safety_ready = [Ph_plan_ready, Ph_retrying, Ph_failed]"
| "phase_transitions Ph_plan_ready = [Ph_reviewed, Ph_retrying, Ph_finalized, Ph_in_trip, Ph_failed]"
| "phase_transitions Ph_reviewed = [Ph_retrying, Ph_finalized, Ph_failed]"
| "phase_transitions Ph_retrying = [Ph_retrying, Ph_search_ready, Ph_plan_ready, Ph_failed]"
| "phase_transitions Ph_finalized = [Ph_in_trip, Ph_completed]"
| "phase_transitions Ph_in_trip = [Ph_in_trip, Ph_completed, Ph_failed]"
| "phase_transitions Ph_completed = []"
| "phase_transitions Ph_failed = []"

section \<open>Dumping and validating\<close>

definition opt_str :: "string option \<Rightarrow> json" where
  "opt_str x = (case x of None \<Rightarrow> JNull | Some s \<Rightarrow> JStr s)"

definition event_dump :: "(instant \<Rightarrow> string) \<Rightarrow> state_event \<Rightarrow> json" where
  "event_dump iso_text e = JObj
     [(''revision'', JInt (se_revision e)), (''actor'', JStr (agent_value (se_actor e))),
      (''action'', JStr (se_action e)), (''changed_fields'', JArr (map JStr (se_changed e))),
      (''message_id'', opt_str (se_message e)), (''change_hash'', JStr (se_hash e)),
      (''created_at'', JStr (iso_text (se_created e)))]"

text \<open>The fields in declaration order; \<open>state_hash\<close> is left out for hashing.\<close>

definition dump_without_hash :: "(instant \<Rightarrow> string) \<Rightarrow> shared_state \<Rightarrow> (string \<times> json) list" where
  "dump_without_hash iso_text s =
     [(''schema_version'', JStr (ss_version s)), (''task_id'', JStr (ss_task s)),
      (''revision'', JInt (ss_revision s)), (''phase'', JStr (phase_value (ss_phase s))),
      (''user_requirement'', ss_requirement s), (''clarification_questions'', ss_questions s),
      (''poi_candidates'', ss_candidates s), (''route_plan'', ss_route s),
      (''evaluation_result'', ss_evaluation s), (''soft_adjustments'', ss_adjustments s),
      (''execution_context'', ss_context s),
      (''execution_history'', JArr (map (event_dump iso_text) (ss_history s))),
      (''created_at'', JStr (iso_text (ss_created s))), (''updated_at'', JStr (iso_text (ss_updated s))),
      (''expires_at'', JStr (iso_text (ss_expires s)))]"

definition state_dump :: "(instant \<Rightarrow> string) \<Rightarrow> shared_state \<Rightarrow> json" where
  "state_dump iso_text s =
     JObj (take 3 (dump_without_hash iso_text s) @ (''state_hash'', JStr (ss_hash s))
           # drop 3 (dump_without_hash iso_text s))"

fun as_str :: "json \<Rightarrow> string option" where
  "as_str (JStr s) = Some s"
| "as_str _ = None"

fun as_opt_str :: "json \<Rightarrow> string option option" where
  "as_opt_str (JStr s) = Some (Some s)"
| "as_opt_str JNull = Some None"
| "as_opt_str _ = None"

fun as_int :: "json \<Rightarrow> int option" where
  "as_int (JInt i) = Some i"
| "as_int _ = None"

fun as_arr :: "json \<Rightarrow> json list option" where
  "as_arr (JArr xs) = Some xs"
| "as_arr _ = None"

definition as_enum :: "('a \<Rightarrow> string) \<Rightarrow> 'a list \<Rightarrow> json \<Rightarrow> 'a option" where
  "as_enum f xs v = Option.bind (as_str v) (\<lambda>s. List.find (\<lambda>x. f x = s) xs)"

fun all_some :: "'a option list \<Rightarrow> 'a list option" where
  "all_some [] = Some []"
| "all_some (None # xs) = None"
| "all_some (Some x # xs) = map_option (\<lambda>ys. x # ys) (all_some xs)"

definition event_parse :: "(string \<Rightarrow> instant option) \<Rightarrow> json \<Rightarrow> state_event option" where
  "event_parse read_iso v =
     (case v of
        JObj f \<Rightarrow>
          (case (as_int (obj_get f ''revision''), as_enum agent_value all_agents (obj_get f ''actor''),
                 as_str (obj_get f ''action''),
                 Option.bind (as_arr (obj_get f ''changed_fields'')) (\<lambda>xs. all_some (map as_str xs)),
                 as_opt_str (obj_get f ''message_id''), as_str (obj_get f ''change_hash''),
                 Option.bind (as_str (obj_get f ''created_at'')) read_iso) of
             (Some r, Some a, Some ac, Some ch, Some m, Some h, Some c) \<Rightarrow>
               Some \<lparr>se_revision = r, se_actor = a, se_action = ac, se_changed = ch,
                     se_message = m, se_hash = h, se_created = c\<rparr>
           | _ \<Rightarrow> None)
      | _ \<Rightarrow> None)"

definition event_ok :: "state_event \<Rightarrow> bool" where
  "event_ok e \<longleftrightarrow> 0 \<le> se_revision e \<and> 1 \<le> cp_length (se_action e) \<and> cp_length (se_action e) \<le> 80
     \<and> length (se_changed e) \<le> 20 \<and> hex64 (se_hash e)"

fun list_within :: "nat \<Rightarrow> (json \<Rightarrow> bool) \<Rightarrow> json \<Rightarrow> bool" where
  "list_within n f (JArr xs) = (length xs \<le> n \<and> list_all f xs)"
| "list_within n f _ = False"

text \<open>The field constraints of \<open>AgentSharedState\<close> and \<open>validate_candidate_groups\<close>.\<close>

definition state_ok :: "(string \<Rightarrow> json \<Rightarrow> bool) \<Rightarrow> shared_state \<Rightarrow> bool" where
  "state_ok schema_ok s \<longleftrightarrow>
     8 \<le> cp_length (ss_task s) \<and> cp_length (ss_task s) \<le> 128 \<and> 0 \<le> ss_revision s \<and>
     hex64 (ss_hash s) \<and>
     (ss_requirement s = JNull \<or> schema_ok ''PlanningIntent'' (ss_requirement s)) \<and>
     list_within 20 is_object (ss_questions s) \<and>
     list_within 24 (list_within 5 (schema_ok ''PoiCandidate'')) (ss_candidates s) \<and>
     (ss_route s = JNull \<or> is_object (ss_route s)) \<and>
     (ss_evaluation s = JNull \<or> schema_ok ''ReviewReport'' (ss_evaluation s)) \<and>
     (ss_adjustments s = JNull \<or> schema_ok ''CriticSoftAdjustments'' (ss_adjustments s)) \<and>
     is_object (ss_context s) \<and>
     length (ss_history s) \<le> 200 \<and> list_all event_ok (ss_history s)"

definition state_parse ::
  "(string \<Rightarrow> json \<Rightarrow> bool) \<Rightarrow> (string \<Rightarrow> instant option) \<Rightarrow> json \<Rightarrow> shared_state option" where
  "state_parse schema_ok read_iso v =
     (case v of
        JObj f \<Rightarrow>
          (case (as_str (obj_get f ''schema_version''), as_str (obj_get f ''task_id''),
                 as_int (obj_get f ''revision''), as_str (obj_get f ''state_hash''),
                 as_enum phase_value all_phases (obj_get f ''phase''),
                 Option.bind (as_arr (obj_get f ''execution_history''))
                   (\<lambda>xs. all_some (map (event_parse read_iso) xs)),
                 Option.bind (as_str (obj_get f ''created_at'')) read_iso,
                 Option.bind (as_str (obj_get f ''updated_at'')) read_iso,
                 Option.bind (as_str (obj_get f ''expires_at'')) read_iso) of
             (Some ver, Some t, Some r, Some h, Some p, Some hist, Some c, Some u, Some e) \<Rightarrow>
               let s = \<lparr>ss_version = ver, ss_task = t, ss_revision = r, ss_hash = h, ss_phase = p,
                        ss_requirement = obj_get f ''user_requirement'',
                        ss_questions = obj_get f ''clarification_questions'',
                        ss_candidates = obj_get f ''poi_candidates'',
                        ss_route = obj_get f ''route_plan'',
                        ss_evaluation = obj_get f ''evaluation_result'',
                        ss_adjustments = obj_get f ''soft_adjustments'',
                        ss_context = obj_get f ''execution_context'',
                        ss_history = hist, ss_created = c, ss_updated = u, ss_expires = e\<rparr>
               in if state_ok schema_ok s then Some s else None
           | _ \<Rightarrow> None)
      | _ \<Rightarrow> None)"

section \<open>The manager\<close>

datatype shared_error =
    State_not_found | State_conflict | Access_denied | State_hash_mismatch | State_too_large
  | State_invalid | Bad_plan_version | Unknown_reader

text \<open>
  What the manager is given: the limits of its constructor, and the outside functions.
  \<open>model_validate\<close> failing is \<open>State_invalid\<close>; an \<open>int(...)\<close> that raises is \<open>Bad_plan_version\<close>.
\<close>

record manager =
  mg_ttl :: int
  mg_max_history :: int
  mg_max_bytes :: int
  mg_sha :: "string \<Rightarrow> string"
  mg_fr :: "rat \<Rightarrow> string"
  mg_iso :: "instant \<Rightarrow> string"
  mg_un_iso :: "string \<Rightarrow> instant option"
  mg_schema :: "string \<Rightarrow> json \<Rightarrow> bool"

definition new_manager ::
  "int \<Rightarrow> int \<Rightarrow> int \<Rightarrow> (string \<Rightarrow> string) \<Rightarrow> (rat \<Rightarrow> string) \<Rightarrow> (instant \<Rightarrow> string)
     \<Rightarrow> (string \<Rightarrow> instant option) \<Rightarrow> (string \<Rightarrow> json \<Rightarrow> bool) \<Rightarrow> manager" where
  "new_manager ttl max_history max_bytes sha fr iso_text read_iso schema =
     \<lparr>mg_ttl = max 60 ttl, mg_max_history = min 200 (max 1 max_history),
      mg_max_bytes = max 16384 max_bytes, mg_sha = sha, mg_fr = fr, mg_iso = iso_text,
      mg_un_iso = read_iso, mg_schema = schema\<rparr>"

definition ttl_delta :: "manager \<Rightarrow> int" where
  "ttl_delta mg = mg_ttl mg * 1000000"

definition json_hash :: "manager \<Rightarrow> json \<Rightarrow> string" where
  "json_hash mg v = mg_sha mg (canonical_json (mg_fr mg) v)"

definition serialized :: "manager \<Rightarrow> shared_state \<Rightarrow> shared_error + json" where
  "serialized mg s =
     (let p = state_dump (mg_iso mg) s
      in if mg_max_bytes mg < encoded_size (mg_fr mg) p then Inl State_too_large else Inr p)"

definition state_hash :: "manager \<Rightarrow> shared_state \<Rightarrow> string" where
  "state_hash mg s = json_hash mg (JObj (dump_without_hash (mg_iso mg) s))"

definition seal :: "manager \<Rightarrow> shared_state \<Rightarrow> shared_state" where
  "seal mg s = s\<lparr>ss_hash := state_hash mg s\<rparr>"

definition state_key :: "string \<Rightarrow> string" where
  "state_key task_id = ''agent-shared-state:v1:'' @ task_id"

definition read_state ::
  "manager \<Rightarrow> string \<Rightarrow> rat \<Rightarrow> store \<Rightarrow> (shared_error + shared_state) \<times> store" where
  "read_state mg task_id now st =
     (let (raw, st1) = get_json (state_key task_id) now st
      in case raw of
           None \<Rightarrow> (Inl State_not_found, st1)
         | Some v \<Rightarrow>
             (case state_parse (mg_schema mg) (mg_un_iso mg) v of
                None \<Rightarrow> (Inl State_invalid, st1)
              | Some s \<Rightarrow>
                  if ss_hash s \<noteq> state_hash mg s then (Inl State_hash_mismatch, st1)
                  else (Inr s, st1)))"

definition set_field :: "string \<Rightarrow> json \<Rightarrow> shared_state \<Rightarrow> shared_state" where
  "set_field f v s =
     (if f = ''user_requirement'' then s\<lparr>ss_requirement := v\<rparr>
      else if f = ''clarification_questions'' then s\<lparr>ss_questions := v\<rparr>
      else if f = ''poi_candidates'' then s\<lparr>ss_candidates := v\<rparr>
      else if f = ''route_plan'' then s\<lparr>ss_route := v\<rparr>
      else if f = ''evaluation_result'' then s\<lparr>ss_evaluation := v\<rparr>
      else if f = ''soft_adjustments'' then s\<lparr>ss_adjustments := v\<rparr>
      else if f = ''execution_context'' then s\<lparr>ss_context := v\<rparr>
      else s)"

definition get_field :: "manager \<Rightarrow> string \<Rightarrow> shared_state \<Rightarrow> json" where
  "get_field mg f s = obj_get (dump_without_hash (mg_iso mg) s) f"

text \<open>The tail shared by both writers: seal, check the size, compare-and-set.\<close>

definition store_state ::
  "manager \<Rightarrow> string \<Rightarrow> int \<Rightarrow> shared_state \<Rightarrow> rat \<Rightarrow> store \<Rightarrow> (shared_error + shared_state) \<times> store" where
  "store_state mg task_id expected updated now st =
     (if \<not> state_ok (mg_schema mg) updated then (Inl State_invalid, st)
      else
        let updated' = seal mg updated
        in case serialized mg updated' of
             Inl e \<Rightarrow> (Inl e, st)
           | Inr p \<Rightarrow>
               (case compare_set_json (mg_fr mg) (state_key task_id) expected p (of_int (mg_ttl mg)) now st of
                  (Inr True, st1) \<Rightarrow> (Inr updated', st1)
                | (_, st1) \<Rightarrow> (Inl State_conflict, st1)))"

definition update_state ::
  "manager \<Rightarrow> string \<Rightarrow> agent_type \<Rightarrow> int \<Rightarrow> string \<Rightarrow> (string \<times> json) list \<Rightarrow> string option
     \<Rightarrow> instant \<Rightarrow> rat \<Rightarrow> rat \<Rightarrow> (store \<Rightarrow> store) \<Rightarrow> store \<Rightarrow> (shared_error + shared_state) \<times> store" where
  "update_state mg task_id actor expected action changes message_id wall now1 now2 env st =
     (case (dget action_phase action, dget action_actor action) of
        (Some next_phase, Some owner) \<Rightarrow>
          if actor \<noteq> owner then (Inl Access_denied, st)
          else if \<not> set (dkeys changes) \<subseteq> set (write_fields actor) then (Inl Access_denied, st)
          else
            (case read_state mg task_id now1 st of
               (Inl e, st1) \<Rightarrow> (Inl e, st1)
             | (Inr current, st1) \<Rightarrow>
                 if ss_revision current \<noteq> expected then (Inl State_conflict, st1)
                 else if next_phase \<notin> set (phase_transitions (ss_phase current))
                 then (Inl Access_denied, st1)
                 else
                   let event = \<lparr>se_revision = ss_revision current + 1, se_actor = actor,
                         se_action = action, se_changed = sort (dkeys changes),
                         se_message = message_id, se_hash = json_hash mg (JObj changes),
                         se_created = wall\<rparr>;
                       updated = (fold (\<lambda>(f, v). set_field f v) changes current)
                         \<lparr>ss_revision := ss_revision current + 1, ss_phase := next_phase,
                          ss_history := last_n (nat (mg_max_history mg)) (ss_history current @ [event]),
                          ss_updated := wall, ss_expires := wall + ttl_delta mg\<rparr>
                   in store_state mg task_id expected updated now2 (env st1))
      | _ \<Rightarrow> (Inl Access_denied, st))"

definition route_version :: "json \<Rightarrow> shared_error + int" where
  "route_version route =
     (case py_int_or0 (case route of JObj kvs \<Rightarrow> obj_get kvs ''plan_version'' | _ \<Rightarrow> JNull) of
        Inl _ \<Rightarrow> Inl Bad_plan_version | Inr v \<Rightarrow> Inr v)"

definition sync_formal_route_plan ::
  "manager \<Rightarrow> string \<Rightarrow> int \<Rightarrow> (string \<times> json) list \<Rightarrow> instant \<Rightarrow> rat \<Rightarrow> rat \<Rightarrow> (store \<Rightarrow> store) \<Rightarrow> store
     \<Rightarrow> (shared_error + shared_state) \<times> store" where
  "sync_formal_route_plan mg task_id expected route wall now1 now2 env st =
     (if obj_get route ''status'' \<noteq> JStr ''success'' then (Inl Access_denied, st)
      else
        (case read_state mg task_id now1 st of
           (Inl e, st1) \<Rightarrow> (Inl e, st1)
         | (Inr current, st1) \<Rightarrow>
             if ss_revision current \<noteq> expected then (Inl State_conflict, st1)
             else
               (case (route_version (ss_route current), route_version (JObj route)) of
                  (Inr old_version, Inr new_version) \<Rightarrow>
                    if new_version < old_version then (Inl Access_denied, st1)
                    else if json_hash mg (ss_route current) = json_hash mg (JObj route)
                    then (Inr current, st1)
                    else
                      let event = \<lparr>se_revision = ss_revision current + 1, se_actor = Ag_supervisor,
                            se_action = ''formal_plan_refreshed'', se_changed = [''route_plan''],
                            se_message = None, se_hash = json_hash mg (JObj route), se_created = wall\<rparr>;
                          updated = current
                            \<lparr>ss_revision := ss_revision current + 1, ss_route := JObj route,
                             ss_history := last_n (nat (mg_max_history mg)) (ss_history current @ [event]),
                             ss_updated := wall, ss_expires := wall + ttl_delta mg\<rparr>
                      in store_state mg task_id expected updated now2 (env st1)
                | (Inl e, _) \<Rightarrow> (Inl e, st1)
                | (_, Inl e) \<Rightarrow> (Inl e, st1))))"

definition initial_state :: "manager \<Rightarrow> string \<Rightarrow> (string \<times> json) list option \<Rightarrow> instant \<Rightarrow> shared_state" where
  "initial_state mg task_id route wall =
     \<lparr>ss_version = ''1.0'', ss_task = task_id, ss_revision = 0, ss_hash = replicate 64 (CHR ''0''),
      ss_phase = (case route of Some _ \<Rightarrow> Ph_plan_ready | None \<Rightarrow> Ph_initialized),
      ss_requirement = JNull, ss_questions = JArr [], ss_candidates = JArr [],
      ss_route = (case route of Some r \<Rightarrow> JObj r | None \<Rightarrow> JNull),
      ss_evaluation = JNull, ss_adjustments = JNull, ss_context = JObj [],
      ss_history = [\<lparr>se_revision = 0, se_actor = Ag_supervisor, se_action = ''state_initialized'',
        se_changed = (case route of Some _ \<Rightarrow> [''route_plan''] | None \<Rightarrow> []), se_message = None,
        se_hash = json_hash mg (JObj (case route of Some r \<Rightarrow> [(''route_plan'', JObj r)] | None \<Rightarrow> [])),
        se_created = wall\<rparr>],
      ss_created = wall, ss_updated = wall, ss_expires = wall + ttl_delta mg\<rparr>"

definition initialize_state ::
  "manager \<Rightarrow> string \<Rightarrow> (string \<times> json) list option \<Rightarrow> instant \<Rightarrow> rat \<times> rat \<times> rat \<Rightarrow> (store \<Rightarrow> store) \<Rightarrow> store
     \<Rightarrow> (shared_error + shared_state) \<times> store" where
  "initialize_state mg task_id route wall clocks env st =
     (let (now1, now2, now3) = clocks;
          (existing, st1) = get_json (state_key task_id) now1 st
      in case existing of
           Some v \<Rightarrow>
             (case state_parse (mg_schema mg) (mg_un_iso mg) v of
                None \<Rightarrow> (Inl State_invalid, st1)
              | Some s \<Rightarrow>
                  if ss_hash s \<noteq> state_hash mg s then (Inl State_hash_mismatch, st1)
                  else
                    (case route of
                       Some r \<Rightarrow>
                         if json_hash mg (ss_route s) \<noteq> json_hash mg (JObj r)
                         then sync_formal_route_plan mg task_id (ss_revision s) r wall now2 now3 env st1
                         else (Inr s, st1)
                     | None \<Rightarrow> (Inr s, st1)))
         | None \<Rightarrow>
             if (case route of Some r \<Rightarrow> obj_get r ''status'' \<noteq> JStr ''success'' | None \<Rightarrow> False)
             then (Inl Access_denied, st1)
             else
               (case store_state mg task_id (- 1) (initial_state mg task_id route wall) now2 (env st1) of
                  (Inl State_conflict, st2) \<Rightarrow>
                    (case read_state mg task_id now3 st2 of
                       (Inl State_not_found, st3) \<Rightarrow> (Inl State_conflict, st3)
                     | r \<Rightarrow> r)
                | r \<Rightarrow> r))"

section \<open>Views, audit, deletion\<close>

record state_view =
  sv_task :: string
  sv_revision :: int
  sv_hash :: string
  sv_phase :: phase
  sv_visible :: "string list"
  sv_fields :: "(string \<times> json) list"

definition read_for_agent ::
  "manager \<Rightarrow> string \<Rightarrow> agent_type \<Rightarrow> rat \<Rightarrow> store \<Rightarrow> (shared_error + state_view) \<times> store" where
  "read_for_agent mg task_id actor now st =
     (case read_state mg task_id now st of
        (Inl e, st1) \<Rightarrow> (Inl e, st1)
      | (Inr s, st1) \<Rightarrow>
          (case read_fields actor of
             None \<Rightarrow> (Inl Unknown_reader, st1)
           | Some visible \<Rightarrow>
               (Inr \<lparr>sv_task = ss_task s, sv_revision = ss_revision s, sv_hash = ss_hash s,
                     sv_phase = ss_phase s, sv_visible = sort visible,
                     sv_fields = map (\<lambda>f. (f, get_field mg f s)) visible\<rparr>, st1)))"

definition delete_state :: "string \<Rightarrow> store \<Rightarrow> bool \<times> store" where
  "delete_state task_id st = delete_json (state_key task_id) st"

record state_audit =
  sa_task :: string
  sa_revision :: int
  sa_phase :: phase
  sa_flags :: "string list"
  sa_groups :: nat
  sa_candidates :: nat
  sa_route_status :: "string option"
  sa_stops :: nat
  sa_verdict :: json
  sa_history :: nat
  sa_hash :: string

fun members :: "json \<Rightarrow> (string \<times> json) list" where
  "members (JObj kvs) = kvs"
| "members _ = []"

fun elements :: "json \<Rightarrow> json list" where
  "elements (JArr xs) = xs"
| "elements _ = []"

definition preference_flags :: "json \<Rightarrow> string list" where
  "preference_flags requirement =
     (if requirement = JNull then []
      else
        let prefs = members (obj_get (members requirement) ''preferences'')
        in filter (\<lambda>f. json_truthy (obj_get prefs f))
             [''minimize_distance'', ''minimize_walking'', ''minimize_cost'', ''prefer_high_rating'',
              ''dietary_restrictions'']
           @ (case obj_get prefs ''optimization_goal'' of
                JStr g \<Rightarrow> if g \<noteq> ''balanced'' then [''optimization:'' @ g] else []
              | _ \<Rightarrow> []))"

text \<open>Counts and flags only: no name, coordinate or text of the user reaches the audit.\<close>

definition audit_state ::
  "manager \<Rightarrow> string \<Rightarrow> rat \<Rightarrow> store \<Rightarrow> (shared_error + state_audit) \<times> store" where
  "audit_state mg task_id now st =
     (case read_state mg task_id now st of
        (Inl e, st1) \<Rightarrow> (Inl e, st1)
      | (Inr s, st1) \<Rightarrow>
          (Inr \<lparr>sa_task = task_id, sa_revision = ss_revision s, sa_phase = ss_phase s,
                sa_flags = preference_flags (ss_requirement s),
                sa_groups = length (elements (ss_candidates s)),
                sa_candidates = sum_list (map (\<lambda>g. length (elements g)) (elements (ss_candidates s))),
                sa_route_status = (case obj_get (members (ss_route s)) ''status'' of
                    JStr t \<Rightarrow> if t = [] then None else Some t | _ \<Rightarrow> None),
                sa_stops = length (elements (obj_get (members (ss_route s)) ''stops'')),
                sa_verdict = obj_get (members (ss_evaluation s)) ''verdict'',
                sa_history = length (ss_history s), sa_hash = ss_hash s\<rparr>, st1))"

end
