(* ===== verification/Transport.thy ===== *)
theory Transport
  imports Protocol Tools
begin

text \<open>
  \<open>services/agent_transport.py\<close>: the in-memory transport with claims, acknowledgements, retries
  and dead letters, the bus that validates at both ends, and the worker that handles one message.
  Each method body runs under \<open>self._condition\<close> and is one atomic step; \<open>wait\<close> inside
  \<open>receive\<close> lets other tasks run, so a call is a list of wake-ups. The router's validation is the
  argument \<open>valid\<close> (what \<open>validate_message\<close> returns at the time of the call). Redis Streams, a
  client of a third-party server, are not modelled.
\<close>

type_synonym channel = "agent_endpoint \<times> string option"

record delivery =
  dl_message :: agent_message
  dl_receipt :: string
  dl_consumer :: string
  dl_count :: int
  dl_reclaimed :: bool
  dl_idle_ms :: int

record claim =
  cl_delivery :: delivery
  cl_claimed_at :: rat

record dead_letter =
  dd_message :: agent_message
  dd_error_code :: string
  dd_consumer :: string
  dd_count :: int
  dd_failed_at :: instant

record transport =
  tr_ttl :: int
  tr_max :: nat
  tr_queues :: "channel \<Rightarrow> agent_message list"
  tr_pending :: "channel \<Rightarrow> (string, claim) dict"
  tr_dead :: "channel \<Rightarrow> dead_letter list"
  tr_published :: "(string, rat) dict"

datatype transport_error =
    Rejected protocol_error | Queue_full | Bad_max_attempts | Not_pending

datatype publish_status = Published | Already_published

definition new_transport :: "int \<Rightarrow> int \<Rightarrow> transport" where
  "new_transport ttl max_messages =
     \<lparr>tr_ttl = max 60 ttl, tr_max = nat (max 100 max_messages), tr_queues = (\<lambda>_. []),
      tr_pending = (\<lambda>_. []), tr_dead = (\<lambda>_. []), tr_published = []\<rparr>"

definition channel_of :: "agent_message \<Rightarrow> channel" where
  "channel_of m = (am_receiver m, am_inbox m)"

section \<open>Publishing and receiving\<close>

fun evict_published :: "nat \<Rightarrow> (string, rat) dict \<Rightarrow> (string, rat) dict" where
  "evict_published m [] = []"
| "evict_published m (p # d) = (if m \<le> length (p # d) then evict_published m d else p # d)"

definition transport_publish ::
  "(agent_message \<Rightarrow> protocol_error + unit) \<Rightarrow> rat \<Rightarrow> agent_message \<Rightarrow> transport
     \<Rightarrow> (transport_error + publish_status) \<times> transport" where
  "transport_publish valid now m t =
     (case valid m of
        Inl e \<Rightarrow> (Inl (Rejected e), t)
      | Inr _ \<Rightarrow>
          let t1 = t\<lparr>tr_published := filter (\<lambda>(k, expires). now < expires) (tr_published t)\<rparr>;
              ch = channel_of m
          in if am_idempotency_key m \<in> set (dkeys (tr_published t1)) then (Inr Already_published, t1)
             else if tr_max t1 \<le> length (tr_queues t1 ch) then (Inl Queue_full, t1)
             else (Inr Published,
               t1\<lparr>tr_published := dset (am_idempotency_key m) (now + of_int (tr_ttl t1))
                    (evict_published (tr_max t1) (tr_published t1)),
                  tr_queues := (tr_queues t1)(ch := tr_queues t1 ch @ [m])\<rparr>))"

datatype received = Message delivery | Nothing_yet | Refused protocol_error

text \<open>
  One pass of \<open>receive\<close> with a message in the queue: the message is taken off the queue before
  the router validates it.
\<close>

definition receive_pass ::
  "(agent_message \<Rightarrow> protocol_error + unit) \<Rightarrow> channel \<Rightarrow> string \<Rightarrow> string \<Rightarrow> rat \<Rightarrow> transport
     \<Rightarrow> received \<times> transport" where
  "receive_pass valid ch consumer receipt now t =
     (case tr_queues t ch of
        [] \<Rightarrow> (Nothing_yet, t)
      | m # ms \<Rightarrow>
          let t1 = t\<lparr>tr_queues := (tr_queues t)(ch := ms)\<rparr>
          in case valid m of
               Inl e \<Rightarrow> (Refused e, t1)
             | Inr _ \<Rightarrow>
                 let d = \<lparr>dl_message = m, dl_receipt = receipt, dl_consumer = consumer,
                       dl_count = am_attempt m, dl_reclaimed = False, dl_idle_ms = 0\<rparr>
                 in (Message d,
                     t1\<lparr>tr_pending := (tr_pending t1)(ch := dset receipt
                          \<lparr>cl_delivery = d, cl_claimed_at = now\<rparr> (tr_pending t1 ch))\<rparr>))"

text \<open>
  The whole call: a wake-up is what other tasks did meanwhile, the time left, the fresh receipt
  and the clock; \<open>None\<close> is a call still waiting when the list ends.
\<close>

fun transport_receive ::
  "(agent_message \<Rightarrow> protocol_error + unit) \<Rightarrow> channel \<Rightarrow> string
     \<Rightarrow> ((transport \<Rightarrow> transport) \<times> rat \<times> string \<times> rat) list \<Rightarrow> transport
     \<Rightarrow> ((transport_error + delivery option) \<times> transport) option" where
  "transport_receive valid ch consumer [] t = None"
| "transport_receive valid ch consumer ((env, remaining, receipt, now) # wakes) t =
     (case receive_pass valid ch consumer receipt now (env t) of
        (Message d, t1) \<Rightarrow> Some (Inr (Some d), t1)
      | (Refused e, t1) \<Rightarrow> Some (Inl (Rejected e), t1)
      | (Nothing_yet, t1) \<Rightarrow>
          if remaining \<le> 0 then Some (Inr None, t1)
          else transport_receive valid ch consumer wakes t1)"

section \<open>Acknowledging, retrying, reclaiming\<close>

definition transport_acknowledge :: "delivery \<Rightarrow> transport \<Rightarrow> bool \<times> transport" where
  "transport_acknowledge d t =
     (let ch = channel_of (dl_message d)
      in (dget (tr_pending t ch) (dl_receipt d) \<noteq> None,
          t\<lparr>tr_pending := (tr_pending t)(ch := dpop (dl_receipt d) (tr_pending t ch))\<rparr>))"

definition dead_letter_payload :: "delivery \<Rightarrow> string \<Rightarrow> instant \<Rightarrow> dead_letter" where
  "dead_letter_payload d code wall =
     \<lparr>dd_message = dl_message d, dd_error_code = cp_take 120 code,
      dd_consumer = cp_take 120 (dl_consumer d), dd_count = dl_count d, dd_failed_at = wall\<rparr>"

datatype disposition = Retried | Dead_lettered

definition transport_retry ::
  "delivery \<Rightarrow> string \<Rightarrow> int \<Rightarrow> instant \<Rightarrow> transport \<Rightarrow> (transport_error + disposition) \<times> transport" where
  "transport_retry d code max_attempts wall t =
     (if \<not> (1 \<le> max_attempts \<and> max_attempts \<le> 5) then (Inl Bad_max_attempts, t)
      else
        let ch = channel_of (dl_message d)
        in case dget (tr_pending t ch) (dl_receipt d) of
             None \<Rightarrow> (Inl Not_pending, t)
           | Some _ \<Rightarrow>
               let t1 = t\<lparr>tr_pending := (tr_pending t)(ch := dpop (dl_receipt d) (tr_pending t ch))\<rparr>
               in if max_attempts \<le> max (am_attempt (dl_message d)) (dl_count d)
                  then (Inr Dead_lettered,
                    t1\<lparr>tr_dead := (tr_dead t1)(ch := last_n (tr_max t1)
                         (tr_dead t1 ch @ [dead_letter_payload d code wall]))\<rparr>)
                  else (Inr Retried,
                    t1\<lparr>tr_queues := (tr_queues t1)(ch := tr_queues t1 ch
                         @ [(dl_message d)\<lparr>am_attempt := am_attempt (dl_message d) + 1\<rparr>])\<rparr>))"

fun reclaim_loop ::
  "channel \<Rightarrow> string \<Rightarrow> rat \<Rightarrow> rat \<Rightarrow> int \<Rightarrow> (string \<times> claim) list \<Rightarrow> delivery list \<Rightarrow> transport
     \<Rightarrow> delivery list \<times> transport" where
  "reclaim_loop ch consumer threshold now limit [] out t = (out, t)"
| "reclaim_loop ch consumer threshold now limit ((receipt, c) # claims) out t =
     (if max 0 limit \<le> int (length out) \<or> now - cl_claimed_at c < threshold
      then reclaim_loop ch consumer threshold now limit claims out t
      else
        let d = \<lparr>dl_message = dl_message (cl_delivery c), dl_receipt = receipt,
              dl_consumer = consumer, dl_count = dl_count (cl_delivery c) + 1, dl_reclaimed = True,
              dl_idle_ms = rat_trunc ((now - cl_claimed_at c) * 1000)\<rparr>
        in reclaim_loop ch consumer threshold now limit claims (out @ [d])
             (t\<lparr>tr_pending := (tr_pending t)(ch := dset receipt
                  \<lparr>cl_delivery = d, cl_claimed_at = now\<rparr> (tr_pending t ch))\<rparr>))"

definition transport_reclaim ::
  "channel \<Rightarrow> string \<Rightarrow> int \<Rightarrow> int \<Rightarrow> rat \<Rightarrow> transport \<Rightarrow> delivery list \<times> transport" where
  "transport_reclaim ch consumer min_idle_ms limit now t =
     reclaim_loop ch consumer (of_int (max 0 min_idle_ms) / 1000) now limit (tr_pending t ch) [] t"

definition pending_count :: "channel \<Rightarrow> transport \<Rightarrow> nat" where
  "pending_count ch t = length (tr_pending t ch)"

text \<open>Python's \<open>xs[-n:]\<close>, which for \<open>n = 0\<close> is the whole list.\<close>

definition py_tail :: "int \<Rightarrow> 'a list \<Rightarrow> 'a list" where
  "py_tail n xs = (if n = 0 then xs else last_n (nat n) xs)"

definition dead_letters :: "channel \<Rightarrow> int \<Rightarrow> transport \<Rightarrow> dead_letter list" where
  "dead_letters ch limit t = py_tail (max 0 limit) (tr_dead t ch)"

definition dead_letter_count :: "channel \<Rightarrow> transport \<Rightarrow> nat" where
  "dead_letter_count ch t = length (tr_dead t ch)"

definition oldest_pending_age_ms :: "channel \<Rightarrow> rat \<Rightarrow> transport \<Rightarrow> int" where
  "oldest_pending_age_ms ch now t =
     (case map (\<lambda>c. cl_claimed_at (snd c)) (tr_pending t ch) of
        [] \<Rightarrow> 0
      | x # xs \<Rightarrow> rat_trunc ((now - fold min xs x) * 1000))"

section \<open>The bus and the worker\<close>

definition bus_publish ::
  "(agent_message \<Rightarrow> protocol_error + unit) \<Rightarrow> rat \<Rightarrow> agent_message \<Rightarrow> transport
     \<Rightarrow> (transport_error + publish_status) \<times> transport" where
  "bus_publish valid now m t =
     (case valid m of Inl e \<Rightarrow> (Inl (Rejected e), t) | Inr _ \<Rightarrow> transport_publish valid now m t)"

definition bus_receive ::
  "(agent_message \<Rightarrow> protocol_error + unit) \<Rightarrow> channel \<Rightarrow> string
     \<Rightarrow> ((transport \<Rightarrow> transport) \<times> rat \<times> string \<times> rat) list \<Rightarrow> transport
     \<Rightarrow> ((transport_error + delivery option) \<times> transport) option" where
  "bus_receive valid ch consumer wakes t =
     (case transport_receive valid ch consumer wakes t of
        Some (Inr (Some d), t1) \<Rightarrow>
          (case valid (dl_message d) of
             Inl e \<Rightarrow> Some (Inl (Rejected e), t1)
           | Inr _ \<Rightarrow> Some (Inr (Some d), t1))
      | r \<Rightarrow> r)"

record task_worker =
  tw_endpoint :: agent_endpoint
  tw_consumer :: string
  tw_max_attempts :: int
  tw_reclaim_idle_ms :: int

definition new_worker :: "agent_endpoint \<Rightarrow> string \<Rightarrow> int \<Rightarrow> int \<Rightarrow> transport_error + task_worker" where
  "new_worker endpoint consumer max_attempts reclaim_idle_ms =
     (if \<not> (1 \<le> max_attempts \<and> max_attempts \<le> 5) then Inl Bad_max_attempts
      else Inr \<lparr>tw_endpoint = endpoint, tw_consumer = consumer, tw_max_attempts = max_attempts,
                tw_reclaim_idle_ms = max 1000 reclaim_idle_ms\<rparr>)"

text \<open>Publishing the outputs stops at the first that raises; \<open>env\<close> runs before each.\<close>

fun publish_outputs ::
  "(agent_message \<Rightarrow> protocol_error + unit) \<Rightarrow> string option \<Rightarrow> rat \<Rightarrow> (transport \<Rightarrow> transport)
     \<Rightarrow> agent_message list \<Rightarrow> transport \<Rightarrow> bool \<times> transport" where
  "publish_outputs valid reply_to now env [] t = (True, t)"
| "publish_outputs valid reply_to now env (m # ms) t =
     (if (case reply_to of None \<Rightarrow> False | Some r \<Rightarrow> r \<noteq> [] \<and> am_inbox m \<noteq> Some r) then (False, t)
      else
        case bus_publish valid now m (env t) of
          (Inl e, t1) \<Rightarrow> (False, t1)
        | (Inr _, t1) \<Rightarrow> publish_outputs valid reply_to now env ms t1)"

datatype work_result = Work_idle | Work_acked | Work_retry | Work_dlq

definition work_of :: "(transport_error + disposition) \<times> transport \<Rightarrow> (transport_error + work_result) \<times> transport" where
  "work_of r =
     (case r of
        (Inl e, t) \<Rightarrow> (Inl e, t)
      | (Inr Retried, t) \<Rightarrow> (Inr Work_retry, t)
      | (Inr Dead_lettered, t) \<Rightarrow> (Inr Work_dlq, t))"

text \<open>
  What \<open>run_once\<close> does with the delivery it got. \<open>handler\<close> answers the outputs or raises; \<open>code\<close>
  is \<open>stable_tool_error\<close> of whatever was raised.
\<close>

definition handle_delivery ::
  "task_worker \<Rightarrow> (agent_message \<Rightarrow> protocol_error + unit) \<Rightarrow> (agent_message \<Rightarrow> agent_message list option)
     \<Rightarrow> string \<Rightarrow> rat \<Rightarrow> instant \<Rightarrow> (transport \<Rightarrow> transport) \<Rightarrow> delivery \<Rightarrow> transport
     \<Rightarrow> (transport_error + work_result) \<times> transport" where
  "handle_delivery w valid handler code now wall env d t =
     (if tw_max_attempts w < dl_count d
      then work_of (transport_retry d ''DELIVERY_LIMIT_EXCEEDED'' (tw_max_attempts w) wall t)
      else
        case handler (dl_message d) of
          None \<Rightarrow> work_of (transport_retry d code (tw_max_attempts w) wall (env t))
        | Some outputs \<Rightarrow>
            (case publish_outputs valid (am_reply_to (dl_message d)) now env outputs (env t) of
               (False, t1) \<Rightarrow> work_of (transport_retry d code (tw_max_attempts w) wall t1)
             | (True, t1) \<Rightarrow>
                 (case transport_acknowledge d (env t1) of
                    (True, t2) \<Rightarrow> (Inr Work_acked, t2)
                  | (False, t2) \<Rightarrow> (Inr Work_retry, t2))))"

definition run_once ::
  "task_worker \<Rightarrow> (agent_message \<Rightarrow> protocol_error + unit) \<Rightarrow> (agent_message \<Rightarrow> agent_message list option)
     \<Rightarrow> string \<Rightarrow> rat \<Rightarrow> instant \<Rightarrow> (transport \<Rightarrow> transport)
     \<Rightarrow> ((transport \<Rightarrow> transport) \<times> rat \<times> string \<times> rat) list \<Rightarrow> transport
     \<Rightarrow> ((transport_error + work_result) \<times> transport) option" where
  "run_once w valid handler code now wall env wakes t =
     (let ch = (tw_endpoint w, None);
          (reclaimed, t1) = transport_reclaim ch (tw_consumer w) (tw_reclaim_idle_ms w) 1 now t
      in case reclaimed of
           d # _ \<Rightarrow> Some (handle_delivery w valid handler code now wall env d t1)
         | [] \<Rightarrow>
             (case bus_receive valid ch (tw_consumer w) wakes t1 of
                None \<Rightarrow> None
              | Some (Inl e, t2) \<Rightarrow> Some (Inl e, t2)
              | Some (Inr None, t2) \<Rightarrow> Some (Inr Work_idle, t2)
              | Some (Inr (Some d), t2) \<Rightarrow> Some (handle_delivery w valid handler code now wall env d t2)))"

end
