(* ===== verification/Transport_Properties.thy ===== *)
theory Transport_Properties
  imports Transport Protocol_Properties
begin

text \<open>
  No message of a channel is lost but by an acknowledgement, by the refusal of the router after
  it was taken off the queue, or by the bound on dead letters; retries stay within the attempt
  limit of the envelope; a worker accounts for the delivery it handled.
\<close>

section \<open>What a channel holds\<close>

definition queued_ids :: "channel \<Rightarrow> transport \<Rightarrow> string multiset" where
  "queued_ids ch t = mset (map am_message_id (tr_queues t ch))"

definition claimed_ids :: "channel \<Rightarrow> transport \<Rightarrow> string multiset" where
  "claimed_ids ch t = image_mset (\<lambda>c. am_message_id (dl_message (cl_delivery c))) (mset (map snd (tr_pending t ch)))"

definition dead_ids :: "channel \<Rightarrow> transport \<Rightarrow> string multiset" where
  "dead_ids ch t = mset (map (\<lambda>d. am_message_id (dd_message d)) (tr_dead t ch))"

definition channel_ids :: "channel \<Rightarrow> transport \<Rightarrow> string multiset" where
  "channel_ids ch t = queued_ids ch t + claimed_ids ch t + dead_ids ch t"

lemmas channel_defs = channel_ids_def queued_ids_def claimed_ids_def dead_ids_def




section \<open>Operations as data\<close>














definition example_channel :: channel where
  "example_channel = channel_of example_request"

definition example_transport :: transport where
  "example_transport = (new_transport 60 100)\<lparr>tr_queues := (\<lambda>ch. if ch = example_channel then [example_request] else [])\<rparr>"

definition example_delivery :: delivery where
  "example_delivery = \<lparr>dl_message = example_request, dl_receipt = ''r1'', dl_consumer = ''w1'',
     dl_count = 1, dl_reclaimed = False, dl_idle_ms = 0\<rparr>"



text \<open>
  a message that the router refuses when it is received (one that expired while it waited,
  for instance) is gone: it has left the queue and is neither claimed nor among the dead letters.
\<close>

theorem refused_message_is_lost:
  assumes "tr_queues t ch = m # ms" and "valid m = Inl e"
  shows "transport_receive valid ch consumer ((id, remaining, receipt, now) # wakes) t
           = Some (Inl (Rejected e), t\<lparr>tr_queues := (tr_queues t)(ch := ms)\<rparr>)
       \<and> channel_ids ch t
           = add_mset (am_message_id m) (channel_ids ch (t\<lparr>tr_queues := (tr_queues t)(ch := ms)\<rparr>))"
  using assms by (simp add: receive_pass_def channel_defs)

theorem refused_message_is_lost_witness:
  "\<exists>t'. transport_receive (\<lambda>_. Inl Message_expired) example_channel ''w1'' [(id, 1, ''r1'', 0)] example_transport
      = Some (Inl (Rejected Message_expired), t') \<and> channel_ids example_channel t' = {#}"
  using refused_message_is_lost [of example_transport example_channel example_request "[]"
      "\<lambda>_. Inl Message_expired" Message_expired "''w1''" 1 "''r1''" 0 "[]"]
  by (simp add: example_transport_def new_transport_def channel_defs)

text \<open>
  retries are bounded: a message goes back to the queue only below the limit, with its
  attempt raised by one to at most that limit (hence at most five, what the envelope allows);
  at the limit it becomes a dead letter under its error code.
\<close>

theorem retry_within_attempt_limit:
  assumes "transport_retry d code n wall t = (Inr r, t')"
  shows "1 \<le> n \<and> n \<le> 5
       \<and> (r = Retried \<longrightarrow> am_attempt (dl_message d) + 1 \<le> n \<and> dl_count d < n
            \<and> last (tr_queues t' (channel_of (dl_message d)))
              = (dl_message d)\<lparr>am_attempt := am_attempt (dl_message d) + 1\<rparr>)
       \<and> (r = Dead_lettered \<longrightarrow> n \<le> max (am_attempt (dl_message d)) (dl_count d)
            \<and> (0 < tr_max t \<longrightarrow> dd_message (last (tr_dead t' (channel_of (dl_message d)))) = dl_message d))"
  using assms
  by (auto simp: transport_retry_def Let_def dead_letter_payload_def last_n_snoc
      split: if_splits option.splits)

theorem retry_within_attempt_limit_witness:
  "\<exists>t'. transport_retry example_delivery ''X'' 3 0
      (snd (receive_pass (\<lambda>_. Inr ()) example_channel ''w1'' ''r1'' 0 example_transport)) = (Inr Retried, t')
     \<and> am_attempt (dl_message example_delivery) + 1 \<le> 3"
proof -
  have attempt: "am_attempt example_request = 1"
    using build_message_Inr [OF example_request_built] by blast
  obtain t' where t': "transport_retry example_delivery ''X'' 3 0
      (snd (receive_pass (\<lambda>_. Inr ()) example_channel ''w1'' ''r1'' 0 example_transport)) = (Inr Retried, t')"
    by (simp add: receive_pass_def Let_def transport_retry_def example_transport_def new_transport_def
        example_delivery_def example_channel_def attempt)
  from retry_within_attempt_limit [OF t'] t' show ?thesis by blast
qed

end
