(* ===== verification/Route_Optimizer.thy ===== *)
theory Route_Optimizer
  imports Tools
begin

text \<open>
  \<open>services/route_optimizer.py\<close>: the evaluation of one visiting order against the hard
  constraints and the soft objectives, the comparison of evaluations, the beam search, and the
  joint optimisation that enumerates small problems exactly. The data are those of
  \<open>schemas/ai_intent.py\<close> that the optimiser reads. A conflict message is a constructor of
  \<open>conflict\<close> or \<open>soft_penalty\<close> with the task it names. The OR-Tools model is a parameter: the
  solution it returned, if any.
\<close>

section \<open>Data\<close>

datatype transport_mode = Walking | Driving | Transit | Cycling
datatype optimization_goal = Balanced | Shortest_time | Shortest_distance
datatype travel_style = Style_balanced | Relaxed | Intensive

record objective_weights =
  w_travel_time :: rat
  w_walking_time :: rat
  w_distance :: rat
  w_low_rating :: rat
  w_uncertainty :: rat
  w_change :: rat
  w_monetary_cost :: rat

record planning_preferences =
  pp_goal :: optimization_goal
  pp_style :: travel_style
  pp_minimize_distance :: bool
  pp_minimize_walking :: bool
  pp_minimize_cost :: bool
  pp_prefer_high_rating :: bool
  pp_weights :: objective_weights

record planning_task =
  pt_description :: string
  pt_location_name :: "string option"
  pt_category :: "string option"
  pt_required :: bool
  pt_service_minutes :: int
  pt_min_service_minutes :: "int option"
  pt_earliest :: "instant option"
  pt_deadline :: "instant option"
  pt_min_rating :: "rat option"
  pt_max_cost :: "rat option"
  pt_require_open :: bool
  pt_require_accessible :: bool
  pt_appointment :: "instant option"

record hard_constraints =
  hc_latest_return :: "instant option"
  hc_max_walking :: "rat option"
  hc_max_duration :: "int option"
  hc_max_cost :: "rat option"
  hc_return_to_origin :: bool
  hc_task_order :: "int list"
  hc_max_detour :: "rat option"
  hc_avoid_areas :: "string list"
  hc_must_pass :: "string list"
  hc_allowed_districts :: "string list"
  hc_accessible :: bool
  hc_wheelchair_users :: int
  hc_transport_budget :: "rat option"
  hc_dining_budget :: "rat option"
  hc_ticket_budget :: "rat option"

record route_edge =
  re_duration :: rat
  re_distance :: rat
  re_confidence :: rat

type_synonym route_matrix = "route_edge list list"

record candidate_node =
  cn_task :: int
  cn_rank :: int
  cn_matrix :: int
  cn_rating :: "rat option"
  cn_confidence :: rat
  cn_cost :: "rat option"
  cn_open :: "bool option"
  cn_accessible :: "bool option"
  cn_district :: "string option"

datatype conflict =
    Order_violated | Appointment_missed int | Deadline_missed int | Rating_too_low int | Closed int
  | No_accessibility_data int | District_not_allowed int | Area_avoided int | Stop_too_expensive int
  | Duration_exceeded | Return_too_late | Walking_exceeded | Cost_unknown | Cost_exceeded
  | No_district_data | Areas_not_covered "string list" | Detour_exceeded

datatype soft_penalty = No_detour_baseline | No_budget_split_data | Budget_split_unreliable

record score_breakdown =
  sb_travel_time :: rat
  sb_walking_time :: rat
  sb_distance :: rat
  sb_low_rating :: rat
  sb_uncertainty :: rat
  sb_monetary_cost :: rat
  sb_change :: rat
  sb_total :: rat

record route_evaluation =
  ev_order :: "int list"
  ev_nodes :: "candidate_node list"
  ev_arrivals :: "instant list"
  ev_departures :: "instant list"
  ev_distance :: rat
  ev_seconds :: rat
  ev_feasible :: bool
  ev_conflicts :: "conflict list"
  ev_soft :: "soft_penalty list"
  ev_cost :: rat
  ev_score :: score_breakdown

section \<open>Python's indexing\<close>

definition py_nth :: "'a list \<Rightarrow> int \<Rightarrow> 'a res" where
  "py_nth xs i =
     (let j = (if i < 0 then i + int (length xs) else i)
      in if 0 \<le> j \<and> j < int (length xs) then Inr (xs ! nat j) else Inl IndexError)"

definition edge_at :: "route_matrix \<Rightarrow> int \<Rightarrow> int \<Rightarrow> route_edge res" where
  "edge_at m i j = res_bind (py_nth m i) (\<lambda>row. py_nth row j)"

fun index_of :: "int list \<Rightarrow> int \<Rightarrow> nat" where
  "index_of [] x = 0"
| "index_of (y # ys) x = (if y = x then 0 else Suc (index_of ys x))"

definition last_index :: "int list \<Rightarrow> int \<Rightarrow> int" where
  "last_index xs x = int (length xs) - 1 - int (index_of (rev xs) x)"

text \<open>\<open>x or d\<close> on an optional number: both \<open>None\<close> and zero give the default.\<close>

definition rat_or :: "rat option \<Rightarrow> rat \<Rightarrow> rat" where
  "rat_or x d = (case x of None \<Rightarrow> d | Some v \<Rightarrow> if v = 0 then d else v)"

section \<open>Evaluation of one order\<close>

definition relative_order_satisfied :: "int list \<Rightarrow> int list \<Rightarrow> bool" where
  "relative_order_satisfied order required =
     (let present = filter (\<lambda>x. x \<in> set order) required
      in present = sort_key (index_of order) present)"

text \<open>The variables of the loop over the stops.\<close>

record walk =
  wk_cursor :: instant
  wk_previous :: int
  wk_arrivals :: "instant list"
  wk_departures :: "instant list"
  wk_conflicts :: "conflict list"
  wk_nodes :: "candidate_node list"
  wk_distance :: rat
  wk_seconds :: rat
  wk_confidence_penalty :: rat
  wk_rating_penalty :: rat
  wk_cost :: rat
  wk_cost_unknown :: bool
  wk_districts :: "string list"

definition only_if :: "bool \<Rightarrow> 'a \<Rightarrow> 'a list" where
  "only_if b x = (if b then [x] else [])"

definition has_text :: "string option \<Rightarrow> bool" where
  "has_text x = (case x of None \<Rightarrow> False | Some s \<Rightarrow> s \<noteq> [])"

definition requires_accessible :: "planning_task \<Rightarrow> hard_constraints \<Rightarrow> bool" where
  "requires_accessible t c \<longleftrightarrow> pt_require_accessible t \<or> hc_accessible c \<or> 0 < hc_wheelchair_users c"

text \<open>The arrival at a stop: the appointment and the earliest arrival hold the traveller back.\<close>

definition arrival_at :: "planning_task \<Rightarrow> instant \<Rightarrow> instant" where
  "arrival_at t reached =
     (let c1 = (case pt_appointment t of Some a \<Rightarrow> if reached < a then a else reached | None \<Rightarrow> reached)
      in case pt_earliest t of Some e \<Rightarrow> if c1 < e then e else c1 | None \<Rightarrow> c1)"

definition service_minutes :: "planning_task \<Rightarrow> int" where
  "service_minutes t =
     max (pt_service_minutes t) (case pt_min_service_minutes t of None \<Rightarrow> 0 | Some m \<Rightarrow> m)"

definition stop_conflicts ::
  "hard_constraints \<Rightarrow> int \<Rightarrow> int \<Rightarrow> planning_task \<Rightarrow> candidate_node \<Rightarrow> instant \<Rightarrow> instant \<Rightarrow> conflict list" where
  "stop_conflicts c buffer i t n reached arrival =
     only_if (case pt_appointment t of Some a \<Rightarrow> a < reached | None \<Rightarrow> False) (Appointment_missed i)
   @ only_if (case pt_deadline t of Some d \<Rightarrow> d - buffer < arrival | None \<Rightarrow> False) (Deadline_missed i)
   @ only_if (case pt_min_rating t of
             Some m \<Rightarrow> (case cn_rating n of None \<Rightarrow> True | Some r \<Rightarrow> r < m)
           | None \<Rightarrow> False) (Rating_too_low i)
   @ only_if (pt_require_open t \<and> cn_open n = Some False) (Closed i)
   @ only_if (requires_accessible t c \<and> cn_accessible n \<noteq> Some True) (No_accessibility_data i)
   @ only_if (hc_allowed_districts c \<noteq> []
           \<and> (case cn_district n of None \<Rightarrow> True | Some d \<Rightarrow> d \<notin> set (hc_allowed_districts c)))
       (District_not_allowed i)
   @ only_if (case cn_district n of None \<Rightarrow> False
           | Some d \<Rightarrow> d \<noteq> [] \<and> list_ex (\<lambda>area. contains area d) (hc_avoid_areas c)) (Area_avoided i)
   @ only_if (case (cn_cost n, pt_max_cost t) of (Some x, Some m) \<Rightarrow> m < x | _ \<Rightarrow> False)
       (Stop_too_expensive i)"

definition visit_stop ::
  "hard_constraints \<Rightarrow> int \<Rightarrow> planning_task \<Rightarrow> candidate_node \<Rightarrow> route_edge \<Rightarrow> int \<Rightarrow> walk \<Rightarrow> walk" where
  "visit_stop c buffer t n e i w =
     (let reached = wk_cursor w + td_seconds (re_duration e);
          arrival = arrival_at t reached;
          left = arrival + td_minutes (service_minutes t)
      in \<lparr>wk_cursor = left, wk_previous = cn_matrix n,
          wk_arrivals = wk_arrivals w @ [arrival], wk_departures = wk_departures w @ [left],
          wk_conflicts = wk_conflicts w @ stop_conflicts c buffer i t n reached arrival,
          wk_nodes = wk_nodes w @ [n],
          wk_distance = wk_distance w + re_distance e,
          wk_seconds = wk_seconds w + re_duration e,
          wk_confidence_penalty =
            wk_confidence_penalty w + (1 - min (re_confidence e) (cn_confidence n)),
          wk_rating_penalty = wk_rating_penalty w + max 0 (5 - rat_or (cn_rating n) 3),
          wk_cost = wk_cost w + (case cn_cost n of None \<Rightarrow> 0 | Some x \<Rightarrow> x),
          wk_cost_unknown = (wk_cost_unknown w \<or> cn_cost n = None),
          wk_districts = wk_districts w @ (case cn_district n of
              Some d \<Rightarrow> only_if (d \<noteq> []) d | None \<Rightarrow> [])\<rparr>)"

type_synonym selection = "(int, candidate_node) dict"

fun walk_order ::
  "hard_constraints \<Rightarrow> int \<Rightarrow> planning_task list \<Rightarrow> route_matrix \<Rightarrow> selection \<Rightarrow> int list \<Rightarrow> walk \<Rightarrow> walk res" where
  "walk_order c buffer tasks m sel [] w = Inr w"
| "walk_order c buffer tasks m sel (i # js) w =
     (case dget sel i of
        None \<Rightarrow> Inl KeyError
      | Some n \<Rightarrow>
          res_bind (edge_at m (wk_previous w) (cn_matrix n)) (\<lambda>e.
          res_bind (py_nth tasks i) (\<lambda>t.
            walk_order c buffer tasks m sel js (visit_stop c buffer t n e i w))))"

definition start_walk :: "hard_constraints \<Rightarrow> int list \<Rightarrow> instant \<Rightarrow> walk" where
  "start_walk c order departure =
     \<lparr>wk_cursor = departure, wk_previous = 0, wk_arrivals = [], wk_departures = [],
      wk_conflicts = only_if (hc_task_order c \<noteq> [] \<and> \<not> relative_order_satisfied order (hc_task_order c))
        Order_violated,
      wk_nodes = [], wk_distance = 0, wk_seconds = 0, wk_confidence_penalty = 0,
      wk_rating_penalty = 0, wk_cost = 0, wk_cost_unknown = False, wk_districts = []\<rparr>"

text \<open>The way back to the origin, when it is asked for and a stop was visited.\<close>

definition return_leg :: "hard_constraints \<Rightarrow> route_matrix \<Rightarrow> walk \<Rightarrow> walk res" where
  "return_leg c m w =
     (if hc_return_to_origin c \<and> wk_nodes w \<noteq> [] then
        res_bind (edge_at m (wk_previous w) 0) (\<lambda>e. Inr
          (w\<lparr>wk_seconds := wk_seconds w + re_duration e,
             wk_distance := wk_distance w + re_distance e,
             wk_cursor := wk_cursor w + td_seconds (re_duration e),
             wk_confidence_penalty := wk_confidence_penalty w + (1 - re_confidence e)\<rparr>))
      else Inr w)"

definition missing_areas :: "string list \<Rightarrow> string list \<Rightarrow> string list" where
  "missing_areas areas districts =
     filter (\<lambda>area. \<not> list_ex (\<lambda>d. contains area d) districts) areas"

definition trip_conflicts ::
  "hard_constraints \<Rightarrow> int \<Rightarrow> transport_mode \<Rightarrow> instant \<Rightarrow> rat option \<Rightarrow> walk \<Rightarrow> conflict list" where
  "trip_conflicts c buffer mode departure baseline w =
     only_if (case hc_max_duration c of
             Some m \<Rightarrow> of_int m < (of_int (wk_cursor w - departure) :: rat) / 60000000
           | None \<Rightarrow> False) Duration_exceeded
   @ only_if (case hc_latest_return c of Some r \<Rightarrow> r - buffer < wk_cursor w | None \<Rightarrow> False) Return_too_late
   @ only_if (case hc_max_walking c of
             Some m \<Rightarrow> mode = Walking \<and> m < wk_distance w | None \<Rightarrow> False) Walking_exceeded
   @ (case hc_max_cost c of
        None \<Rightarrow> []
      | Some m \<Rightarrow> if wk_cost_unknown w then [Cost_unknown] else only_if (m < wk_cost w) Cost_exceeded)
   @ (if hc_must_pass c = [] then []
      else if wk_districts w = [] then [No_district_data]
      else let missing = missing_areas (hc_must_pass c) (wk_districts w)
           in only_if (missing \<noteq> []) (Areas_not_covered missing))
   @ (case (hc_max_detour c, baseline) of
        (Some m, Some b) \<Rightarrow> only_if (m < max 0 (wk_distance w - b)) Detour_exceeded
      | _ \<Rightarrow> [])"

definition soft_penalties :: "hard_constraints \<Rightarrow> rat option \<Rightarrow> walk \<Rightarrow> soft_penalty list" where
  "soft_penalties c baseline w =
     only_if (hc_max_detour c \<noteq> None \<and> baseline = None) No_detour_baseline
   @ (if hc_transport_budget c \<noteq> None \<or> hc_dining_budget c \<noteq> None \<or> hc_ticket_budget c \<noteq> None
      then [if wk_cost_unknown w then No_budget_split_data else Budget_split_unreliable] else [])"

fun count_disagreements :: "int list \<Rightarrow> int list \<Rightarrow> int list \<Rightarrow> nat" where
  "count_disagreements order prev [] = 0"
| "count_disagreements order prev (left # rest) =
     length (filter (\<lambda>right. (last_index order left - last_index order right)
                 * (last_index prev left - last_index prev right) < 0) rest)
     + count_disagreements order prev rest"

definition change_component :: "int list \<Rightarrow> int list option \<Rightarrow> rat" where
  "change_component order previous_order =
     (case previous_order of
        None \<Rightarrow> 0
      | Some prev \<Rightarrow>
          if prev = [] then 0
          else of_nat (count_disagreements order prev (filter (\<lambda>x. x \<in> set prev) order)) * 120)"

definition score_of ::
  "planning_preferences \<Rightarrow> transport_mode \<Rightarrow> int list \<Rightarrow> int list option \<Rightarrow> soft_penalty list \<Rightarrow> walk
     \<Rightarrow> score_breakdown" where
  "score_of p mode order previous_order soft w =
     (let ws = pp_weights p;
          relaxed = (if pp_style p = Relaxed then 3 / 2 else 1);
          distance_weight = w_distance ws * (if pp_minimize_distance p then 2 else 1) * relaxed;
          walking_weight = w_walking_time ws * (if pp_minimize_walking p then 2 else 1) * relaxed;
          rating_weight = w_low_rating ws * (if pp_prefer_high_rating p then 2 else 1);
          travel = wk_seconds w * w_travel_time ws;
          walking = (if mode = Walking then wk_seconds w else 0) * walking_weight;
          distance = wk_distance w / 10 * distance_weight;
          rating = wk_rating_penalty w * 600 * rating_weight;
          uncertainty = wk_confidence_penalty w * 600 * w_uncertainty ws;
          money = wk_cost w * 60 * w_monetary_cost ws * (if pp_minimize_cost p then 2 else 1);
          change = change_component order previous_order * w_change ws
      in \<lparr>sb_travel_time = travel, sb_walking_time = walking, sb_distance = distance,
          sb_low_rating = rating, sb_uncertainty = uncertainty, sb_monetary_cost = money,
          sb_change = change,
          sb_total = travel + walking + distance + rating + uncertainty + money + change
            + 180 * of_nat (length soft)\<rparr>)"

definition evaluate_joint_order ::
  "int list \<Rightarrow> selection \<Rightarrow> instant \<Rightarrow> planning_task list \<Rightarrow> route_matrix \<Rightarrow> planning_preferences
     \<Rightarrow> hard_constraints \<Rightarrow> transport_mode \<Rightarrow> int \<Rightarrow> int list option \<Rightarrow> rat option
     \<Rightarrow> route_evaluation res" where
  "evaluate_joint_order order sel departure tasks m p c mode buffer_minutes previous_order baseline =
     (let buffer = td_minutes (max 0 buffer_minutes)
      in res_bind (walk_order c buffer tasks m sel order (start_walk c order departure)) (\<lambda>w0.
         res_bind (return_leg c m w0) (\<lambda>w.
           let conflicts = wk_conflicts w @ trip_conflicts c buffer mode departure baseline w;
               soft = soft_penalties c baseline w;
               score = score_of p mode order previous_order soft w
           in Inr \<lparr>ev_order = order, ev_nodes = wk_nodes w, ev_arrivals = wk_arrivals w,
                   ev_departures = wk_departures w, ev_distance = wk_distance w,
                   ev_seconds = wk_seconds w, ev_feasible = (conflicts = []),
                   ev_conflicts = conflicts, ev_soft = soft, ev_cost = sb_total score,
                   ev_score = score\<rparr>)))"

section \<open>Comparing evaluations\<close>

text \<open>Python compares the tuples lexicographically, with \<open>False < True\<close>.\<close>

definition evaluation_key :: "planning_preferences \<Rightarrow> route_evaluation \<Rightarrow> rat list" where
  "evaluation_key p ev =
     [if ev_feasible ev then 0 else 1, of_nat (length (ev_conflicts ev) + length (ev_soft ev))]
     @ (case pp_goal p of
          Shortest_time \<Rightarrow> [ev_seconds ev, ev_distance ev, ev_cost ev]
        | Shortest_distance \<Rightarrow> [ev_distance ev, ev_seconds ev, ev_cost ev]
        | Balanced \<Rightarrow> [ev_cost ev, ev_distance ev, ev_seconds ev])"

section \<open>Beam search\<close>

definition task_order_allowed :: "int list \<Rightarrow> int \<Rightarrow> int list \<Rightarrow> bool" where
  "task_order_allowed prefix i required =
     (if i \<notin> set required then True
      else index_of required i = length (filter (\<lambda>x. x \<in> set required) prefix))"

record beam_state =
  bs_order :: "int list"
  bs_selected :: selection
  bs_previous :: int
  bs_score :: rat

definition beam_edge_score :: "planning_preferences \<Rightarrow> route_edge \<Rightarrow> candidate_node \<Rightarrow> rat" where
  "beam_edge_score p e n =
     (case pp_goal p of
        Shortest_distance \<Rightarrow> re_distance e
      | Shortest_time \<Rightarrow> re_duration e
      | Balanced \<Rightarrow> re_duration e + (1 - min (re_confidence e) (cn_confidence n)) * 600
          + max 0 (48 / 10 - rat_or (cn_rating n) 3) * 180 + rat_or (cn_cost n) 0 * 60)"

definition expand_node ::
  "route_matrix \<Rightarrow> planning_preferences \<Rightarrow> beam_state \<times> int \<times> candidate_node \<Rightarrow> beam_state res" where
  "expand_node m p x =
     (case x of (s, i, n) \<Rightarrow>
        res_bind (edge_at m (bs_previous s) (cn_matrix n)) (\<lambda>e. Inr
          \<lparr>bs_order = bs_order s @ [i], bs_selected = dset i n (bs_selected s),
           bs_previous = cn_matrix n, bs_score = bs_score s + beam_edge_score p e n\<rparr>))"

definition beam_choices ::
  "candidate_node list list \<Rightarrow> hard_constraints \<Rightarrow> beam_state list
     \<Rightarrow> (beam_state \<times> int \<times> candidate_node) list" where
  "beam_choices groups c states =
     concat (map (\<lambda>s. concat (map (\<lambda>(i, group).
         if i \<in> set (dkeys (bs_selected s)) \<or> \<not> task_order_allowed (bs_order s) i (hc_task_order c)
         then [] else map (\<lambda>n. (s, i, n)) group)
       (zip (map int [0..<length groups]) groups))) states)"

definition beam_step ::
  "candidate_node list list \<Rightarrow> route_matrix \<Rightarrow> planning_preferences \<Rightarrow> hard_constraints \<Rightarrow> nat
     \<Rightarrow> beam_state list \<Rightarrow> beam_state list res" where
  "beam_step groups m p c width states =
     res_bind (res_map (expand_node m p) (beam_choices groups c states)) (\<lambda>expanded.
       Inr (take width (sort_key bs_score expanded)))"

fun beam_rounds ::
  "candidate_node list list \<Rightarrow> route_matrix \<Rightarrow> planning_preferences \<Rightarrow> hard_constraints \<Rightarrow> nat
     \<Rightarrow> nat \<Rightarrow> beam_state list \<Rightarrow> beam_state list res" where
  "beam_rounds groups m p c width 0 states = Inr states"
| "beam_rounds groups m p c width (Suc k) states =
     res_bind (beam_step groups m p c width states) (beam_rounds groups m p c width k)"

definition beam_joint ::
  "candidate_node list list \<Rightarrow> route_matrix \<Rightarrow> planning_preferences \<Rightarrow> hard_constraints \<Rightarrow> nat
     \<Rightarrow> (int list \<times> selection) list res" where
  "beam_joint groups m p c width =
     res_bind (beam_rounds groups m p c width (length groups)
         [\<lparr>bs_order = [], bs_selected = [], bs_previous = 0, bs_score = 0\<rparr>])
       (\<lambda>states. Inr (map (\<lambda>s. (bs_order s, bs_selected s)) states))"

section \<open>Joint optimisation\<close>

text \<open>\<open>itertools.permutations\<close>, in its order.\<close>

fun perms :: "nat \<Rightarrow> 'a list \<Rightarrow> 'a list list" where
  "perms 0 xs = [[]]"
| "perms (Suc k) xs =
     concat (map (\<lambda>i. map (\<lambda>p. xs ! i # p) (perms k (take i xs @ drop (Suc i) xs))) [0..<length xs])"

fun factorial_loop :: "nat \<Rightarrow> nat list \<Rightarrow> nat" where
  "factorial_loop r [] = r"
| "factorial_loop r (n # ns) = factorial_loop (r * n) ns"

definition factorial_of :: "nat \<Rightarrow> nat" where
  "factorial_of v = factorial_loop 1 [2..<Suc v]"

definition exact_size :: "planning_task list \<Rightarrow> candidate_node list list \<Rightarrow> bool" where
  "exact_size tasks groups \<longleftrightarrow>
     length tasks \<le> 6 \<and>
     foldl (\<lambda>n g. n * length g) 1 groups * max 1 (factorial_of (length tasks)) \<le> 60000"

fun baseline_walk :: "route_matrix \<Rightarrow> int \<Rightarrow> rat \<Rightarrow> candidate_node list \<Rightarrow> rat res" where
  "baseline_walk m cursor d [] = Inr d"
| "baseline_walk m cursor d (n # ns) =
     res_bind (edge_at m cursor (cn_matrix n)) (\<lambda>e.
       baseline_walk m (cn_matrix n) (d + re_distance e) ns)"

definition selection_of :: "candidate_node list \<Rightarrow> selection" where
  "selection_of ns = foldl (\<lambda>d n. dset (cn_task n) n d) [] ns"

definition exact_candidates :: "nat \<Rightarrow> candidate_node list list \<Rightarrow> (int list \<times> selection) list" where
  "exact_candidates task_count groups =
     concat (map (\<lambda>ns. map (\<lambda>order. (order, selection_of ns)) (perms task_count (map int [0..<task_count])))
       (product_lists groups))"

definition fixed_user_order :: "hard_constraints \<Rightarrow> nat \<Rightarrow> bool" where
  "fixed_user_order c task_count \<longleftrightarrow>
     length (hc_task_order c) = task_count \<and> set (hc_task_order c) = set (map int [0..<task_count])"

datatype algorithm = Joint_exact | Ortools optimization_goal | Ordered_beam | Beam_fallback

definition optimize_joint_route ::
  "instant \<Rightarrow> planning_task list \<Rightarrow> candidate_node list list \<Rightarrow> route_matrix \<Rightarrow> planning_preferences
     \<Rightarrow> hard_constraints \<Rightarrow> transport_mode \<Rightarrow> int \<Rightarrow> int list option \<Rightarrow> (int list \<times> selection) option
     \<Rightarrow> (route_evaluation \<times> algorithm) res" where
  "optimize_joint_route departure tasks groups m p c mode buffer previous_order ortools =
     res_bind (baseline_walk m 0 0 (map hd (filter (\<lambda>g. g \<noteq> []) groups))) (\<lambda>baseline.
       let task_count = length tasks;
           evaluate = (\<lambda>(order, sel). evaluate_joint_order order sel departure tasks m p c mode buffer
                         previous_order (Some baseline));
           solution = (if fixed_user_order c task_count then None else ortools);
           plan = (if exact_size tasks groups then Inr (exact_candidates task_count groups, Joint_exact)
                   else case solution of
                       Some s \<Rightarrow> Inr ([s], Ortools (pp_goal p))
                     | None \<Rightarrow> res_bind (beam_joint groups m p c 250) (\<lambda>cs.
                         Inr (cs, if fixed_user_order c task_count then Ordered_beam else Beam_fallback)))
       in res_bind plan (\<lambda>(candidates, alg).
          res_bind (res_map evaluate candidates) (\<lambda>evaluations.
            if evaluations = [] then Inl (ValueError ''no candidate for the joint solver'')
            else Inr (arg_min_list (evaluation_key p) evaluations, alg))))"

text \<open>The single-candidate entry point, with the default preferences and constraints.\<close>

definition default_weights :: objective_weights where
  "default_weights = \<lparr>w_travel_time = 1, w_walking_time = 6 / 10, w_distance = 15 / 100,
     w_low_rating = 35 / 100, w_uncertainty = 8 / 10, w_change = 1 / 2, w_monetary_cost = 4 / 10\<rparr>"

definition default_preferences :: planning_preferences where
  "default_preferences = \<lparr>pp_goal = Balanced, pp_style = Style_balanced, pp_minimize_distance = False,
     pp_minimize_walking = False, pp_minimize_cost = False, pp_prefer_high_rating = False,
     pp_weights = default_weights\<rparr>"

definition no_constraints :: hard_constraints where
  "no_constraints = \<lparr>hc_latest_return = None, hc_max_walking = None, hc_max_duration = None,
     hc_max_cost = None, hc_return_to_origin = False, hc_task_order = [], hc_max_detour = None,
     hc_avoid_areas = [], hc_must_pass = [], hc_allowed_districts = [], hc_accessible = False,
     hc_wheelchair_users = 0, hc_transport_budget = None, hc_dining_budget = None,
     hc_ticket_budget = None\<rparr>"

definition optimize_route ::
  "instant \<Rightarrow> planning_task list \<Rightarrow> rat list list \<Rightarrow> rat list list \<Rightarrow> (int list \<times> selection) option
     \<Rightarrow> (route_evaluation \<times> algorithm) res" where
  "optimize_route departure tasks distances durations ortools =
     res_bind (res_map (\<lambda>(i, row). res_map (\<lambda>j.
         res_bind (py_nth row (int j)) (\<lambda>d.
         res_bind (res_bind (py_nth durations (int i)) (\<lambda>r. py_nth r (int j))) (\<lambda>t.
           Inr \<lparr>re_duration = t, re_distance = d, re_confidence = 1 / 2\<rparr>))) [0..<length row])
       (zip [0..<length distances] distances)) (\<lambda>m.
       optimize_joint_route departure tasks
         (map (\<lambda>i. [\<lparr>cn_task = int i, cn_rank = 0, cn_matrix = int i + 1, cn_rating = None,
                 cn_confidence = 1 / 2, cn_cost = None, cn_open = None, cn_accessible = None,
                 cn_district = None\<rparr>]) [0..<length tasks])
         m default_preferences no_constraints Walking 0 None ortools)"

end
