(* ===== verification/Plan_Patch.thy ===== *)
theory Plan_Patch
  imports Trip Route_Optimizer
begin

text \<open>
  Patches of a formal plan: the structural edit of the stops and the recalculation that decides
  whether the edited plan is feasible (\<open>services/plan_patch_validator.py\<close>). The stored snapshot is
  a record of the members these functions read or write; \<open>None\<close> is an absent member. The map
  provider is a parameter, and so is the text of a conflict message, of which the code asks only
  whether it contains a task's description.
\<close>

section \<open>The snapshot of a plan\<close>

record coordinate =
  co_lng :: rat
  co_lat :: rat

definition coordinate_ok :: "coordinate \<Rightarrow> bool" where
  "coordinate_ok c \<longleftrightarrow> - 180 \<le> co_lng c \<and> co_lng c \<le> 180 \<and> - 90 \<le> co_lat c \<and> co_lat c \<le> 90"

record poi =
  poi_id :: "string option"
  poi_name :: "string option"
  poi_location :: "coordinate option"
  poi_rating :: "rat option"
  poi_confidence :: "rat option"
  poi_source :: "string option"
  poi_district :: "string option"
  poi_open :: "bool option"
  poi_accessible :: "bool option"
  poi_cost :: "rat option"
  poi_outdoor :: "bool option"

record planned_stop =
  ps_task_index :: int
  ps_rank :: "int option"
  ps_task :: planning_task
  ps_poi :: poi
  ps_arrival :: "instant option"
  ps_departure :: "instant option"
  ps_travel :: "route_edge option"
  ps_satisfied :: "bool option"

record plan_intent =
  in_mode :: "transport_mode option"
  in_tasks :: "planning_task list"
  in_preferences :: planning_preferences
  in_hard :: hard_constraints
  in_buffers :: "int list"

record snapshot =
  sn_stops :: "planned_stop list"
  sn_intent :: plan_intent
  sn_origin :: "coordinate option"
  sn_departure :: "instant option"
  sn_distance :: rat
  sn_seconds :: rat
  sn_cost :: rat
  sn_confidence :: rat
  sn_algorithm :: string

section \<open>Operations of a patch\<close>

text \<open>
  A replacement as the patch carries it: the POI and the task may be missing. A departure time is
  what \<open>datetime.fromisoformat\<close> makes of the text.
\<close>

record replacement =
  rp_poi :: "poi option"
  rp_task :: "planning_task option"
  rp_rank :: "int option"

datatype departure_text = No_departure | Not_iso | Naive instant | Aware instant

datatype patch_operation =
    Remove_stop "string option"
  | Move_stop "int option" "int option"
  | Replace_stop "string option" "replacement option"
  | Change_transport_mode "transport_mode option"
  | Change_departure_time departure_text

text \<open>\<open>next((i for i, stop in enumerate(stops) if stop["poi"]["id"] == stop_id), None)\<close>.\<close>

fun find_stop :: "string option \<Rightarrow> planned_stop list \<Rightarrow> nat option res" where
  "find_stop sid [] = Inr None"
| "find_stop sid (st # sts) =
     (case poi_id (ps_poi st) of
        None \<Rightarrow> Inl KeyError
      | Some i \<Rightarrow> if sid = Some i then Inr (Some 0)
                 else res_bind (find_stop sid sts) (\<lambda>r. Inr (map_option Suc r)))"

definition remove_at :: "nat \<Rightarrow> 'a list \<Rightarrow> 'a list" where
  "remove_at i xs = take i xs @ drop (Suc i) xs"

text \<open>\<open>list.pop(i)\<close> and \<open>list.insert(i, x)\<close>: negative positions count from the end.\<close>

definition py_pop :: "int \<Rightarrow> 'a list \<Rightarrow> ('a \<times> 'a list) res" where
  "py_pop i xs =
     (let j = (if i < 0 then i + int (length xs) else i)
      in if 0 \<le> j \<and> j < int (length xs) then Inr (xs ! nat j, remove_at (nat j) xs) else Inl IndexError)"

definition py_insert :: "int \<Rightarrow> 'a \<Rightarrow> 'a list \<Rightarrow> 'a list" where
  "py_insert i x xs =
     (let j = nat (if i < 0 then i + int (length xs) else i)
      in take j xs @ x # drop j xs)"

definition replace_with :: "poi \<Rightarrow> replacement \<Rightarrow> planned_stop \<Rightarrow> planned_stop" where
  "replace_with p r old =
     \<lparr>ps_task_index = ps_task_index old, ps_rank = rp_rank r, ps_task = ps_task old, ps_poi = p,
      ps_arrival = None, ps_departure = None, ps_travel = None, ps_satisfied = None\<rparr>"

definition apply_operation ::
  "patch_operation \<Rightarrow> snapshot \<times> planned_stop list \<Rightarrow> (snapshot \<times> planned_stop list) res" where
  "apply_operation op x =
     (case x of (sn, stops) \<Rightarrow>
      (case op of
         Remove_stop sid \<Rightarrow>
           res_bind (find_stop sid stops) (\<lambda>pos. case pos of
               None \<Rightarrow> Inl (AppError 422 ''PATCH_STOP_NOT_FOUND'')
             | Some i \<Rightarrow> Inr (sn, remove_at i stops))
       | Move_stop source target \<Rightarrow>
           (case (source, target) of
              (Some a, Some b) \<Rightarrow>
                if int (length stops) \<le> a \<or> int (length stops) \<le> b
                then Inl (AppError 422 ''PATCH_POSITION_INVALID'')
                else res_bind (py_pop a stops) (\<lambda>(st, rest). Inr (sn, py_insert b st rest))
            | _ \<Rightarrow> Inl (AppError 422 ''PATCH_POSITION_INVALID''))
       | Replace_stop sid rep \<Rightarrow>
           res_bind (find_stop sid stops) (\<lambda>pos. case pos of
               None \<Rightarrow> Inl (AppError 422 ''PATCH_STOP_NOT_FOUND'')
             | Some i \<Rightarrow>
                 (case rep of
                    None \<Rightarrow> Inl (AppError 422 ''PATCH_REPLACEMENT_INVALID'')
                  | Some r \<Rightarrow>
                      (case (rp_poi r, rp_task r) of
                         (Some p, Some t) \<Rightarrow> Inr (sn, stops[i := replace_with p r (stops ! i)])
                       | _ \<Rightarrow> Inl (AppError 422 ''PATCH_REPLACEMENT_INVALID''))))
       | Change_transport_mode m \<Rightarrow>
           (case m of
              None \<Rightarrow> Inl (AppError 422 ''PATCH_TRANSPORT_MODE_INVALID'')
            | Some v \<Rightarrow> Inr (sn\<lparr>sn_intent := (sn_intent sn)\<lparr>in_mode := Some v\<rparr>\<rparr>, stops))
       | Change_departure_time d \<Rightarrow>
           (case d of
              Aware t \<Rightarrow> Inr (sn\<lparr>sn_departure := Some t\<rparr>, stops)
            | _ \<Rightarrow> Inl (AppError 422 ''PATCH_DEPARTURE_TIME_INVALID''))))"

fun apply_operations ::
  "patch_operation list \<Rightarrow> snapshot \<times> planned_stop list \<Rightarrow> (snapshot \<times> planned_stop list) res" where
  "apply_operations [] x = Inr x"
| "apply_operations (op # ops) x = res_bind (apply_operation op x) (apply_operations ops)"

definition apply_patch_structure ::
  "snapshot \<Rightarrow> patch_operation list \<Rightarrow> (snapshot \<times> planned_stop list) res" where
  "apply_patch_structure sn ops =
     res_bind (apply_operations ops (sn, sn_stops sn)) (\<lambda>(sn', stops).
       if stops = [] then Inl (AppError 422 ''PATCH_EMPTY_PLAN'') else Inr (sn', stops))"

section \<open>Recalculation\<close>

text \<open>
  \<open>evaluation.conflicts\<close> lists the broken hard constraints and, after them, the soft penalties: the
  recalculation, unlike the \<open>feasible\<close> flag of the evaluation, does not tell them apart.
\<close>

datatype route_message = Hard_conflict conflict | Soft_conflict soft_penalty

definition evaluation_conflicts :: "route_evaluation \<Rightarrow> route_message list" where
  "evaluation_conflicts ev = map Hard_conflict (ev_conflicts ev) @ map Soft_conflict (ev_soft ev)"

datatype patch_conflict = Task_identity_broken | Required_removed "nat list" | Route_conflict route_message

record replan_context =
  rc_origin :: "coordinate option"
  rc_departure :: "instant option"

text \<open>The loop that identifies the task of every stop: the variables \<open>order\<close>, \<open>selected\<close>, \<open>conflicts\<close>.\<close>

definition node_of :: "planned_stop \<Rightarrow> int \<Rightarrow> candidate_node" where
  "node_of st position =
     \<lparr>cn_task = ps_task_index st, cn_rank = (case ps_rank st of None \<Rightarrow> 0 | Some r \<Rightarrow> r),
      cn_matrix = position, cn_rating = poi_rating (ps_poi st),
      cn_confidence = (case poi_confidence (ps_poi st) of None \<Rightarrow> 0 | Some c \<Rightarrow> c),
      cn_cost = poi_cost (ps_poi st), cn_open = poi_open (ps_poi st),
      cn_accessible = poi_accessible (ps_poi st), cn_district = poi_district (ps_poi st)\<rparr>"

fun collect_stops ::
  "nat \<Rightarrow> int \<Rightarrow> planned_stop list \<Rightarrow> int list \<times> selection \<times> patch_conflict list
     \<Rightarrow> int list \<times> selection \<times> patch_conflict list" where
  "collect_stops n position [] acc = acc"
| "collect_stops n position (st # sts) (order, sel, conflicts) =
     (let i = ps_task_index st
      in if \<not> (0 \<le> i \<and> i < int n) \<or> i \<in> set (dkeys sel)
         then collect_stops n (position + 1) sts (order, sel, conflicts @ [Task_identity_broken])
         else collect_stops n (position + 1) sts
                (order @ [i], dset i (node_of st position) sel, conflicts))"

definition required_missing :: "planning_task list \<Rightarrow> selection \<Rightarrow> nat list" where
  "required_missing tasks sel =
     filter (\<lambda>i. pt_required (tasks ! i) \<and> int i \<notin> set (dkeys sel)) [0..<length tasks]"

text \<open>The conflicts of the first pass: broken identities, then removed obligations.\<close>

definition identity_conflicts :: "planning_task list \<Rightarrow> planned_stop list \<Rightarrow> patch_conflict list" where
  "identity_conflicts tasks stops =
     (let (order, sel, conflicts) = collect_stops (length tasks) 1 stops ([], [], []);
          missing = required_missing tasks sel
      in conflicts @ (if missing \<noteq> [] then [Required_removed missing] else []))"

definition safety_buffer :: "int list \<Rightarrow> int" where
  "safety_buffer bs = (case bs of [] \<Rightarrow> 0 | b # rest \<Rightarrow> foldl max b rest)"

definition py_min0 :: "rat list \<Rightarrow> rat" where
  "py_min0 xs = (case xs of [] \<Rightarrow> 0 | x # rest \<Rightarrow> foldl min x rest)"

text \<open>The times, the travel and the verdict written back into one stop.\<close>

definition retime_stop ::
  "(route_message \<Rightarrow> string) \<Rightarrow> planning_task list \<Rightarrow> route_matrix \<Rightarrow> selection \<Rightarrow> route_evaluation
     \<Rightarrow> planned_stop \<Rightarrow> planned_stop res" where
  "retime_stop message tasks m sel ev st =
     (let i = ps_task_index st;
          by_task = foldl (\<lambda>d (k, n). dset (cn_task n) k d) []
                      (zip [0..<length (ev_nodes ev)] (ev_nodes ev))
      in case (dget by_task i, dget sel i) of
           (Some k, Some n) \<Rightarrow>
             res_bind (if k = 0 then Inr 0
                       else res_bind (py_nth (ev_order ev) (int k - 1)) (\<lambda>j.
                         case dget sel j of None \<Rightarrow> Inl KeyError | Some p \<Rightarrow> Inr (cn_matrix p)))
               (\<lambda>row. res_bind (edge_at m row (cn_matrix n)) (\<lambda>edge.
                res_bind (py_nth (ev_arrivals ev) (int k)) (\<lambda>arrival.
                res_bind (py_nth (ev_departures ev) (int k)) (\<lambda>left.
                res_bind (py_nth tasks i) (\<lambda>t.
                  Inr (st\<lparr>ps_arrival := Some arrival, ps_departure := Some left,
                          ps_travel := Some edge,
                          ps_satisfied := Some (\<not> list_ex (\<lambda>c. contains (pt_description t) (message c))
                                                     (evaluation_conflicts ev))\<rparr>))))))
         | _ \<Rightarrow> Inl KeyError)"

definition stop_cost :: "planned_stop \<Rightarrow> rat" where
  "stop_cost st = (case poi_cost (ps_poi st) of None \<Rightarrow> 0 | Some c \<Rightarrow> c)"

definition travel_confidence :: "planned_stop \<Rightarrow> rat" where
  "travel_confidence st = (case ps_travel st of None \<Rightarrow> 0 | Some e \<Rightarrow> re_confidence e)"

definition located :: "planned_stop \<Rightarrow> coordinate res" where
  "located st =
     (case poi_location (ps_poi st) of
        None \<Rightarrow> Inl KeyError
      | Some c \<Rightarrow> if coordinate_ok c then Inr c else Inl (ValueError ''coordinate''))"

type_synonym map_provider = "coordinate list \<Rightarrow> transport_mode \<Rightarrow> route_matrix res"

definition recalculate_and_validate_snapshot ::
  "map_provider \<Rightarrow> (route_message \<Rightarrow> string) \<Rightarrow> snapshot \<Rightarrow> planned_stop list \<Rightarrow> replan_context option
     \<Rightarrow> (snapshot \<times> patch_conflict list) res" where
  "recalculate_and_validate_snapshot provider message sn stops context =
     (let origin = (case context of
            Some c \<Rightarrow> (case rc_origin c of Some x \<Rightarrow> Some x | None \<Rightarrow> sn_origin sn) | None \<Rightarrow> sn_origin sn);
          leaving = (case context of
            Some c \<Rightarrow> (case rc_departure c of Some x \<Rightarrow> Some x | None \<Rightarrow> sn_departure sn)
          | None \<Rightarrow> sn_departure sn)
      in case (origin, leaving) of
           (Some o_pos, Some departure) \<Rightarrow>
             (case in_mode (sn_intent sn) of
                None \<Rightarrow> Inl KeyError
              | Some mode \<Rightarrow>
                  res_bind (require (coordinate_ok o_pos) (ValueError ''coordinate'')) (\<lambda>_.
                  res_bind (res_map located stops) (\<lambda>places.
                  res_bind (provider (o_pos # places) mode) (\<lambda>m.
                    let tasks = in_tasks (sn_intent sn);
                        (order, sel, _) = collect_stops (length tasks) 1 stops ([], [], []);
                        first = identity_conflicts tasks stops
                    in if first \<noteq> [] then Inr (sn, first)
                       else res_bind (evaluate_joint_order order sel departure tasks m
                                (in_preferences (sn_intent sn)) (in_hard (sn_intent sn)) mode
                                (safety_buffer (in_buffers (sn_intent sn))) None None) (\<lambda>ev.
                            res_bind (res_map (retime_stop message tasks m sel ev) stops) (\<lambda>timed.
                              Inr (sn\<lparr>sn_stops := timed, sn_distance := ev_distance ev,
                                     sn_seconds := ev_seconds ev,
                                     sn_cost := sum_list (map stop_cost timed),
                                     sn_confidence := py_min0 (map travel_confidence timed),
                                     sn_algorithm := ''shared-joint-validator-plan-patch'',
                                     sn_departure := Some departure\<rparr>,
                                   map Route_conflict (evaluation_conflicts ev))))))))
         | _ \<Rightarrow> Inl (AppError 409 ''PATCH_CONTEXT_MISSING''))"

end
