(* ===== verification/Plan_Versions.thy ===== *)
theory Plan_Versions
  imports Plan_Patch
begin

text \<open>
  The tables around a formal plan and the transactions that write them: the first version saved
  with its run, a patch proposed, decided by the user or applied by the in-trip workflow
  (\<open>api/ai_planner.py\<close>, \<open>services/plan_versioning.py\<close>; the rows are those of \<open>models.py\<close>).
  A transaction reads one state of the database and commits into another: its writes go to the
  rows that exist when it commits, and the commit fails when a unique constraint is violated.
\<close>

section \<open>Rows\<close>

record run_row =
  rr_id :: int
  rr_user :: int

record version_row =
  vr_run :: int
  vr_user :: int
  vr_version :: int
  vr_snapshot :: snapshot
  vr_reason :: string

text \<open>The recorded impact of a patch: the members that later steps read back.\<close>

record replaced =
  rd_source :: string
  rd_target :: "string option"
  rd_weather :: bool

record patch_impact =
  im_source :: "int option"
  im_before :: "(int option \<times> rat) option"
  im_after_cost :: rat
  im_conflicts :: "route_message list"
  im_replaced :: "replaced list"
  im_dropped :: bool
  im_completed :: "string list"
  im_context :: "replan_context option"

datatype patch_status = Pending | Accepted | Rejected | Blocked

record patch_row =
  pa_id :: int
  pa_run :: int
  pa_user :: int
  pa_base :: int
  pa_operations :: "patch_operation list"
  pa_reason :: string
  pa_impact :: patch_impact
  pa_status :: patch_status
  pa_decided :: "instant option"

record trip_row =
  tw_id :: int
  tw_run :: int
  tw_user :: int
  tw_version :: int
  tw_state :: trip_state
  tw_replans :: int
  tw_auto_apply :: bool

record event_row =
  te_trip :: int
  te_event :: string
  te_type :: string
  te_at :: instant
  te_policy :: "string option"

record workflow_row =
  wf_id :: int
  wf_run :: int

record artifact_row =
  ar_workflow :: int
  ar_status :: string
  ar_version :: "int option"
  ar_invalidated :: "instant option"

record audit_row =
  au_run :: int
  au_user :: int
  au_action :: string
  au_reason :: string
  au_policy :: string

record database =
  db_runs :: "run_row list"
  db_versions :: "version_row list"
  db_patches :: "patch_row list"
  db_trips :: "trip_row list"
  db_events :: "event_row list"
  db_workflows :: "workflow_row list"
  db_artifacts :: "artifact_row list"
  db_audit :: "audit_row list"

section \<open>Reading and committing\<close>

definition find_row :: "('a \<Rightarrow> bool) \<Rightarrow> 'a list \<Rightarrow> 'a option" where
  "find_row P rows = (case filter P rows of [] \<Rightarrow> None | r # _ \<Rightarrow> Some r)"

definition versions_of :: "int \<Rightarrow> database \<Rightarrow> int list" where
  "versions_of run db = map vr_version (filter (\<lambda>v. vr_run v = run) (db_versions db))"

text \<open>\<open>ORDER BY version DESC LIMIT 1\<close>.\<close>

definition latest_version :: "int \<Rightarrow> database \<Rightarrow> version_row option" where
  "latest_version run db =
     (case filter (\<lambda>v. vr_run v = run) (db_versions db) of
        [] \<Rightarrow> None
      | v # vs \<Rightarrow> Some (foldl (\<lambda>a b. if vr_version a < vr_version b then b else a) v vs))"

definition unique_rows :: "database \<Rightarrow> bool" where
  "unique_rows db \<longleftrightarrow>
     distinct (map rr_id (db_runs db)) \<and>
     distinct (map pa_id (db_patches db)) \<and>
     distinct (map (\<lambda>v. (vr_run v, vr_version v)) (db_versions db)) \<and>
     distinct (map (\<lambda>e. (te_trip e, te_event e)) (db_events db))"

definition integrity_error :: exn where
  "integrity_error = RuntimeError ''IntegrityError''"

definition commit :: "(database \<Rightarrow> database) \<Rightarrow> database \<Rightarrow> unit res \<times> database" where
  "commit writes db =
     (if unique_rows (writes db) then (Inr (), writes db) else (Inl integrity_error, db))"

section \<open>The writes of the transactions\<close>

definition decide_row :: "int \<Rightarrow> patch_status \<Rightarrow> instant \<Rightarrow> patch_row list \<Rightarrow> patch_row list" where
  "decide_row pid st t =
     map (\<lambda>p. if pa_id p = pid then p\<lparr>pa_status := st, pa_decided := Some t\<rparr> else p)"

definition audit :: "patch_row \<Rightarrow> string \<Rightarrow> string \<Rightarrow> audit_row" where
  "audit p action policy =
     \<lparr>au_run = pa_run p, au_user = pa_user p, au_action = action, au_reason = pa_reason p,
      au_policy = policy\<rparr>"

definition patch_event :: "patch_row \<Rightarrow> string \<Rightarrow> string \<Rightarrow> instant \<Rightarrow> string option \<Rightarrow> trip_row \<Rightarrow> event_row" where
  "patch_event p suffix kind t policy trip =
     \<lparr>te_trip = tw_id trip, te_event = ''patch-'' @ show_int (pa_id p) @ suffix, te_type = kind,
      te_at = t, te_policy = policy\<rparr>"

definition block_patch :: "patch_row \<Rightarrow> instant \<Rightarrow> database \<Rightarrow> database" where
  "block_patch p t db =
     db\<lparr>db_patches := decide_row (pa_id p) Blocked t (db_patches db),
        db_audit := db_audit db @ [audit p ''apply_plan_patch'' ''blocked_by_constraint_validator'']\<rparr>"

definition reject_patch :: "patch_row \<Rightarrow> trip_row list \<Rightarrow> instant \<Rightarrow> database \<Rightarrow> database" where
  "reject_patch p trips t db =
     db\<lparr>db_patches := decide_row (pa_id p) Rejected t (db_patches db),
        db_events := db_events db @ map (patch_event p ''-rejected'' ''PlanPatchRejected'' t None) trips,
        db_audit := db_audit db @ [audit p ''reject_plan_patch'' ''user_rejected'']\<rparr>"

text \<open>
  Advancing a plan: a new row for the next version, the trips that were read move to it (a trip
  read as replanning becomes active), older active artifacts of the run become stale.
\<close>

definition advance_trip :: "trip_row list \<Rightarrow> int \<Rightarrow> trip_row \<Rightarrow> trip_row" where
  "advance_trip trips next_version trip =
     (case find_row (\<lambda>r. tw_id r = tw_id trip) trips of
        None \<Rightarrow> trip
      | Some r \<Rightarrow> trip\<lparr>tw_version := next_version,
                       tw_state := (if tw_state r = Replanning then Active_trip else tw_state trip)\<rparr>)"

definition stale_artifact :: "int list \<Rightarrow> int \<Rightarrow> instant \<Rightarrow> artifact_row \<Rightarrow> artifact_row" where
  "stale_artifact workflows next_version t a =
     (if ar_workflow a \<in> set workflows \<and> ar_status a = ''active''
           \<and> (case ar_version a of None \<Rightarrow> True | Some v \<Rightarrow> v < next_version)
      then a\<lparr>ar_status := ''stale'', ar_invalidated := Some t\<rparr> else a)"

definition accept_patch ::
  "patch_row \<Rightarrow> int \<Rightarrow> snapshot \<Rightarrow> trip_row list \<Rightarrow> instant \<Rightarrow> string \<Rightarrow> string option \<Rightarrow> database \<Rightarrow> database" where
  "accept_patch p next_version sn trips t policy event_policy db =
     db\<lparr>db_versions := db_versions db @
          [\<lparr>vr_run = pa_run p, vr_user = pa_user p, vr_version = next_version, vr_snapshot = sn,
            vr_reason = pa_reason p\<rparr>],
        db_patches := decide_row (pa_id p) Accepted t (db_patches db),
        db_trips := map (advance_trip trips next_version) (db_trips db),
        db_events := db_events db
          @ map (patch_event p ''-accepted'' ''PlanPatchAccepted'' t event_policy) trips,
        db_artifacts := map (stale_artifact
          (map wf_id (filter (\<lambda>w. wf_run w = pa_run p) (db_workflows db))) next_version t) (db_artifacts db),
        db_audit := db_audit db @ [audit p ''apply_plan_patch'' policy]\<rparr>"

section \<open>Transactions\<close>

text \<open>
  A transaction is a function of the state it reads that gives its early error, or the answer and
  the writes to commit. \<open>Inl (e, Some w)\<close> commits \<open>w\<close> and then raises \<open>e\<close>.
\<close>

type_synonym 'a transaction =
  "(exn \<times> (database \<Rightarrow> database) option) + ('a \<times> (database \<Rightarrow> database))"

definition run_transaction ::
  "(database \<Rightarrow> 'a transaction) \<Rightarrow> database \<Rightarrow> database \<Rightarrow> 'a res \<times> database" where
  "run_transaction tx d0 d1 =
     (case tx d0 of
        Inl (e, None) \<Rightarrow> (Inl e, d1)
      | Inl (e, Some w) \<Rightarrow>
          (case commit w d1 of (Inl i, db) \<Rightarrow> (Inl i, db) | (Inr _, db) \<Rightarrow> (Inl e, db))
      | Inr (answer, w) \<Rightarrow>
          (case commit w d1 of (Inl i, db) \<Rightarrow> (Inl i, db) | (Inr _, db) \<Rightarrow> (Inr answer, db)))"

definition conflict_error :: exn where
  "conflict_error = AppError 409 ''PLAN_VERSION_CONFLICT''"

text \<open>\<open>except IntegrityError\<close> around the commit of an acceptance.\<close>

definition as_conflict :: "'a res \<times> database \<Rightarrow> 'a res \<times> database" where
  "as_conflict r =
     (case r of (Inl e, db) \<Rightarrow> (if e = integrity_error then Inl conflict_error else Inl e, db) | _ \<Rightarrow> r)"

text \<open>What both acceptances do once the patch and the current version are read.\<close>

definition accept_transaction ::
  "map_provider \<Rightarrow> (route_message \<Rightarrow> string) \<Rightarrow> instant \<Rightarrow> string \<Rightarrow> string option
     \<Rightarrow> patch_row \<Rightarrow> database \<Rightarrow> (int \<times> snapshot) transaction" where
  "accept_transaction provider message t policy event_policy p d0 =
     (case latest_version (pa_run p) d0 of
        None \<Rightarrow> Inl (conflict_error, None)
      | Some cur \<Rightarrow>
          if vr_version cur \<noteq> pa_base p then Inl (conflict_error, None)
          else case res_bind (apply_patch_structure (vr_snapshot cur) (pa_operations p)) (\<lambda>(sn, stops).
                      recalculate_and_validate_snapshot provider message sn stops (im_context (pa_impact p))) of
              Inl e \<Rightarrow> Inl (e, None)
            | Inr (sn, conflicts) \<Rightarrow>
                if conflicts \<noteq> [] then Inl (AppError 409 ''PATCH_INFEASIBLE'', Some (block_patch p t))
                else let next_version = vr_version cur + 1;
                         trips = filter (\<lambda>r. tw_run r = pa_run p \<and> tw_version r = vr_version cur) (db_trips d0)
                     in Inr ((next_version, sn),
                             accept_patch p next_version sn trips t policy event_policy))"

definition apply_plan_patch_cas ::
  "map_provider \<Rightarrow> (route_message \<Rightarrow> string) \<Rightarrow> int \<Rightarrow> string \<Rightarrow> instant \<Rightarrow> database \<Rightarrow> database
     \<Rightarrow> (int \<times> snapshot) res \<times> database" where
  "apply_plan_patch_cas provider message patch_id policy t d0 d1 =
     as_conflict (run_transaction (\<lambda>d.
       case find_row (\<lambda>p. pa_id p = patch_id) (db_patches d) of
         None \<Rightarrow> Inl (AppError 404 ''PLAN_PATCH_NOT_FOUND'', None)
       | Some p \<Rightarrow>
           if pa_status p \<noteq> Pending then Inl (AppError 409 ''PLAN_PATCH_ALREADY_DECIDED'', None)
           else accept_transaction provider message t policy (Some policy) p d) d0 d1)"

definition owned_run :: "int \<Rightarrow> int \<Rightarrow> database \<Rightarrow> bool" where
  "owned_run run user d \<longleftrightarrow> list_ex (\<lambda>r. rr_id r = run \<and> rr_user r = user) (db_runs d)"

definition run_missing :: exn where
  "run_missing = AppError 404 ''PLAN_RUN_NOT_FOUND''"

definition decide_plan_patch ::
  "map_provider \<Rightarrow> (route_message \<Rightarrow> string) \<Rightarrow> int \<Rightarrow> int \<Rightarrow> int \<Rightarrow> bool \<Rightarrow> instant \<Rightarrow> database \<Rightarrow> database
     \<Rightarrow> (int \<times> snapshot) option res \<times> database" where
  "decide_plan_patch provider message run patch_id user accept t d0 d1 =
     (if \<not> owned_run run user d0 then (Inl run_missing, d1)
      else case find_row (\<lambda>p. pa_id p = patch_id \<and> pa_run p = run \<and> pa_user p = user) (db_patches d0) of
          None \<Rightarrow> (Inl (AppError 404 ''PLAN_PATCH_NOT_FOUND''), d1)
        | Some p \<Rightarrow>
            if pa_status p \<noteq> Pending then (Inl (AppError 409 ''PLAN_PATCH_ALREADY_DECIDED''), d1)
            else if \<not> accept
            then run_transaction (\<lambda>d. Inr (None, reject_patch p
                   (filter (\<lambda>r. tw_run r = run \<and> tw_user r = user) (db_trips d)) t)) d0 d1
            else case as_conflict (run_transaction (accept_transaction provider message t
                        ''validated_and_user_confirmed'' None p) d0 d1) of
                (Inl e, db) \<Rightarrow> (Inl e, db)
              | (Inr a, db) \<Rightarrow> (Inr (Some a), db))"

definition create_plan_patch ::
  "int \<Rightarrow> int \<Rightarrow> int \<Rightarrow> int \<Rightarrow> patch_operation list \<Rightarrow> string \<Rightarrow> patch_impact
     \<Rightarrow> database \<Rightarrow> database \<Rightarrow> int res \<times> database" where
  "create_plan_patch run user new_id base ops reason impact d0 d1 =
     (if \<not> owned_run run user d0 then (Inl run_missing, d1)
      else case latest_version run d0 of
          None \<Rightarrow> (Inl (AppError 409 ''PLAN_NOT_VERSIONED''), d1)
        | Some cur \<Rightarrow>
            if base \<noteq> vr_version cur then (Inl conflict_error, d1)
            else let p = \<lparr>pa_id = new_id, pa_run = run, pa_user = user, pa_base = base,
                          pa_operations = ops, pa_reason = reason, pa_impact = impact,
                          pa_status = Pending, pa_decided = None\<rparr>
                 in run_transaction (\<lambda>d. Inr (new_id, \<lambda>db.
                      db\<lparr>db_patches := db_patches db @ [p],
                         db_audit := db_audit db @ [audit p ''create_plan_patch'' ''requires_confirmation'']\<rparr>)) d0 d1)"

text \<open>The run and its first version, saved together when a planning request has an answer.\<close>

definition save_first_version ::
  "int \<Rightarrow> int \<Rightarrow> snapshot \<Rightarrow> string \<Rightarrow> database \<Rightarrow> int res \<times> database" where
  "save_first_version new_run user sn reason d1 =
     run_transaction (\<lambda>d. Inr (1, \<lambda>db.
       db\<lparr>db_runs := db_runs db @ [\<lparr>rr_id = new_run, rr_user = user\<rparr>],
          db_versions := db_versions db @
            [\<lparr>vr_run = new_run, vr_user = user, vr_version = 1, vr_snapshot = sn, vr_reason = reason\<rparr>]\<rparr>))
       d1 d1"

end
