(* ===== verification/Replanning.thy ===== *)
theory Replanning
  imports Plan_Versions
begin

text \<open>
  In-trip replanning: the pending patch computed from the remaining stops
  (\<open>services/replanning.py\<close>), the strategy of the replanner (\<open>services/agents/replanner_agent.py\<close>), the
  deterministic review of the patch and the decision to apply it without asking
  (\<open>services/dynamic_replanning.py\<close>). The map provider's search and matrix are parameters, and so is
  the solution the routing solver finds for each option.
\<close>

section \<open>The request\<close>

record weather_report =
  we_precipitation :: "rat option"
  we_code :: "int option"

text \<open>
  The members of the event payload that are read, each as the text \<open>str()\<close> makes of it. A naive
  current time is taken as UTC, so the request's time is an instant.
\<close>

record event_payload =
  ev_closed_ids :: "string list"
  ev_closed_id :: "string option"
  ev_close_reason :: string
  ev_outdoor_ids :: "string list"
  ev_allow_switch :: bool

record replan_request =
  rq_location :: coordinate
  rq_time :: instant
  rq_completed :: "string list"
  rq_reason :: string
  rq_source :: "int option"
  rq_event :: "string option"
  rq_payload :: event_payload
  rq_weather :: "weather_report option"

section \<open>Which stops must be replaced\<close>

definition utf8 :: "nat list \<Rightarrow> string" where
  "utf8 bytes = map char_of bytes"

definition indoor_words :: "string list" where
  "indoor_words = map utf8
     [[229, 174, 164, 229, 134, 133], [229, 149, 134, 229, 156, 186],
      [229, 141, 154, 231, 137, 169, 233, 166, 134], [231, 190, 142, 230, 156, 175, 233, 166, 134],
      [229, 177, 149, 233, 166, 134], [229, 189, 177, 233, 153, 162], [229, 146, 150, 229, 149, 161]]"

definition outdoor_words :: "string list" where
  "outdoor_words = map utf8
     [[229, 133, 172, 229, 155, 173], [229, 155, 173, 230, 158, 151], [229, 190, 146, 230, 173, 165],
      [230, 136, 183, 229, 164, 150], [229, 185, 191, 229, 156, 186], [229, 177, 177], [230, 185, 150],
      [229, 138, 168, 231, 137, 169, 229, 155, 173]]"

definition text_or :: "string option \<Rightarrow> string \<Rightarrow> string" where
  "text_or x d = (case x of None \<Rightarrow> d | Some s \<Rightarrow> if s = [] then d else s)"

definition is_outdoor :: "planned_stop \<Rightarrow> string list \<Rightarrow> bool" where
  "is_outdoor st explicit_ids =
     (if (case poi_id (ps_poi st) of None \<Rightarrow> False | Some i \<Rightarrow> i \<in> set explicit_ids) then True
      else case poi_outdoor (ps_poi st) of
          Some b \<Rightarrow> b
        | None \<Rightarrow>
            let text = str_lower (text_or (poi_name (ps_poi st)) [] @ '' ''
                  @ pt_description (ps_task st) @ '' ''
                  @ text_or (pt_location_name (ps_task st)) [] @ '' ''
                  @ text_or (pt_category (ps_task st)) [])
            in if list_ex (\<lambda>w. contains w text) indoor_words then False
               else list_ex (\<lambda>w. contains w text) outdoor_words)"

definition weather_requires_indoor :: "weather_report option \<Rightarrow> bool" where
  "weather_requires_indoor w =
     (case w of
        None \<Rightarrow> False
      | Some r \<Rightarrow> 50 \<le> (case we_precipitation r of None \<Rightarrow> 0 | Some x \<Rightarrow> x)
                 \<or> 80 \<le> (case we_code r of None \<Rightarrow> 0 | Some x \<Rightarrow> x))"

definition closing_words :: "string list" where
  "closing_words = map utf8 [[229, 133, 179, 233, 151, 173], [233, 151, 173, 233, 166, 134]]
     @ [''closed'', ''close'']"

definition closed_ids :: "string option \<Rightarrow> event_payload \<Rightarrow> string list \<Rightarrow> string list" where
  "closed_ids event_type p remaining =
     (let named = ev_closed_ids p @ (case ev_closed_id p of
            None \<Rightarrow> [] | Some s \<Rightarrow> if s = [] then [] else [s]);
          reason = str_lower (ev_close_reason p);
          c1 = (if event_type = Some ''PoiStatusChanged'' \<and> named = [] \<and> remaining \<noteq> []
                then [hd remaining] else named)
      in if list_ex (\<lambda>w. contains w reason) closing_words \<and> c1 = [] \<and> remaining \<noteq> []
         then [hd remaining] else c1)"

type_synonym poi_search = "string \<Rightarrow> coordinate \<Rightarrow> string option \<Rightarrow> poi list res"

text \<open>A remaining stop with the identifier it has in the plan.\<close>

record remaining_item =
  it_source :: string
  it_stop :: planned_stop

definition replacement_candidate ::
  "poi_search \<Rightarrow> planned_stop \<Rightarrow> string \<Rightarrow> coordinate \<Rightarrow> bool \<Rightarrow> planned_stop option res" where
  "replacement_candidate search st original_id here indoor =
     (let base = text_or (pt_category (ps_task st)) (text_or (pt_location_name (ps_task st))
                   (text_or (Some (pt_description (ps_task st))) (text_or (poi_name (ps_poi st)) ''None'')));
          keyword = base @ '' '' @ (if indoor then utf8 [229, 174, 164, 229, 134, 133]
                                   else utf8 [230, 155, 191, 228, 187, 163])
      in res_bind (search keyword here (poi_district (ps_poi st))) (\<lambda>candidates.
           Inr (map_option (\<lambda>p. st\<lparr>ps_poi := p, ps_rank := Some 0\<rparr>)
                 (find_row (\<lambda>p. poi_id p \<noteq> Some original_id) candidates))))"

fun replace_items ::
  "poi_search \<Rightarrow> coordinate \<Rightarrow> string list \<Rightarrow> string list \<Rightarrow> bool \<Rightarrow> remaining_item list
     \<Rightarrow> (remaining_item list \<times> replaced list) res" where
  "replace_items search here shut outdoors weather [] = Inr ([], [])"
| "replace_items search here shut outdoors weather (it # its) =
     (let indoors_needed = weather \<and> is_outdoor (it_stop it) outdoors
      in res_bind
           (if it_source it \<notin> set shut \<and> \<not> indoors_needed then Inr None
            else replacement_candidate search (it_stop it) (it_source it) here indoors_needed)
           (\<lambda>found. res_bind (replace_items search here shut outdoors weather its) (\<lambda>(rest, records).
             case found of
               None \<Rightarrow> Inr (it # rest, records)
             | Some st \<Rightarrow> Inr (it\<lparr>it_stop := st\<rparr> # rest,
                 \<lparr>rd_source = it_source it, rd_target = poi_id (ps_poi st), rd_weather = indoors_needed\<rparr> # records))))"

section \<open>The options\<close>

record replan_option =
  ro_mode :: transport_mode
  ro_drop :: bool
  ro_feasible :: bool
  ro_seconds :: rat
  ro_distance :: rat
  ro_conflicts :: "route_message list"
  ro_stop_ids :: "string option list"

record solved_option =
  so_evaluation :: route_evaluation
  so_algorithm :: algorithm
  so_active :: "remaining_item list"
  so_mode :: transport_mode
  so_drop :: bool

type_synonym solver = "transport_mode \<Rightarrow> bool \<Rightarrow> (int list \<times> selection) option"

definition all_modes :: "transport_mode list" where
  "all_modes = [Walking, Driving, Transit, Cycling]"

definition active_items :: "bool \<Rightarrow> remaining_item list \<Rightarrow> remaining_item list" where
  "active_items drop_optional items =
     (if drop_optional then filter (\<lambda>it. pt_required (ps_task (it_stop it))) items else items)"

text \<open>
  One round of the double loop over modes and \<open>drop_optional\<close>. The loop stops once four options
  are listed; dropping the optional stops is skipped when it changes nothing or leaves nothing.
\<close>

definition solve_option ::
  "map_provider \<Rightarrow> solver \<Rightarrow> coordinate \<Rightarrow> instant \<Rightarrow> remaining_item list \<Rightarrow> transport_mode \<Rightarrow> bool
     \<Rightarrow> (replan_option \<times> solved_option) res" where
  "solve_option provider ortools here now active mode drop_optional =
     res_bind (res_map (\<lambda>it. located (it_stop it)) active) (\<lambda>places.
     res_bind (provider (here # places) mode) (\<lambda>m.
     res_bind (optimize_route now (map (\<lambda>it. ps_task (it_stop it)) active)
         (map (map re_distance) m) (map (map re_duration) m) (ortools mode drop_optional)) (\<lambda>(ev, alg).
     res_bind (res_map (\<lambda>i. res_bind (py_nth active i) (\<lambda>it. Inr (poi_id (ps_poi (it_stop it))))) (ev_order ev)) (\<lambda>ids.
       Inr (\<lparr>ro_mode = mode, ro_drop = drop_optional, ro_feasible = ev_feasible ev,
             ro_seconds = ev_seconds ev, ro_distance = ev_distance ev, ro_conflicts = evaluation_conflicts ev,
             ro_stop_ids = ids\<rparr>,
            \<lparr>so_evaluation = ev, so_algorithm = alg, so_active = active, so_mode = mode,
             so_drop = drop_optional\<rparr>)))))"

fun explore_options ::
  "map_provider \<Rightarrow> solver \<Rightarrow> coordinate \<Rightarrow> instant \<Rightarrow> remaining_item list \<Rightarrow> (transport_mode \<times> bool) list
     \<Rightarrow> replan_option list \<times> solved_option list \<Rightarrow> (replan_option list \<times> solved_option list) res" where
  "explore_options provider ortools here now items [] acc = Inr acc"
| "explore_options provider ortools here now items ((mode, drop_optional) # rest) (options, solved) =
     (let active = active_items drop_optional items
      in if 4 \<le> length options then Inr (options, solved)
         else if drop_optional \<and> (length active = length items \<or> active = [])
         then explore_options provider ortools here now items rest (options, solved)
         else res_bind (solve_option provider ortools here now active mode drop_optional) (\<lambda>(opt, sol).
           explore_options provider ortools here now items rest
             (options @ [opt], if ev_feasible (so_evaluation sol) then solved @ [sol] else solved)))"

definition mode_choices :: "transport_mode \<Rightarrow> (transport_mode \<times> bool) list" where
  "mode_choices base =
     concat (map (\<lambda>m. [(m, False), (m, True)]) (base # filter (\<lambda>m. m \<noteq> base) all_modes))"

definition switch_requested :: "replan_request \<Rightarrow> bool" where
  "switch_requested rq \<longleftrightarrow>
     rq_event rq \<in> Some ` {''ScheduleDelayDetected'', ''TrafficChanged'', ''DeadlineRiskDetected''}
     \<or> ev_allow_switch (rq_payload rq)"

definition choose_option :: "replan_request \<Rightarrow> transport_mode \<Rightarrow> solved_option list \<Rightarrow> solved_option" where
  "choose_option rq base solved =
     (let fastest = arg_min_list (\<lambda>s. ev_seconds (so_evaluation s)) solved
      in case find_row (\<lambda>s. so_mode s = base \<and> \<not> so_drop s) solved of
           None \<Rightarrow> fastest
         | Some preferred \<Rightarrow> if switch_requested rq then fastest else preferred)"

section \<open>The operations of the patch\<close>

definition removals :: "string list \<Rightarrow> string list \<Rightarrow> patch_operation list" where
  "removals original active = map (\<lambda>i. Remove_stop (Some i)) (filter (\<lambda>i. i \<notin> set active) original)"

fun string_index :: "string list \<Rightarrow> string \<Rightarrow> nat res" where
  "string_index [] x = Inl (ValueError ''not in list'')"
| "string_index (y # ys) x = (if y = x then Inr 0 else res_bind (string_index ys x) (\<lambda>n. Inr (Suc n)))"

text \<open>The moves that bring \<open>working\<close> into the order of the solution, target position by target position.\<close>

fun moves :: "nat \<Rightarrow> string list \<Rightarrow> string list \<Rightarrow> patch_operation list res" where
  "moves target [] working = Inr []"
| "moves target (sid # rest) working =
     res_bind (string_index working sid) (\<lambda>source.
       if source \<noteq> target
       then res_bind (moves (Suc target) rest
                (py_insert (int target) (working ! source) (remove_at source working))) (\<lambda>ops.
              Inr (Move_stop (Some (int source)) (Some (int target)) # ops))
       else moves (Suc target) rest working)"

definition replacing :: "replaced list \<Rightarrow> remaining_item list \<Rightarrow> patch_operation list" where
  "replacing records ordered =
     map (\<lambda>it. Replace_stop (Some (it_source it))
            (Some \<lparr>rp_poi = Some (ps_poi (it_stop it)), rp_task = Some (ps_task (it_stop it)),
                   rp_rank = ps_rank (it_stop it)\<rparr>))
       (filter (\<lambda>it. it_source it \<in> set (map rd_source records)) ordered)"

definition patch_operations ::
  "string list \<Rightarrow> remaining_item list \<Rightarrow> remaining_item list \<Rightarrow> replaced list
     \<Rightarrow> transport_mode \<Rightarrow> transport_mode \<Rightarrow> instant \<Rightarrow> instant \<Rightarrow> patch_operation list res" where
  "patch_operations original active ordered records base chosen now departure =
     res_bind (moves 0 (map it_source ordered) (filter (\<lambda>i. i \<in> set (map it_source active)) original)) (\<lambda>mvs.
       Inr (removals original (map it_source active) @ mvs @ replacing records ordered
         @ (if chosen \<noteq> base then [Change_transport_mode (Some chosen)] else [])
         @ (if 60000000 \<le> \<bar>now - departure\<bar> then [Change_departure_time (Aware now)] else [])))"

section \<open>Creating the pending patch\<close>

datatype replan_outcome =
    Budget_exceeded
  | Deduplicated int patch_impact
  | No_feasible_replan "replan_option list" "replaced list"
  | Still_feasible patch_impact "replan_option list"
  | Patch_pending int "patch_operation list" patch_impact "replan_option list"

definition set_trip :: "int \<Rightarrow> (trip_row \<Rightarrow> trip_row) \<Rightarrow> database \<Rightarrow> database" where
  "set_trip tid f db = db\<lparr>db_trips := map (\<lambda>r. if tw_id r = tid then f r else r) (db_trips db)\<rparr>"

definition stop_ids :: "planned_stop list \<Rightarrow> string list res" where
  "stop_ids sts = res_map (\<lambda>st. case poi_id (ps_poi st) of None \<Rightarrow> Inl KeyError | Some i \<Rightarrow> Inr i) sts"

text \<open>The proposal for a snapshot: what the function computes between its reads and its writes.\<close>

datatype proposal =
    Nothing_feasible "replan_option list" "replaced list"
  | Proposal "patch_operation list" patch_impact "replan_option list"

definition propose ::
  "map_provider \<Rightarrow> poi_search \<Rightarrow> solver \<Rightarrow> trip_row \<Rightarrow> replan_request \<Rightarrow> snapshot \<Rightarrow> proposal res" where
  "propose provider search ortools trip rq sn =
     res_bind (stop_ids (sn_stops sn)) (\<lambda>ids.
     let items = map (\<lambda>(i, st). \<lparr>it_source = i, it_stop = st\<rparr>)
                   (filter (\<lambda>(i, st). i \<notin> set (rq_completed rq)) (zip ids (sn_stops sn)))
     in if items = [] then Inl (AppError 409 ''NO_REMAINING_STOPS'')
        else
          let shut = closed_ids (rq_event rq) (rq_payload rq) (map it_source items)
          in res_bind (replace_items search (rq_location rq) shut (ev_outdoor_ids (rq_payload rq))
                 (weather_requires_indoor (rq_weather rq)) items) (\<lambda>(remaining, records).
             case in_mode (sn_intent sn) of
               None \<Rightarrow> Inl KeyError
             | Some base \<Rightarrow>
                 res_bind (explore_options provider ortools (rq_location rq) (rq_time rq) remaining
                     (mode_choices base) ([], [])) (\<lambda>(options, solved).
                   if solved = [] then Inr (Nothing_feasible options records)
                   else let chosen = choose_option rq base solved
                        in res_bind (res_map (py_nth (so_active chosen)) (ev_order (so_evaluation chosen))) (\<lambda>ordered.
                           case sn_departure sn of
                             None \<Rightarrow> Inl KeyError
                           | Some departure \<Rightarrow>
                               res_bind (patch_operations ids (so_active chosen) ordered records base
                                   (so_mode chosen) (rq_time rq) departure) (\<lambda>ops.
                                 Inr (Proposal ops
                                   \<lparr>im_source = rq_source rq,
                                    im_before = Some (Some (tw_version trip),
                                      sum_list (map stop_cost (sn_stops sn))),
                                    im_after_cost = sum_list (map (\<lambda>it. stop_cost (it_stop it)) ordered),
                                    im_conflicts = evaluation_conflicts (so_evaluation chosen),
                                    im_replaced = records, im_dropped = so_drop chosen,
                                    im_completed = rq_completed rq,
                                    im_context = Some \<lparr>rc_origin = Some (rq_location rq),
                                                       rc_departure = Some (rq_time rq)\<rparr>\<rparr> options))))))"

definition create_pending_replan ::
  "map_provider \<Rightarrow> poi_search \<Rightarrow> solver \<Rightarrow> int \<Rightarrow> int \<Rightarrow> trip_row \<Rightarrow> replan_request
     \<Rightarrow> database \<Rightarrow> database \<Rightarrow> replan_outcome res \<times> database" where
  "create_pending_replan provider search ortools max_replans new_id trip rq d0 d1 =
     run_transaction (\<lambda>d.
       if max_replans \<le> tw_replans trip then Inr (Budget_exceeded, id)
       else case find_row (\<lambda>v. vr_run v = tw_run trip \<and> vr_version v = tw_version trip) (db_versions d) of
           None \<Rightarrow> Inl (AppError 409 ''PLAN_VERSION_MISSING'', None)
         | Some version \<Rightarrow>
             case (case rq_source rq of
                     None \<Rightarrow> None
                   | Some e \<Rightarrow> find_row (\<lambda>p. pa_run p = tw_run trip \<and> pa_base p = tw_version trip
                         \<and> pa_status p = Pending \<and> im_source (pa_impact p) = Some e) (db_patches d)) of
               Some p \<Rightarrow> Inr (Deduplicated (pa_id p) (pa_impact p), id)
             | None \<Rightarrow>
                 (case propose provider search ortools trip rq (vr_snapshot version) of
                    Inl e \<Rightarrow> Inl (e, None)
                  | Inr (Nothing_feasible options records) \<Rightarrow>
                      Inr (No_feasible_replan options records,
                           set_trip (tw_id trip) (\<lambda>r. r\<lparr>tw_state := At_risk\<rparr>))
                  | Inr (Proposal ops impact options) \<Rightarrow>
                      if ops = []
                      then Inr (Still_feasible impact options,
                                set_trip (tw_id trip) (\<lambda>r. r\<lparr>tw_state := Active_trip\<rparr>))
                      else
                        let p = \<lparr>pa_id = new_id, pa_run = tw_run trip, pa_user = tw_user trip,
                                 pa_base = tw_version trip, pa_operations = ops, pa_reason = rq_reason rq,
                                 pa_impact = impact, pa_status = Pending, pa_decided = None\<rparr>
                        in Inr (Patch_pending new_id ops impact options,
                             \<lambda>db. (let db1 = set_trip (tw_id trip)
                                       (\<lambda>r. r\<lparr>tw_replans := tw_replans trip + 1, tw_state := Replanning\<rparr>) db
                                   in db1\<lparr>db_patches := db_patches db1 @ [p],
                                          db_audit := db_audit db1 @ [audit p ''create_pending_replan_patch''
                                            ''proposal_only_requires_user_confirmation'']\<rparr>)))) d0 d1"

end
