(* ===== verification/Patch_Review.thy ===== *)
theory Patch_Review
  imports Replanning
begin

text \<open>
  The review of a pending patch and what the in-trip workflow does with its verdict
  (\<open>services/dynamic_replanning.py\<close>, \<open>services/agents/replanner_agent.py\<close>): the strategy of the
  replanner, the deterministic review, the decision to block the patch, to ask the user, or to apply
  it at once for a trip that opted in.
\<close>

section \<open>Review\<close>

datatype finding =
    Constraint_conflict | Base_version_mismatch | Required_removal_forbidden
  | Replacement_evidence_missing | Transport_mode_changed | Cost_increase | Checks_passed

datatype verdict = Approved | Approved_with_warnings | Verdict_blocked
datatype risk_level = Low | Medium | High | Critical

record patch_artifact =
  pt_base_version :: int
  pt_operations :: "patch_operation list"
  pt_impact :: "patch_impact option"

record patch_review =
  pr_verdict :: verdict
  pr_risk :: risk_level
  pr_confirmation :: bool
  pr_findings :: "finding list"
  pr_base_version :: int
  pr_operations :: nat

definition required_by_id :: "snapshot \<Rightarrow> (string, bool) dict" where
  "required_by_id sn =
     foldl (\<lambda>d st. dset (case poi_id (ps_poi st) of None \<Rightarrow> ''None'' | Some i \<Rightarrow> i) (pt_required (ps_task st)) d)
       [] (sn_stops sn)"

definition removal_forbidden :: "snapshot \<Rightarrow> string list \<Rightarrow> string option \<Rightarrow> bool" where
  "removal_forbidden sn completed sid =
     (let i = (case sid of None \<Rightarrow> ''None'' | Some s \<Rightarrow> s)
      in (case dget (required_by_id sn) i of None \<Rightarrow> True | Some b \<Rightarrow> b) \<and> i \<notin> set completed)"

definition evidence_missing :: "replacement option \<Rightarrow> bool" where
  "evidence_missing rep =
     (case rep of
        None \<Rightarrow> True
      | Some r \<Rightarrow> (case rp_poi r of
            None \<Rightarrow> True
          | Some p \<Rightarrow> \<not> has_text (poi_id p) \<or> \<not> has_text (poi_source p)))"

text \<open>The variables of the loop over the operations.\<close>

record review_state =
  rs_findings :: "finding list"
  rs_blocking :: bool
  rs_risk :: nat

definition review_operation :: "snapshot \<Rightarrow> string list \<Rightarrow> review_state \<Rightarrow> patch_operation \<Rightarrow> review_state" where
  "review_operation sn completed s op =
     (case op of
        Remove_stop sid \<Rightarrow>
          (let s1 = s\<lparr>rs_risk := max (rs_risk s) 2\<rparr>
           in if removal_forbidden sn completed sid
              then s1\<lparr>rs_findings := rs_findings s1 @ [Required_removal_forbidden], rs_blocking := True\<rparr>
              else s1)
      | Replace_stop sid rep \<Rightarrow>
          (let s1 = s\<lparr>rs_risk := max (rs_risk s) 2\<rparr>
           in if evidence_missing rep
              then s1\<lparr>rs_findings := rs_findings s1 @ [Replacement_evidence_missing], rs_blocking := True\<rparr>
              else s1)
      | Change_transport_mode m \<Rightarrow>
          s\<lparr>rs_risk := max (rs_risk s) 2, rs_findings := rs_findings s @ [Transport_mode_changed]\<rparr>
      | Change_departure_time t \<Rightarrow> s\<lparr>rs_risk := max (rs_risk s) 1\<rparr>
      | Move_stop a b \<Rightarrow> s)"

definition review_start :: "patch_artifact \<Rightarrow> review_state" where
  "review_start p =
     (let conflict = (case pt_impact p of None \<Rightarrow> False | Some im \<Rightarrow> im_conflicts im \<noteq> []);
          mismatch = (case pt_impact p of None \<Rightarrow> False
            | Some im \<Rightarrow> (case im_before im of None \<Rightarrow> False
                | Some (version, _) \<Rightarrow> pt_base_version p \<noteq> (case version of None \<Rightarrow> - 1 | Some v \<Rightarrow> v)))
      in \<lparr>rs_findings = only_if conflict Constraint_conflict @ only_if mismatch Base_version_mismatch,
          rs_blocking = (conflict \<or> mismatch), rs_risk = 0\<rparr>)"

definition cost_increased :: "patch_artifact \<Rightarrow> bool" where
  "cost_increased p =
     (let before = (case pt_impact p of None \<Rightarrow> 0 | Some im \<Rightarrow> (case im_before im of None \<Rightarrow> 0 | Some (_, cost) \<Rightarrow> cost));
          after = (case pt_impact p of None \<Rightarrow> 0 | Some im \<Rightarrow> im_after_cost im)
      in before + max 20 (before * (1 / 10)) < after)"

definition risk_of :: "nat \<Rightarrow> risk_level" where
  "risk_of n = (if n = 0 then Low else if n = 1 then Medium else if n = 2 then High else Critical)"

definition review_dynamic_patch :: "snapshot \<Rightarrow> patch_artifact \<Rightarrow> patch_review" where
  "review_dynamic_patch sn p =
     (let completed = (case pt_impact p of None \<Rightarrow> [] | Some im \<Rightarrow> im_completed im);
          s = foldl (review_operation sn completed) (review_start p) (pt_operations p);
          findings = rs_findings s @ only_if (cost_increased p) Cost_increase;
          risk = (if cost_increased p then max (rs_risk s) 2 else rs_risk s)
      in \<lparr>pr_verdict = (if rs_blocking s then Verdict_blocked
                        else if risk \<noteq> 0 then Approved_with_warnings else Approved),
          pr_risk = risk_of (if rs_blocking s then 3 else risk),
          pr_confirmation = (2 \<le> risk \<or> rs_blocking s),
          pr_findings = (if findings = [] then [Checks_passed] else findings),
          pr_base_version = pt_base_version p,
          pr_operations = length (pt_operations p)\<rparr>)"

section \<open>The replanner\<close>

datatype strategy =
    Reorder_remaining | Replace_closed_poi | Weather_indoor_fallback | Fastest_feasible_route
  | Off_route_recovery

definition replan_strategy :: "string \<Rightarrow> strategy" where
  "replan_strategy event_type =
     (case dget [(''PoiStatusChanged'', Replace_closed_poi),
                 (''WeatherAlertReceived'', Weather_indoor_fallback),
                 (''TrafficChanged'', Fastest_feasible_route),
                 (''ScheduleDelayDetected'', Fastest_feasible_route),
                 (''DeadlineRiskDetected'', Fastest_feasible_route),
                 (''UserOffRoute'', Off_route_recovery)] event_type of
        None \<Rightarrow> Reorder_remaining | Some s \<Rightarrow> s)"

section \<open>The workflow after the replanner\<close>

record replan_result =
  rz_outcome :: replan_outcome
  rz_review :: patch_review
  rz_requires_confirmation :: bool
  rz_auto_apply_eligible :: bool
  rz_applied_version :: "int option"

definition outcome_artifact :: "int \<Rightarrow> replan_outcome \<Rightarrow> patch_artifact" where
  "outcome_artifact base o_result =
     (case o_result of
        Patch_pending pid ops impact options \<Rightarrow>
          \<lparr>pt_base_version = base, pt_operations = ops, pt_impact = Some impact\<rparr>
      | Deduplicated pid impact \<Rightarrow>
          \<lparr>pt_base_version = base, pt_operations = [], pt_impact = Some impact\<rparr>
      | Still_feasible impact options \<Rightarrow>
          \<lparr>pt_base_version = base, pt_operations = [], pt_impact = Some impact\<rparr>
      | _ \<Rightarrow> \<lparr>pt_base_version = base, pt_operations = [], pt_impact = None\<rparr>)"

definition outcome_patch :: "replan_outcome \<Rightarrow> int option" where
  "outcome_patch o_result =
     (case o_result of Patch_pending pid ops impact options \<Rightarrow> Some pid
     | Deduplicated pid impact \<Rightarrow> Some pid | _ \<Rightarrow> None)"

definition mark_blocked :: "int \<Rightarrow> int \<Rightarrow> database \<Rightarrow> database" where
  "mark_blocked pid trip_id db =
     set_trip trip_id (\<lambda>r. r\<lparr>tw_state := At_risk\<rparr>)
       (db\<lparr>db_patches := map (\<lambda>p. if pa_id p = pid then p\<lparr>pa_status := Blocked\<rparr> else p) (db_patches db)\<rparr>)"

text \<open>
  The part of \<open>run\<close> that decides: the stale directive, the pending patch, the review, the verdict
  written to the patch and the trip, and the application without asking. \<open>env1\<close> and \<open>env2\<close> are what
  other transactions commit in between. The answer to a repeated
  event names the patch that is already pending and carries its impact but no operations, so that
  is what the artifact under review holds.
\<close>

definition dynamic_replan ::
  "map_provider \<Rightarrow> poi_search \<Rightarrow> solver \<Rightarrow> (route_message \<Rightarrow> string) \<Rightarrow> int \<Rightarrow> int \<Rightarrow> instant \<Rightarrow> int \<Rightarrow> trip_row
     \<Rightarrow> replan_request \<Rightarrow> (database \<Rightarrow> database) \<Rightarrow> (database \<Rightarrow> database) \<Rightarrow> database
     \<Rightarrow> replan_result res \<times> database" where
  "dynamic_replan provider search ortools message max_replans new_id t directive_version trip rq env1 env2 d0 =
     (if directive_version \<noteq> tw_version trip
      then (Inl (ValueError ''dynamic replan directive references a stale plan version''), d0)
      else case create_pending_replan provider search ortools max_replans new_id trip rq d0 d0 of
          (Inl e, d1) \<Rightarrow> (Inl e, d1)
        | (Inr o_result, d1) \<Rightarrow>
            (let d2 = env1 d1
             in case find_row (\<lambda>v. vr_run v = tw_run trip \<and> vr_version v = directive_version) (db_versions d2) of
                  None \<Rightarrow> (Inl (ValueError ''formal plan version disappeared during dynamic review''), d2)
                | Some version \<Rightarrow>
                    (let review = review_dynamic_patch (vr_snapshot version)
                           (outcome_artifact directive_version o_result);
                         eligible = (pr_risk review = Low \<and> pr_verdict review = Approved);
                         pid = outcome_patch o_result;
                         confirm = (pid \<noteq> None \<and> pr_verdict review \<noteq> Verdict_blocked
                             \<and> \<not> (eligible \<and> tw_auto_apply trip));
                         d3 = (case pid of
                             Some i \<Rightarrow> if pr_verdict review = Verdict_blocked then mark_blocked i (tw_id trip) d2 else d2
                           | None \<Rightarrow> d2);
                         result = \<lparr>rz_outcome = o_result, rz_review = review, rz_requires_confirmation = confirm,
                                   rz_auto_apply_eligible = eligible, rz_applied_version = None\<rparr>
                     in case (eligible \<and> tw_auto_apply trip, pid) of
                          (True, Some i) \<Rightarrow>
                            (let d4 = env2 d3
                             in case apply_plan_patch_cas provider message i
                                     ''validated_low_risk_auto_apply_opt_in'' t d4 d4 of
                                  (Inl e, d5) \<Rightarrow> (Inl e, d5)
                                | (Inr (n, sn), d5) \<Rightarrow>
                                    (Inr (result\<lparr>rz_requires_confirmation := False,
                                                 rz_applied_version := Some n\<rparr>), d5))
                        | _ \<Rightarrow> (Inr result, d3))))"

end
