(* ===== verification/Route_Properties.thy ===== *)
theory Route_Properties
  imports Route_Optimizer
begin

text \<open>
  The optimiser's promises: a feasible evaluation satisfies every hard constraint at every stop,
  its timetable is ordered, exact enumeration returns a best evaluation over all selections and
  orders, a feasible plan is returned whenever one was evaluated, and the beam search yields
  complete orders that keep the user's required order.
\<close>

section \<open>Exact enumeration\<close>

lemma perms_length: "p \<in> set (perms k xs) \<Longrightarrow> k \<le> length xs \<Longrightarrow> length p = k"
  by (induction k arbitrary: xs p) auto

lemma perms_complete: "mset p = mset xs \<Longrightarrow> p \<in> set (perms (length xs) xs)"
proof (induction p arbitrary: xs)
  case Nil
  then show ?case by simp
next
  case (Cons a p)
  then have "a \<in> set xs" by (metis list.set_intros(1) mset_eq_setD)
  then obtain i where i: "i < length xs" "xs ! i = a" by (auto simp: in_set_conv_nth)
  let ?rest = "take i xs @ drop (Suc i) xs"
  have split: "xs = take i xs @ a # drop (Suc i) xs" using i id_take_nth_drop [of i xs] by simp
  have "mset xs = add_mset a (mset ?rest)" by (subst split) simp
  then have "mset p = mset ?rest" using Cons.prems by simp
  then have "p \<in> set (perms (length ?rest) ?rest)" by (rule Cons.IH)
  then have "a # p \<in> (\<lambda>p. xs ! i # p) ` set (perms (length ?rest) ?rest)" using i(2) by simp
  moreover have "i \<in> set [0..<length xs]" using i by simp
  ultimately have "a # p \<in> set (perms (Suc (length ?rest)) xs)"
    unfolding perms.simps set_concat set_map image_image by blast
  moreover have "length xs = Suc (length ?rest)" using i by simp
  ultimately show ?case by metis
qed

lemma perms_sound: "p \<in> set (perms (length xs) xs) \<Longrightarrow> mset p = mset xs"
proof (induction "length xs" arbitrary: xs p)
  case 0
  then show ?case by simp
next
  case (Suc k)
  have "p \<in> set (perms (Suc k) xs)" using Suc.prems Suc.hyps(2) by simp
  then have "\<exists>i \<in> set [0..<length xs]. \<exists>q \<in> set (perms k (take i xs @ drop (Suc i) xs)). p = xs ! i # q"
    unfolding perms.simps set_concat set_map by force
  then obtain i q where i: "i < length xs" and p: "p = xs ! i # q"
      and q: "q \<in> set (perms k (take i xs @ drop (Suc i) xs))"
    by auto
  have "k = length (take i xs @ drop (Suc i) xs)" using i Suc.hyps(2) by simp
  then have "mset q = mset (take i xs @ drop (Suc i) xs)" using Suc.hyps(1) q by blast
  moreover have "mset xs = add_mset (xs ! i) (mset (take i xs @ drop (Suc i) xs))"
    using i by (metis id_take_nth_drop mset.simps(2) mset_append union_mset_add_mset_right)
  ultimately show ?case using p by simp
qed

lemma res_map_mem: "res_map f xs = Inr ys \<Longrightarrow> x \<in> set xs \<Longrightarrow> \<exists>y \<in> set ys. f x = Inr y"
  by (induction xs arbitrary: ys) (auto simp: res_simps)

lemma res_map_mem_rev: "res_map f xs = Inr ys \<Longrightarrow> y \<in> set ys \<Longrightarrow> \<exists>x \<in> set xs. f x = Inr y"
  by (induction xs arbitrary: ys) (auto simp: res_simps)

lemma arg_min_list_least: "y \<in> set xs \<Longrightarrow> (f :: 'a \<Rightarrow> 'b::linorder) (arg_min_list f xs) \<le> f y"
  by (cases "xs = []") (auto simp: f_arg_min_list_f)

lemma evaluation_key_feasible:
  "evaluation_key p a \<le> evaluation_key p b \<Longrightarrow> ev_feasible b \<Longrightarrow> ev_feasible a"
  by (auto simp: evaluation_key_def split: if_splits)

text \<open>
  C32: for a problem small enough to enumerate, the plan returned is a best one: no selection of
  one candidate per task, visited in any order of the tasks, evaluates to a smaller key, and if
  any of them is feasible so is the plan returned.
\<close>

theorem exact_enumeration_optimal:
  assumes "optimize_joint_route departure tasks groups m p c mode buffer prev ortools = Inr (ev, Joint_exact)"
    and "baseline_walk m 0 0 (map hd (filter (\<lambda>g. g \<noteq> []) groups)) = Inr baseline"
    and "ns \<in> set (product_lists groups)" and "mset order = mset (map int [0..<length tasks])"
  shows "\<exists>ev'. evaluate_joint_order order (selection_of ns) departure tasks m p c mode buffer prev
            (Some baseline) = Inr ev'
          \<and> evaluation_key p ev \<le> evaluation_key p ev' \<and> (ev_feasible ev' \<longrightarrow> ev_feasible ev)"
proof -
  let ?f = "\<lambda>(order, sel). evaluate_joint_order order sel departure tasks m p c mode buffer prev (Some baseline)"
  have "exact_size tasks groups"
    using assms(1,2) by (auto simp: optimize_joint_route_def Let_def res_simps split: if_splits option.splits)
  then obtain evs where evs: "res_map ?f (exact_candidates (length tasks) groups) = Inr evs"
    and ev: "ev = arg_min_list (evaluation_key p) evs"
    using assms(1,2) by (auto simp: optimize_joint_route_def Let_def res_simps split: if_splits)
  have "order \<in> set (perms (length tasks) (map int [0..<length tasks]))"
    using perms_complete [OF assms(4)] by simp
  then have "(order, selection_of ns) \<in> set (exact_candidates (length tasks) groups)"
    using assms(3) by (auto simp: exact_candidates_def)
  then obtain ev' where "ev' \<in> set evs" "?f (order, selection_of ns) = Inr ev'"
    using res_map_mem [OF evs] by blast
  then show ?thesis
    using arg_min_list_least [of ev' evs "evaluation_key p"] evaluation_key_feasible [of p ev ev']
    by (auto simp: ev)
qed

section \<open>Feasible evaluations\<close>

text \<open>What the hard constraints ask of one stop, in the words of the specification.\<close>

definition stop_fine :: "hard_constraints \<Rightarrow> int \<Rightarrow> planning_task \<Rightarrow> candidate_node \<Rightarrow> instant \<Rightarrow> bool" where
  "stop_fine c buffer t n arrival \<longleftrightarrow>
     (\<forall>d. pt_deadline t = Some d \<longrightarrow> arrival \<le> d - buffer) \<and>
     (\<forall>e. pt_earliest t = Some e \<longrightarrow> e \<le> arrival) \<and>
     (\<forall>a. pt_appointment t = Some a \<longrightarrow>
        arrival = (case pt_earliest t of Some e \<Rightarrow> max a e | None \<Rightarrow> a)) \<and>
     (\<forall>r. pt_min_rating t = Some r \<longrightarrow> (\<exists>x. cn_rating n = Some x \<and> r \<le> x)) \<and>
     (pt_require_open t \<longrightarrow> cn_open n \<noteq> Some False) \<and>
     (requires_accessible t c \<longrightarrow> cn_accessible n = Some True) \<and>
     (hc_allowed_districts c \<noteq> [] \<longrightarrow>
        (\<exists>d. cn_district n = Some d \<and> d \<in> set (hc_allowed_districts c))) \<and>
     (\<forall>d area. cn_district n = Some d \<longrightarrow> d \<noteq> [] \<longrightarrow> area \<in> set (hc_avoid_areas c)
        \<longrightarrow> \<not> contains area d) \<and>
     (\<forall>x y. cn_cost n = Some x \<longrightarrow> pt_max_cost t = Some y \<longrightarrow> x \<le> y)"

lemma only_if_Nil [simp]: "only_if b x = [] \<longleftrightarrow> \<not> b"
  by (simp add: only_if_def)

lemma arrival_at_earliest: "pt_earliest t = Some e \<Longrightarrow> e \<le> arrival_at t reached"
  by (auto simp: arrival_at_def Let_def)

lemma arrival_at_appointment:
  "pt_appointment t = Some a \<Longrightarrow> reached \<le> a \<Longrightarrow>
     arrival_at t reached = (case pt_earliest t of Some e \<Rightarrow> max a e | None \<Rightarrow> a)"
  by (auto simp: arrival_at_def Let_def max_def split: option.splits)

lemma stop_fine_of_no_conflict:
  assumes "stop_conflicts c buffer i t n reached (arrival_at t reached) = []"
  shows "stop_fine c buffer t n (arrival_at t reached)"
proof -
  have none: "\<not> (case pt_appointment t of Some a \<Rightarrow> a < reached | None \<Rightarrow> False)"
    "\<not> (case pt_deadline t of Some d \<Rightarrow> d - buffer < arrival_at t reached | None \<Rightarrow> False)"
    "\<not> (case pt_min_rating t of Some m \<Rightarrow> (case cn_rating n of None \<Rightarrow> True | Some r \<Rightarrow> r < m) | None \<Rightarrow> False)"
    "\<not> (pt_require_open t \<and> cn_open n = Some False)"
    "\<not> (requires_accessible t c \<and> cn_accessible n \<noteq> Some True)"
    "\<not> (hc_allowed_districts c \<noteq> []
        \<and> (case cn_district n of None \<Rightarrow> True | Some d \<Rightarrow> d \<notin> set (hc_allowed_districts c)))"
    "\<not> (case cn_district n of None \<Rightarrow> False
        | Some d \<Rightarrow> d \<noteq> [] \<and> list_ex (\<lambda>area. contains area d) (hc_avoid_areas c))"
    "\<not> (case (cn_cost n, pt_max_cost t) of (Some x, Some m) \<Rightarrow> m < x | _ \<Rightarrow> False)"
    using assms unfolding stop_conflicts_def append_is_Nil_conv only_if_Nil by blast+
  have "\<forall>d. pt_deadline t = Some d \<longrightarrow> arrival_at t reached \<le> d - buffer"
    using none(2) by auto
  moreover have "\<forall>a. pt_appointment t = Some a \<longrightarrow> arrival_at t reached
      = (case pt_earliest t of Some e \<Rightarrow> max a e | None \<Rightarrow> a)"
    using none(1) arrival_at_appointment by fastforce
  moreover have "\<forall>r. pt_min_rating t = Some r \<longrightarrow> (\<exists>x. cn_rating n = Some x \<and> r \<le> x)"
    using none(3) by (auto split: option.splits)
  moreover have "hc_allowed_districts c \<noteq> [] \<longrightarrow>
      (\<exists>d. cn_district n = Some d \<and> d \<in> set (hc_allowed_districts c))"
    using none(6) by (auto split: option.splits)
  moreover have "\<forall>d area. cn_district n = Some d \<longrightarrow> d \<noteq> [] \<longrightarrow> area \<in> set (hc_avoid_areas c)
      \<longrightarrow> \<not> contains area d"
    using none(7) by (auto simp: list_ex_iff)
  moreover have "\<forall>x y. cn_cost n = Some x \<longrightarrow> pt_max_cost t = Some y \<longrightarrow> x \<le> y"
    using none(8) by auto
  ultimately show ?thesis
    using none(4,5) arrival_at_earliest unfolding stop_fine_def by blast
qed

fun stops_fine ::
  "hard_constraints \<Rightarrow> int \<Rightarrow> planning_task list \<Rightarrow> selection \<Rightarrow> int list \<Rightarrow> candidate_node list
     \<Rightarrow> instant list \<Rightarrow> bool" where
  "stops_fine c buffer tasks sel [] [] [] = True"
| "stops_fine c buffer tasks sel (i # order) (n # ns) (a # as) =
     (dget sel i = Some n \<and>
      (case py_nth tasks i of Inr t \<Rightarrow> stop_fine c buffer t n a | Inl _ \<Rightarrow> False) \<and>
      stops_fine c buffer tasks sel order ns as)"
| "stops_fine c buffer tasks sel _ _ _ = False"

lemma walk_order_trace:
  "walk_order c buffer tasks m sel order w = Inr w' \<Longrightarrow>
     \<exists>ns as ds cs. wk_nodes w' = wk_nodes w @ ns \<and> wk_arrivals w' = wk_arrivals w @ as
       \<and> wk_departures w' = wk_departures w @ ds \<and> wk_conflicts w' = wk_conflicts w @ cs
       \<and> length ns = length order \<and> length as = length order \<and> length ds = length order
       \<and> (cs = [] \<longrightarrow> stops_fine c buffer tasks sel order ns as)"
proof (induction order arbitrary: w)
  case Nil
  then show ?case by simp
next
  case (Cons i order)
  obtain n where n: "dget sel i = Some n" using Cons.prems by (auto split: option.splits)
  obtain e t where t: "py_nth tasks i = Inr t"
    and rest: "walk_order c buffer tasks m sel order (visit_stop c buffer t n e i w) = Inr w'"
    using Cons.prems n by (auto simp: res_simps)
  let ?a = "arrival_at t (wk_cursor w + td_seconds (re_duration e))"
  let ?cs = "stop_conflicts c buffer i t n (wk_cursor w + td_seconds (re_duration e)) ?a"
  obtain ns as ds cs where IH: "wk_nodes w' = wk_nodes w @ [n] @ ns" "wk_arrivals w' = wk_arrivals w @ [?a] @ as"
      "\<exists>d. wk_departures w' = wk_departures w @ [d] @ ds" "wk_conflicts w' = wk_conflicts w @ ?cs @ cs"
      "length ns = length order" "length as = length order" "length ds = length order"
      "cs = [] \<longrightarrow> stops_fine c buffer tasks sel order ns as"
    using Cons.IH [OF rest] by (auto simp: visit_stop_def Let_def)
  obtain d where d: "wk_departures w' = wk_departures w @ [d] @ ds" using IH(3) by blast
  have "stops_fine c buffer tasks sel (i # order) (n # ns) (?a # as)" if "?cs @ cs = []"
    using that IH(8) n t stop_fine_of_no_conflict [of c buffer i t n] by simp
  then show ?case
    using IH d by (intro exI [of _ "n # ns"] exI [of _ "?a # as"] exI [of _ "d # ds"] exI [of _ "?cs @ cs"]) auto
qed

lemma return_leg_frame:
  "return_leg c m w = Inr w' \<Longrightarrow> wk_nodes w' = wk_nodes w \<and> wk_arrivals w' = wk_arrivals w
     \<and> wk_departures w' = wk_departures w \<and> wk_conflicts w' = wk_conflicts w
     \<and> wk_cost w' = wk_cost w \<and> wk_cost_unknown w' = wk_cost_unknown w \<and> wk_districts w' = wk_districts w"
  by (auto simp: return_leg_def res_simps split: if_splits)

lemma evaluate_joint_order_Inr:
  assumes "evaluate_joint_order order sel departure tasks m p c mode buf prev baseline = Inr ev"
  obtains w0 w where
    "walk_order c (td_minutes (max 0 buf)) tasks m sel order (start_walk c order departure) = Inr w0"
    "return_leg c m w0 = Inr w" "ev_order ev = order" "ev_nodes ev = wk_nodes w"
    "ev_arrivals ev = wk_arrivals w" "ev_departures ev = wk_departures w"
    "ev_distance ev = wk_distance w" "ev_seconds ev = wk_seconds w"
    "ev_conflicts ev = wk_conflicts w @ trip_conflicts c (td_minutes (max 0 buf)) mode departure baseline w"
    "ev_feasible ev = (ev_conflicts ev = [])"
  using assms by (auto simp: evaluate_joint_order_def Let_def res_simps)

lemma walk_order_cost:
  "walk_order c buffer tasks m sel order w = Inr w' \<Longrightarrow>
     wk_cost w' = wk_cost w + sum_list (map (\<lambda>n. case cn_cost n of None \<Rightarrow> 0 | Some x \<Rightarrow> x)
         (drop (length (wk_nodes w)) (wk_nodes w')))
     \<and> (wk_cost_unknown w' \<longleftrightarrow> wk_cost_unknown w
         \<or> (\<exists>n \<in> set (drop (length (wk_nodes w)) (wk_nodes w')). cn_cost n = None))
     \<and> take (length (wk_nodes w)) (wk_nodes w') = wk_nodes w \<and> length (wk_nodes w) \<le> length (wk_nodes w')"
proof (induction order arbitrary: w)
  case Nil
  then show ?case by simp
next
  case (Cons i order)
  obtain n e t where rest: "walk_order c buffer tasks m sel order (visit_stop c buffer t n e i w) = Inr w'"
    using Cons.prems by (auto simp: res_simps split: option.splits)
  let ?l = "length (wk_nodes w)"
  have IH: "take (Suc ?l) (wk_nodes w') = wk_nodes w @ [n]" "Suc ?l \<le> length (wk_nodes w')"
    using Cons.IH [OF rest] by (simp_all add: visit_stop_def Let_def)
  then have "drop ?l (wk_nodes w') = n # drop (Suc ?l) (wk_nodes w')"
    by (metis Cons_nth_drop_Suc Suc_le_lessD lessI nth_append_length nth_take)
  moreover have "take ?l (wk_nodes w') = wk_nodes w"
    using IH(1) by (metis append_eq_conv_conj min.absorb1 le_SucI order_refl take_take)
  ultimately show ?case
    using Cons.IH [OF rest] IH(2) by (auto simp: visit_stop_def Let_def)
qed

text \<open>
  C35: a plan reported feasible breaks no hard constraint: at every stop the chosen place and the
  arrival satisfy the task's deadline (less the safety buffer), earliest arrival, appointment,
  rating, opening, accessibility, district and price, the user's required order is kept, walking
  stays within its limit, and a total budget is met with every price known.
\<close>

theorem feasible_meets_hard_constraints:
  assumes "evaluate_joint_order order sel departure tasks m p c mode buf prev baseline = Inr ev"
    and "ev_feasible ev"
  shows "stops_fine c (td_minutes (max 0 buf)) tasks sel order (ev_nodes ev) (ev_arrivals ev)
       \<and> (hc_task_order c \<noteq> [] \<longrightarrow> relative_order_satisfied order (hc_task_order c))
       \<and> (\<forall>lim. hc_max_walking c = Some lim \<longrightarrow> mode = Walking \<longrightarrow> ev_distance ev \<le> lim)
       \<and> (\<forall>lim. hc_max_cost c = Some lim \<longrightarrow> (\<forall>n \<in> set (ev_nodes ev). cn_cost n \<noteq> None)
            \<and> sum_list (map (\<lambda>n. case cn_cost n of None \<Rightarrow> 0 | Some x \<Rightarrow> x) (ev_nodes ev)) \<le> lim)"
proof -
  let ?b = "td_minutes (max 0 buf)"
  obtain w0 w where walk: "walk_order c ?b tasks m sel order (start_walk c order departure) = Inr w0"
    and leg: "return_leg c m w0 = Inr w" and ev: "ev_nodes ev = wk_nodes w" "ev_arrivals ev = wk_arrivals w"
      "ev_distance ev = wk_distance w"
      "ev_conflicts ev = wk_conflicts w @ trip_conflicts c ?b mode departure baseline w"
      "ev_feasible ev = (ev_conflicts ev = [])"
    using assms(1) by (rule evaluate_joint_order_Inr)
  have none: "wk_conflicts w = []" "trip_conflicts c ?b mode departure baseline w = []"
    using ev assms(2) by simp_all
  note fr = return_leg_frame [OF leg]
  have start: "wk_nodes (start_walk c order departure) = []" "wk_arrivals (start_walk c order departure) = []"
    by (simp_all add: start_walk_def)
  obtain ns as cs where tr: "wk_nodes w0 = ns" "wk_arrivals w0 = as"
      "wk_conflicts w0 = wk_conflicts (start_walk c order departure) @ cs"
      "cs = [] \<longrightarrow> stops_fine c ?b tasks sel order ns as"
    using walk_order_trace [OF walk] start by auto
  have empty: "wk_conflicts (start_walk c order departure) = []" "cs = []"
    using none(1) fr tr(3) by simp_all
  have cost: "wk_cost w = sum_list (map (\<lambda>n. case cn_cost n of None \<Rightarrow> 0 | Some x \<Rightarrow> x) (ev_nodes ev))"
    "wk_cost_unknown w \<longleftrightarrow> (\<exists>n \<in> set (ev_nodes ev). cn_cost n = None)"
    using walk_order_cost [OF walk] fr ev(1) by (simp_all add: start_walk_def)
  show ?thesis
    using tr empty none(2) ev fr cost
    by (auto simp: start_walk_def trip_conflicts_def not_less split: option.splits if_splits)
qed

section \<open>Timetables\<close>

fun timetable :: "instant \<Rightarrow> instant list \<Rightarrow> instant list \<Rightarrow> bool" where
  "timetable from [] [] = True"
| "timetable from (a # as) (d # ds) = (from \<le> a \<and> a \<le> d \<and> timetable d as ds)"
| "timetable from _ _ = False"

lemma timetable_snoc:
  "timetable from as ds \<Longrightarrow> (if ds = [] then from else last ds) \<le> a \<Longrightarrow> a \<le> d
     \<Longrightarrow> timetable from (as @ [a]) (ds @ [d])"
  by (induction "from" as ds rule: timetable.induct) (auto split: if_splits)

lemma py_nth_mem: "py_nth xs i = Inr x \<Longrightarrow> x \<in> set xs"
  by (auto simp: py_nth_def Let_def split: if_splits)

lemma edge_at_mem: "edge_at m i j = Inr e \<Longrightarrow> \<exists>row \<in> set m. e \<in> set row"
  by (auto simp: edge_at_def res_simps dest!: py_nth_mem)

lemma arrival_at_ge: "reached \<le> arrival_at t reached"
  by (auto simp: arrival_at_def Let_def split: option.splits)

lemma walk_order_timetable:
  assumes "\<forall>row \<in> set m. \<forall>e \<in> set row. 0 \<le> re_duration e" and "\<forall>t \<in> set tasks. 0 \<le> pt_service_minutes t"
  shows "walk_order c buffer tasks m sel order w = Inr w' \<Longrightarrow>
     timetable from (wk_arrivals w) (wk_departures w) \<Longrightarrow>
     wk_cursor w = (if wk_departures w = [] then from else last (wk_departures w)) \<Longrightarrow>
     timetable from (wk_arrivals w') (wk_departures w')"
proof (induction order arbitrary: w)
  case Nil
  then show ?case by simp
next
  case (Cons i order)
  obtain n e t where e: "edge_at m (wk_previous w) (cn_matrix n) = Inr e" and t: "py_nth tasks i = Inr t"
    and rest: "walk_order c buffer tasks m sel order (visit_stop c buffer t n e i w) = Inr w'"
    using Cons.prems(1) by (auto simp: res_simps split: option.splits)
  have "0 \<le> re_duration e" using assms(1) edge_at_mem [OF e] by blast
  then have travel: "0 \<le> td_seconds (re_duration e)" by (rule td_seconds_nonneg)
  have "0 \<le> pt_service_minutes t" using assms(2) py_nth_mem [OF t] by blast
  then have service: "0 \<le> td_minutes (service_minutes t)"
    by (intro td_minutes_nonneg) (simp add: service_minutes_def)
  have "wk_cursor w \<le> arrival_at t (wk_cursor w + td_seconds (re_duration e))"
    using travel arrival_at_ge [of "wk_cursor w + td_seconds (re_duration e)" t] by linarith
  then show ?case
    using Cons.prems(2,3) service
    by (intro Cons.IH [OF rest]) (simp_all add: visit_stop_def Let_def timetable_snoc)
qed

text \<open>
  the timetable of every evaluation runs forward: no stop is reached before the previous one
  is left (the first not before departure), nor left before it is reached.
\<close>

theorem timetable_runs_forward:
  assumes "evaluate_joint_order order sel departure tasks m p c mode buf prev baseline = Inr ev"
    and "\<forall>row \<in> set m. \<forall>e \<in> set row. 0 \<le> re_duration e"
    and "\<forall>t \<in> set tasks. 0 \<le> pt_service_minutes t"
  shows "timetable departure (ev_arrivals ev) (ev_departures ev)"
proof -
  obtain w0 w where walk: "walk_order c (td_minutes (max 0 buf)) tasks m sel order (start_walk c order departure) = Inr w0"
    and leg: "return_leg c m w0 = Inr w" and ev: "ev_arrivals ev = wk_arrivals w" "ev_departures ev = wk_departures w"
    using assms(1) by (rule evaluate_joint_order_Inr)
  have "timetable departure (wk_arrivals w0) (wk_departures w0)"
    by (rule walk_order_timetable [OF assms(2,3) walk]) (simp_all add: start_walk_def)
  then show ?thesis using return_leg_frame [OF leg] ev by simp
qed

section \<open>An example\<close>

definition example_task :: planning_task where
  "example_task = \<lparr>pt_description = ''museum'', pt_location_name = None,
     pt_category = None, pt_required = True, pt_service_minutes = 30, pt_min_service_minutes = None,
     pt_earliest = Some 60000000, pt_deadline = Some 600000000, pt_min_rating = Some 4,
     pt_max_cost = None, pt_require_open = True, pt_require_accessible = False,
     pt_appointment = None\<rparr>"

definition example_node :: candidate_node where
  "example_node = \<lparr>cn_task = 0, cn_rank = 0, cn_matrix = 1, cn_rating = Some 5, cn_confidence = 1,
     cn_cost = None, cn_open = None, cn_accessible = None, cn_district = None\<rparr>"

definition example_edge :: route_edge where
  "example_edge = \<lparr>re_duration = 0, re_distance = 0, re_confidence = 1\<rparr>"

definition example_matrix :: route_matrix where
  "example_matrix = [[example_edge, example_edge], [example_edge, example_edge]]"

definition example_evaluation :: "route_evaluation res" where
  "example_evaluation = evaluate_joint_order [0] (selection_of [example_node]) 0 [example_task]
     example_matrix default_preferences no_constraints Walking 0 None (Some 0)"

lemma td_seconds_zero [simp]: "td_seconds 0 = 0"
  by (simp add: td_seconds_def round_half_even_def)

lemma example_evaluates:
  "\<exists>ev. example_evaluation = Inr ev \<and> ev_feasible ev \<and> ev_arrivals ev = [60000000]"
  by (simp add: example_evaluation_def evaluate_joint_order_def selection_of_def example_node_def
      example_task_def example_matrix_def example_edge_def no_constraints_def start_walk_def
      edge_at_def py_nth_def visit_stop_def stop_conflicts_def arrival_at_def service_minutes_def
      return_leg_def trip_conflicts_def only_if_def requires_accessible_def Let_def td_minutes_def)

theorem feasible_meets_hard_constraints_witness:
  "\<exists>ev. example_evaluation = Inr ev
     \<and> stops_fine no_constraints 0 [example_task] (selection_of [example_node]) [0] (ev_nodes ev) (ev_arrivals ev)"
proof -
  obtain ev where ev: "example_evaluation = Inr ev" "ev_feasible ev" using example_evaluates by blast
  from feasible_meets_hard_constraints [OF ev(1) [unfolded example_evaluation_def] ev(2)] ev(1)
  show ?thesis by (auto simp: td_minutes_def)
qed

theorem timetable_runs_forward_witness:
  "\<exists>ev. example_evaluation = Inr ev \<and> timetable 0 (ev_arrivals ev) (ev_departures ev)"
proof -
  obtain ev where ev: "example_evaluation = Inr ev" using example_evaluates by blast
  have "timetable 0 (ev_arrivals ev) (ev_departures ev)"
    by (rule timetable_runs_forward [OF ev [unfolded example_evaluation_def]])
      (simp_all add: example_matrix_def example_edge_def example_task_def)
  with ev show ?thesis by blast
qed

theorem exact_enumeration_optimal_witness:
  "\<exists>ev ev'. optimize_joint_route 0 [example_task] [[example_node]] example_matrix default_preferences
       no_constraints Walking 0 None None = Inr (ev, Joint_exact)
     \<and> example_evaluation = Inr ev' \<and> evaluation_key default_preferences ev \<le> evaluation_key default_preferences ev'"
proof -
  obtain ev where ev: "example_evaluation = Inr ev" using example_evaluates by blast
  have b: "baseline_walk example_matrix 0 0 (map hd (filter (\<lambda>g. g \<noteq> []) [[example_node]])) = Inr 0"
    by (simp add: example_matrix_def example_node_def edge_at_def py_nth_def example_edge_def)
  have r: "optimize_joint_route 0 [example_task] [[example_node]] example_matrix default_preferences
       no_constraints Walking 0 None None = Inr (ev, Joint_exact)"
    using ev b
    by (simp add: optimize_joint_route_def exact_size_def factorial_of_def exact_candidates_def
        example_evaluation_def)
  have "\<exists>ev'. evaluate_joint_order [0] (selection_of [example_node]) 0 [example_task] example_matrix
      default_preferences no_constraints Walking 0 None (Some 0) = Inr ev'
      \<and> evaluation_key default_preferences ev \<le> evaluation_key default_preferences ev'
      \<and> (ev_feasible ev' \<longrightarrow> ev_feasible ev)"
    by (rule exact_enumeration_optimal [OF r b]) simp_all
  with r show ?thesis unfolding example_evaluation_def by blast
qed

section \<open>Beam search\<close>

definition beam_inv :: "candidate_node list list \<Rightarrow> hard_constraints \<Rightarrow> nat \<Rightarrow> beam_state \<Rightarrow> bool" where
  "beam_inv groups c k s \<longleftrightarrow>
     distinct (bs_order s) \<and> length (bs_order s) = k \<and>
     set (bs_order s) = set (dkeys (bs_selected s)) \<and>
     set (bs_order s) \<subseteq> set (map int [0..<length groups]) \<and>
     (\<forall>i n. dget (bs_selected s) i = Some n \<longrightarrow> n \<in> set (groups ! nat i)) \<and>
     (distinct (hc_task_order c) \<longrightarrow>
        filter (\<lambda>x. x \<in> set (hc_task_order c)) (bs_order s)
          = take (length (filter (\<lambda>x. x \<in> set (hc_task_order c)) (bs_order s))) (hc_task_order c))"

lemma beam_choices_mem:
  "(s, i, n) \<in> set (beam_choices groups c states) \<Longrightarrow>
     s \<in> set states \<and> i \<notin> set (dkeys (bs_selected s)) \<and> task_order_allowed (bs_order s) i (hc_task_order c)
     \<and> i \<in> set (map int [0..<length groups]) \<and> n \<in> set (groups ! nat i)"
  by (auto simp: beam_choices_def in_set_zip split: if_splits)

lemma index_of_nth: "x \<in> set xs \<Longrightarrow> index_of xs x < length xs \<and> xs ! index_of xs x = x"
  by (induction xs) auto

lemma expand_node_inv:
  assumes "beam_inv groups c k s" and "(s, i, n) \<in> set (beam_choices groups c states)"
    and "expand_node m p (s, i, n) = Inr s'"
  shows "beam_inv groups c (Suc k) s'"
proof -
  note mem = beam_choices_mem [OF assms(2)]
  have s': "bs_order s' = bs_order s @ [i]" "bs_selected s' = dset i n (bs_selected s)"
    using assms(3) by (auto simp: expand_node_def res_simps)
  let ?req = "hc_task_order c"
  let ?f = "\<lambda>o'. filter (\<lambda>x. x \<in> set ?req) o'"
  have fresh: "i \<notin> set (bs_order s)" using mem assms(1) by (simp add: beam_inv_def)
  have "?f (bs_order s') = take (length (?f (bs_order s'))) ?req" if "distinct ?req"
  proof -
    have IH: "?f (bs_order s) = take (length (?f (bs_order s))) ?req"
      using assms(1) that unfolding beam_inv_def by blast
    show ?thesis
    proof (cases "i \<in> set ?req")
      case True
      then have ix: "index_of ?req i = length (?f (bs_order s))"
        using mem by (simp add: task_order_allowed_def)
      then have "length (?f (bs_order s)) < length ?req" "?req ! length (?f (bs_order s)) = i"
        using index_of_nth [OF True] by simp_all
      with True IH show ?thesis by (simp add: s' take_Suc_conv_app_nth)
    next
      case False
      with IH show ?thesis by (simp add: s')
    qed
  qed
  moreover have "set (bs_order s') = set (dkeys (bs_selected s'))"
    using assms(1) unfolding s' dkeys_dset by (simp add: beam_inv_def)
  moreover have "\<forall>j x. dget (bs_selected s') j = Some x \<longrightarrow> x \<in> set (groups ! nat j)"
    using assms(1) mem by (simp add: s' beam_inv_def)
  moreover have sub: "set (bs_order s) \<subseteq> set (map int [0..<length groups])"
    using assms(1) unfolding beam_inv_def by blast
  moreover have "set (bs_order s') \<subseteq> set (map int [0..<length groups])"
    using sub mem by (simp add: s')
  moreover have "distinct (bs_order s')" "length (bs_order s') = Suc k"
    using assms(1) fresh by (simp_all add: s' beam_inv_def)
  ultimately show ?thesis unfolding beam_inv_def by blast
qed

lemma beam_rounds_inv:
  "beam_rounds groups m p c width j states = Inr states' \<Longrightarrow> \<forall>s \<in> set states. beam_inv groups c k s
     \<Longrightarrow> \<forall>s \<in> set states'. beam_inv groups c (k + j) s"
proof (induction j arbitrary: states k)
  case 0
  then show ?case by simp
next
  case (Suc j)
  obtain ex where ex: "res_map (expand_node m p) (beam_choices groups c states) = Inr ex"
    and rest: "beam_rounds groups m p c width j (take width (sort_key bs_score ex)) = Inr states'"
    using Suc.prems(1) by (auto simp: beam_step_def res_simps)
  have "beam_inv groups c (Suc k) s'" if new: "s' \<in> set ex" for s'
  proof -
    obtain s i n where x: "(s, i, n) \<in> set (beam_choices groups c states)" "expand_node m p (s, i, n) = Inr s'"
      using res_map_mem_rev [OF ex new] by (metis prod_cases3)
    then have "beam_inv groups c k s" using Suc.prems(2) beam_choices_mem by blast
    then show ?thesis using expand_node_inv x by blast
  qed
  then have "\<forall>s \<in> set (take width (sort_key bs_score ex)). beam_inv groups c (Suc k) s"
    by (metis in_set_takeD set_sort)
  then show ?case using Suc.IH [OF rest, of "Suc k"] by simp
qed

lemma filter_take_distinct: "distinct xs \<Longrightarrow> filter (\<lambda>x. x \<in> set (take k xs)) xs = take k xs"
proof -
  assume d: "distinct xs"
  have "filter (\<lambda>x. x \<in> set (take k xs)) (take k xs @ drop k xs)
      = filter (\<lambda>x. x \<in> set (take k xs)) (take k xs) @ filter (\<lambda>x. x \<in> set (take k xs)) (drop k xs)"
    by (rule filter_append)
  also have "filter (\<lambda>x. x \<in> set (take k xs)) (drop k xs) = []"
    using set_take_disj_set_drop_if_distinct [OF d order_refl, of k] by (auto simp: filter_empty_conv)
  finally show ?thesis by simp
qed

lemma index_of_append: "index_of (xs @ ys) x = (if x \<in> set xs then index_of xs x else length xs + index_of ys x)"
  by (induction xs) auto

lemma sorted_index_filter: "distinct xs \<Longrightarrow> sorted (map (index_of xs) (filter P xs))"
proof (induction xs rule: rev_induct)
  case (snoc x xs)
  have same: "map (index_of (xs @ [x])) (filter P xs) = map (index_of xs) (filter P xs)"
    using snoc.prems by (auto simp: index_of_append)
  have "\<forall>y \<in> set (filter P xs). index_of (xs @ [x]) y \<le> index_of (xs @ [x]) x"
    using snoc.prems index_of_nth by (auto simp: index_of_append) (meson less_imp_le_nat)
  moreover have "sorted (map (index_of (xs @ [x])) (filter P xs))"
    unfolding same using snoc by simp
  ultimately show ?case by (simp add: sorted_append)
qed simp

lemma beam_joint_mem:
  assumes "beam_joint groups m p c width = Inr plans" and "(order, sel) \<in> set plans"
  obtains s where "beam_inv groups c (length groups) s" "order = bs_order s" "sel = bs_selected s"
    "distinct order" "mset order = mset (map int [0..<length groups])"
proof -
  let ?s0 = "\<lparr>bs_order = [], bs_selected = [], bs_previous = 0, bs_score = 0\<rparr>"
  obtain states where st: "beam_rounds groups m p c width (length groups) [?s0] = Inr states"
    and plans: "plans = map (\<lambda>s. (bs_order s, bs_selected s)) states"
    using assms(1) by (auto simp: beam_joint_def res_simps)
  have "beam_inv groups c 0 ?s0" by (simp add: beam_inv_def)
  then have "\<forall>s \<in> set states. beam_inv groups c (length groups) s"
    using beam_rounds_inv [OF st, of 0] by simp
  then obtain s where inv: "beam_inv groups c (length groups) s" and s: "order = bs_order s" "sel = bs_selected s"
    using assms(2) plans by auto
  have sub: "set order \<subseteq> set (map int [0..<length groups])" and d: "distinct order"
    and len: "length order = length groups"
    using inv s unfolding beam_inv_def by blast+
  have "card (set order) = card (set (map int [0..<length groups]))"
    using d len by (simp add: distinct_card card_image)
  then have "set order = set (map int [0..<length groups])"
    using sub by (intro card_subset_eq) simp_all
  then have perm: "mset order = mset (map int [0..<length groups])"
    using d by (intro set_eq_iff_mset_eq_distinct [THEN iffD1]) (simp_all add: distinct_map)
  show thesis by (rule that [OF inv s d perm])
qed

text \<open>
  the beam search only proposes complete plans: every task of the problem is visited exactly
  once, at one of its own candidates, and the tasks the user ordered come in that order.
\<close>

theorem beam_plans_complete:
  assumes "beam_joint groups m p c width = Inr plans" and "(order, sel) \<in> set plans"
    and "distinct (hc_task_order c)"
  shows "mset order = mset (map int [0..<length groups])
       \<and> (\<forall>i \<in> set order. \<exists>n. dget sel i = Some n \<and> n \<in> set (groups ! nat i))
       \<and> relative_order_satisfied order (hc_task_order c)"
proof -
  obtain s where inv: "beam_inv groups c (length groups) s" and s: "order = bs_order s" "sel = bs_selected s"
    and d: "distinct order" and perm: "mset order = mset (map int [0..<length groups])"
    using assms(1,2) by (rule beam_joint_mem)
  let ?req = "hc_task_order c"
  let ?chosen = "filter (\<lambda>x. x \<in> set ?req) order"
  have chosen: "?chosen = take (length ?chosen) ?req"
    using inv s assms(3) unfolding beam_inv_def by blast
  have "filter (\<lambda>x. x \<in> set order) ?req = filter (\<lambda>x. x \<in> set ?chosen) ?req"
    by (rule filter_cong) auto
  also have "\<dots> = ?chosen"
    using filter_take_distinct [OF assms(3), of "length ?chosen"] chosen by simp
  finally have present: "filter (\<lambda>x. x \<in> set order) ?req = ?chosen" .
  have "sort_key (index_of order) ?chosen = ?chosen"
    using sorted_index_filter [OF d] by (rule sort_key_id_if_sorted)
  then have "relative_order_satisfied order ?req"
    by (simp add: relative_order_satisfied_def present Let_def)
  moreover have "\<exists>n. dget sel i = Some n \<and> n \<in> set (groups ! nat i)" if "i \<in> set order" for i
  proof -
    have "i \<in> set (dkeys sel)" using that inv s unfolding beam_inv_def by blast
    then obtain n where "dget sel i = Some n" by (metis dget_None_iff option.exhaust)
    with inv s show ?thesis unfolding beam_inv_def by blast
  qed
  ultimately show ?thesis using perm by blast
qed

theorem beam_plans_complete_witness:
  "\<exists>plans. beam_joint [[example_node]] example_matrix default_preferences no_constraints 250 = Inr plans
     \<and> (\<forall>(order, sel) \<in> set plans. mset order = mset (map int [0..<1])) \<and> plans \<noteq> []"
proof -
  obtain plans where p: "beam_joint [[example_node]] example_matrix default_preferences no_constraints 250 = Inr plans"
    and ne: "plans \<noteq> []"
    by (simp add: beam_joint_def beam_step_def beam_choices_def task_order_allowed_def no_constraints_def
        expand_node_def edge_at_def py_nth_def example_matrix_def example_node_def)
  have "mset order = mset (map int [0..<1])" if "(order, sel) \<in> set plans" for order sel
    using beam_plans_complete [OF p that] by (simp add: no_constraints_def)
  with p ne show ?thesis by blast
qed

end
