(* ===== verification/Plan_Facts.thy ===== *)
theory Plan_Facts
  imports Plan_Versions Route_Properties
begin

text \<open>
  Facts about patches and plan versions that the properties rest on: what each operation of a
  patch does to the multiset of obligations, what an accepted recalculation guarantees, and what
  every transaction does to the table of versions.
\<close>

section \<open>Positions\<close>

lemma find_stop_Some:
  "find_stop sid sts = Inr (Some i) \<Longrightarrow> i < length sts \<and> poi_id (ps_poi (sts ! i)) = sid"
  by (induction sts arbitrary: i) (auto simp: res_simps split: option.splits if_splits)

lemma mset_remove_at:
  "i < length xs \<Longrightarrow> add_mset (xs ! i) (mset (remove_at i xs)) = mset xs"
  unfolding remove_at_def by (metis id_take_nth_drop mset.simps(2) mset_append union_mset_add_mset_right)

lemma mset_py_insert: "mset (py_insert i x xs) = add_mset x (mset xs)"
  unfolding py_insert_def Let_def by (rule mset_insert_at)

lemma py_pop_Inr:
  assumes "py_pop i xs = Inr (x, rest)"
  shows "mset xs = add_mset x (mset rest)"
proof -
  define j where "j = (if i < 0 then i + int (length xs) else i)"
  from assms have "0 \<le> j" "j < int (length xs)" "x = xs ! nat j" "rest = remove_at (nat j) xs"
    by (auto simp: py_pop_def Let_def j_def split: if_splits)
  then show ?thesis using mset_remove_at [of "nat j" xs] by simp
qed

section \<open>Obligations\<close>

text \<open>What a stop stands for: the index of its task and the task itself.\<close>

definition obligation :: "planned_stop \<Rightarrow> int \<times> planning_task" where
  "obligation st = (ps_task_index st, ps_task st)"

definition obligations :: "planned_stop list \<Rightarrow> (int \<times> planning_task) multiset" where
  "obligations sts = mset (map obligation sts)"

lemma map_obligation: "map obligation sts = zip (map ps_task_index sts) (map ps_task sts)"
  by (induction sts) (simp_all add: obligation_def)

lemma obligation_replace_with [simp]: "obligation (replace_with p r st) = obligation st"
  by (simp add: obligation_def replace_with_def)

lemma obligations_remove_at:
  assumes "i < length sts"
  shows "obligations (remove_at i sts) \<subseteq># obligations sts"
proof -
  have "mset (remove_at i sts) \<subseteq># mset sts"
    using mset_remove_at [OF assms] by (metis mset_subset_eq_add_right union_mset_add_mset_left add_mset_add_single mset_subset_eq_add_left)
  then show ?thesis by (simp add: obligations_def image_mset_subseteq_mono)
qed

lemma obligations_update:
  assumes "i < length sts" and "obligation st = obligation (sts ! i)"
  shows "obligations (sts[i := st]) = obligations sts"
proof -
  have "map obligation (sts[i := st]) = map obligation sts"
    using assms by (metis list_update_id map_update)
  then show ?thesis by (simp only: obligations_def)
qed

lemma apply_replace_Inr:
  assumes "apply_operation (Replace_stop sid rep) (sn, sts) = Inr (sn', sts')"
  obtains i p r where "find_stop sid sts = Inr (Some i)"
    "sts' = sts[i := replace_with p r (sts ! i)]" "sn' = sn"
proof -
  obtain pos where "find_stop sid sts = Inr pos"
    using assms by (auto simp: apply_operation_def res_simps)
  with assms that show thesis
    by (cases pos; cases rep; cases "rp_poi (the rep)"; cases "rp_task (the rep)")
      (auto simp: apply_operation_def)
qed

lemma apply_operation_obligations:
  assumes "apply_operation op (sn, sts) = Inr (sn', sts')"
  shows "obligations sts' \<subseteq># obligations sts"
proof (cases op)
  case (Remove_stop sid)
  with assms obtain i where "find_stop sid sts = Inr (Some i)" "sts' = remove_at i sts"
    by (auto simp: apply_operation_def res_simps split: option.splits)
  then show ?thesis using find_stop_Some obligations_remove_at by blast
next
  case (Move_stop a b)
  with assms obtain i j st rest where "py_pop i sts = Inr (st, rest)" "sts' = py_insert j st rest"
    by (auto simp: apply_operation_def res_simps split: option.splits if_splits)
  then have "mset sts' = mset sts" by (simp add: py_pop_Inr mset_py_insert)
  then show ?thesis by (simp add: obligations_def)
next
  case (Replace_stop sid rep)
  with assms obtain i p r where "find_stop sid sts = Inr (Some i)"
      "sts' = sts[i := replace_with p r (sts ! i)]"
    using apply_replace_Inr by metis
  then show ?thesis using find_stop_Some obligations_update by fastforce
next
  case (Change_transport_mode m)
  with assms show ?thesis by (auto simp: apply_operation_def split: option.splits)
next
  case (Change_departure_time d)
  with assms show ?thesis by (auto simp: apply_operation_def split: departure_text.splits)
qed

lemma apply_operation_intent:
  assumes "apply_operation op (sn, sts) = Inr (sn', sts')"
  shows "in_tasks (sn_intent sn') = in_tasks (sn_intent sn) \<and> in_hard (sn_intent sn') = in_hard (sn_intent sn)"
proof (cases op)
  case (Replace_stop sid rep)
  with assms show ?thesis using apply_replace_Inr by metis
qed (use assms in \<open>auto simp: apply_operation_def res_simps split: option.splits if_splits departure_text.splits\<close>)

lemma apply_operations_frame:
  assumes "apply_operations ops (sn, sts) = Inr (sn', sts')"
  shows "obligations sts' \<subseteq># obligations sts \<and> in_tasks (sn_intent sn') = in_tasks (sn_intent sn)
    \<and> in_hard (sn_intent sn') = in_hard (sn_intent sn)"
  using assms
proof (induction ops arbitrary: sn sts)
  case Nil
  then show ?case by simp
next
  case (Cons op ops)
  from Cons.prems obtain sn1 sts1 where step: "apply_operation op (sn, sts) = Inr (sn1, sts1)"
      and rest: "apply_operations ops (sn1, sts1) = Inr (sn', sts')"
    by (auto simp: res_simps)
  from Cons.IH [OF rest] apply_operation_obligations [OF step] apply_operation_intent [OF step]
  show ?case by (auto intro: subset_mset.trans)
qed

section \<open>Recalculation\<close>

lemma collect_stops_clean:
  assumes "collect_stops n pos sts (order, sel, cs) = (order', sel', [])"
  shows "cs = [] \<and> order' = order @ map ps_task_index sts
    \<and> dkeys sel' = dkeys sel @ map ps_task_index sts
    \<and> distinct (map ps_task_index sts) \<and> set (map ps_task_index sts) \<inter> set (dkeys sel) = {}
    \<and> (\<forall>st \<in> set sts. 0 \<le> ps_task_index st \<and> ps_task_index st < int n)"
  using assms
proof (induction sts arbitrary: pos order sel cs)
  case Nil
  then show ?case by simp
next
  case (Cons st sts)
  let ?i = "ps_task_index st"
  show ?case
  proof (cases "(0 \<le> ?i \<and> ?i < int n) \<and> ?i \<notin> set (dkeys sel)")
    case True
    with Cons.prems have run: "collect_stops n (pos + 1) sts
        (order @ [?i], dset ?i (node_of st pos) sel, cs) = (order', sel', [])"
      by (simp add: Let_def)
    have keys: "dkeys (dset ?i (node_of st pos) sel) = dkeys sel @ [?i]"
      using True by (simp add: dset_fresh)
    from Cons.IH [OF run] True show ?thesis unfolding keys by auto
  next
    case False
    with Cons.prems have "collect_stops n (pos + 1) sts (order, sel, cs @ [Task_identity_broken]) = (order', sel', [])"
      by (simp add: Let_def split: if_splits)
    from Cons.IH [OF this] show ?thesis by simp
  qed
qed

text \<open>What a plan owes to its intent: each stop a task of its own, every required task a stop.\<close>

definition covers_intent :: "planning_task list \<Rightarrow> planned_stop list \<Rightarrow> bool" where
  "covers_intent tasks sts \<longleftrightarrow>
     distinct (map ps_task_index sts)
     \<and> list_all (\<lambda>i. 0 \<le> i \<and> i < int (length tasks)) (map ps_task_index sts)
     \<and> list_all (\<lambda>i. pt_required (tasks ! i) \<longrightarrow> int i \<in> set (map ps_task_index sts)) [0..<length tasks]"

lemma identity_conflicts_none:
  assumes "identity_conflicts tasks sts = []"
  shows "covers_intent tasks sts"
proof -
  obtain order sel cs where run: "collect_stops (length tasks) 1 sts ([], [], []) = (order, sel, cs)"
    by (metis prod_cases3)
  with assms have cs: "cs = []" and missing: "required_missing tasks sel = []"
    by (auto simp: identity_conflicts_def Let_def split: if_splits)
  from collect_stops_clean [OF run [unfolded cs]] have clean: "dkeys sel = map ps_task_index sts"
      "distinct (map ps_task_index sts)"
      "\<forall>st \<in> set sts. 0 \<le> ps_task_index st \<and> ps_task_index st < int (length tasks)"
    by simp_all
  from missing have "\<forall>i < length tasks. pt_required (tasks ! i) \<longrightarrow> int i \<in> set (dkeys sel)"
    by (auto simp: required_missing_def filter_empty_conv)
  with clean show ?thesis by (auto simp: covers_intent_def list_all_iff)
qed

lemma retime_stop_Inr:
  assumes "retime_stop message tasks m sel ev st = Inr st'"
  shows "ps_task_index st' = ps_task_index st \<and> ps_task st' = ps_task st \<and> ps_poi st' = ps_poi st
    \<and> ps_arrival st' \<noteq> None \<and> ps_departure st' \<noteq> None
    \<and> (evaluation_conflicts ev = [] \<longrightarrow> ps_satisfied st' = Some True)"
  using assms by (auto simp: retime_stop_def Let_def res_simps split: option.splits)

lemma res_map_Inr_all2: "res_map f xs = Inr ys \<Longrightarrow> list_all2 (\<lambda>x y. f x = Inr y) xs ys"
  by (induction xs arbitrary: ys) (auto simp: res_simps)

lemma retime_all:
  assumes "res_map (retime_stop message tasks m sel ev) sts = Inr timed"
  shows "map ps_task_index timed = map ps_task_index sts \<and> map ps_task timed = map ps_task sts
    \<and> map ps_poi timed = map ps_poi sts
    \<and> (\<forall>st \<in> set timed. ps_arrival st \<noteq> None \<and> ps_departure st \<noteq> None
         \<and> (evaluation_conflicts ev = [] \<longrightarrow> ps_satisfied st = Some True))"
  using res_map_Inr_all2 [OF assms]
  by (induction rule: list_all2_induct) (simp_all, use retime_stop_Inr in blast)

text \<open>The recalculation inverted: either the identities are broken, or an evaluation decided.\<close>

lemma recalculate_Inr:
  assumes "recalculate_and_validate_snapshot provider message sn sts context = Inr (sn', conflicts)"
  obtains (broken) "identity_conflicts (in_tasks (sn_intent sn)) sts \<noteq> []"
      "conflicts = identity_conflicts (in_tasks (sn_intent sn)) sts"
  | (evaluated) departure mode m order sel ev timed where
      "identity_conflicts (in_tasks (sn_intent sn)) sts = []"
      "collect_stops (length (in_tasks (sn_intent sn))) 1 sts ([], [], []) = (order, sel, [])"
      "evaluate_joint_order order sel departure (in_tasks (sn_intent sn)) m
         (in_preferences (sn_intent sn)) (in_hard (sn_intent sn)) mode
         (safety_buffer (in_buffers (sn_intent sn))) None None = Inr ev"
      "res_map (retime_stop message (in_tasks (sn_intent sn)) m sel ev) sts = Inr timed"
      "conflicts = map Route_conflict (evaluation_conflicts ev)"
      "sn_stops sn' = timed" "sn_intent sn' = sn_intent sn"
proof -
  obtain order sel cs where run: "collect_stops (length (in_tasks (sn_intent sn))) 1 sts ([], [], []) = (order, sel, cs)"
    by (metis prod_cases3)
  have clean: "identity_conflicts (in_tasks (sn_intent sn)) sts = [] \<Longrightarrow> cs = []"
    using run by (auto simp: identity_conflicts_def Let_def split: if_splits)
  show thesis
  proof (cases "identity_conflicts (in_tasks (sn_intent sn)) sts = []")
    case False
    with assms show ?thesis
      by (intro broken) (auto simp: recalculate_and_validate_snapshot_def Let_def run res_simps split: option.splits)
  next
    case True
    with clean have "cs = []" by blast
    with assms True run show ?thesis
      by (auto simp: recalculate_and_validate_snapshot_def Let_def res_simps split: option.splits
          intro!: evaluated)
  qed
qed

text \<open>The constraints the recalculation can only answer with a soft penalty: it has no baseline route.\<close>

definition no_soft_constraints :: "hard_constraints \<Rightarrow> bool" where
  "no_soft_constraints c \<longleftrightarrow>
     hc_max_detour c = None \<and> hc_transport_budget c = None \<and> hc_dining_budget c = None \<and> hc_ticket_budget c = None"

lemma evaluation_without_soft:
  assumes "evaluate_joint_order order sel departure tasks m p c mode buf prev None = Inr ev" and "ev_soft ev = []"
  shows "no_soft_constraints c"
  using assms
  by (auto simp: evaluate_joint_order_def Let_def res_simps soft_penalties_def no_soft_constraints_def split: if_splits)

lemma recalculate_accepts:
  assumes "recalculate_and_validate_snapshot provider message sn sts context = Inr (sn', [])"
  shows "covers_intent (in_tasks (sn_intent sn')) (sn_stops sn')
    \<and> list_all (\<lambda>st. ps_satisfied st = Some True \<and> ps_arrival st \<noteq> None \<and> ps_departure st \<noteq> None) (sn_stops sn')
    \<and> sn_intent sn' = sn_intent sn \<and> obligations (sn_stops sn') = obligations sts
    \<and> no_soft_constraints (in_hard (sn_intent sn))"
  using assms
proof (cases rule: recalculate_Inr)
  case broken
  then show ?thesis by simp
next
  case (evaluated departure mode m order sel ev timed)
  have same: "map ps_task_index timed = map ps_task_index sts" "map ps_task timed = map ps_task sts"
    using retime_all [OF evaluated(4)] by simp_all
  have "map obligation timed = map obligation sts"
    by (simp only: map_obligation same)
  moreover have "covers_intent (in_tasks (sn_intent sn)) timed"
    using identity_conflicts_none [OF evaluated(1)] by (simp only: covers_intent_def same)
  moreover have none: "evaluation_conflicts ev = []" using evaluated(5) by simp
  moreover have "no_soft_constraints (in_hard (sn_intent sn))"
    using evaluation_without_soft [OF evaluated(3)] none by (simp add: evaluation_conflicts_def)
  ultimately show ?thesis
    using retime_all [OF evaluated(4)] evaluated(6,7) by (simp add: obligations_def list_all_iff)
qed

section \<open>What a transaction commits\<close>

lemma run_transaction_cases:
  assumes "run_transaction tx d0 d1 = (r, d2)"
  obtains (kept) e where "r = Inl e" "d2 = d1"
  | (failed) e w where "tx d0 = Inl (e, Some w)" "r = Inl e" "d2 = w d1" "unique_rows (w d1)"
  | (committed) a w where "tx d0 = Inr (a, w)" "r = Inr a" "d2 = w d1" "unique_rows (w d1)"
  using assms
  by (auto simp: run_transaction_def commit_def split: sum.splits option.splits prod.splits if_splits)

lemma accept_transaction_Inr:
  assumes "accept_transaction provider message t policy ev p d0 = Inr ((n, sn), w)"
  obtains cur sn0 stops where "latest_version (pa_run p) d0 = Some cur" "vr_version cur = pa_base p"
    "n = pa_base p + 1"
    "apply_patch_structure (vr_snapshot cur) (pa_operations p) = Inr (sn0, stops)"
    "recalculate_and_validate_snapshot provider message sn0 stops (im_context (pa_impact p)) = Inr (sn, [])"
    "w = accept_patch p n sn (filter (\<lambda>r. tw_run r = pa_run p \<and> tw_version r = pa_base p) (db_trips d0)) t policy ev"
  using assms
  by (auto simp: accept_transaction_def Let_def res_simps split: option.splits if_splits sum.splits)

lemma accept_transaction_Inl:
  assumes "accept_transaction provider message t policy ev p d0 = Inl (e, Some w)"
  shows "w = block_patch p t"
  using assms
  by (auto simp: accept_transaction_def Let_def split: option.splits if_splits sum.splits)

lemma versions_frame [simp]:
  "db_versions (block_patch p t db) = db_versions db"
  "db_versions (reject_patch p trips t db) = db_versions db"
  "db_runs (block_patch p t db) = db_runs db"
  "db_runs (reject_patch p trips t db) = db_runs db"
  "db_runs (accept_patch p n sn trips t policy ev db) = db_runs db"
  by (simp_all add: block_patch_def reject_patch_def accept_patch_def)

lemma latest_version_Some:
  assumes "latest_version run db = Some cur"
  shows "vr_version cur \<in> set (versions_of run db) \<and> (\<forall>v \<in> set (versions_of run db). v \<le> vr_version cur)"
proof -
  have pick: "foldl (\<lambda>a b. if vr_version a < vr_version b then b else a) v vs \<in> insert v (set vs)
      \<and> (\<forall>x \<in> insert v (set vs). vr_version x
           \<le> vr_version (foldl (\<lambda>a b. if vr_version a < vr_version b then b else a) v vs))" for v vs
    by (induction vs rule: rev_induct) auto
  from assms obtain v vs where f: "filter (\<lambda>v. vr_run v = run) (db_versions db) = v # vs"
      and c: "cur = foldl (\<lambda>a b. if vr_version a < vr_version b then b else a) v vs"
    by (auto simp: latest_version_def split: list.splits)
  from pick [of v vs] have "cur \<in> insert v (set vs)" "\<forall>x \<in> insert v (set vs). vr_version x \<le> vr_version cur"
    unfolding c by blast+
  moreover have "set (versions_of run db) = vr_version ` insert v (set vs)"
    unfolding versions_of_def f by simp
  ultimately show ?thesis by auto
qed

section \<open>Histories\<close>

text \<open>
  The states the database goes through, the latest first. Every transaction reads some state of
  the history, its own or an older one, and commits into the latest. \<open>other\<close> stands for the code
  that writes the other tables and for the other place that proposes patches.
\<close>

definition empty_database :: database where
  "empty_database = \<lparr>db_runs = [], db_versions = [], db_patches = [], db_trips = [], db_events = [],
     db_workflows = [], db_artifacts = [], db_audit = []\<rparr>"

inductive plan_history :: "map_provider \<Rightarrow> (route_message \<Rightarrow> string) \<Rightarrow> database list \<Rightarrow> bool"
  for provider message where
  start: "plan_history provider message [empty_database]"
| save: "\<lbrakk>plan_history provider message (d1 # h); save_first_version new_run user sn reason d1 = (r, d2)\<rbrakk>
    \<Longrightarrow> plan_history provider message (d2 # d1 # h)"
| create: "\<lbrakk>plan_history provider message (d1 # h); d0 \<in> set (d1 # h);
      create_plan_patch run user new_id base ops reason impact d0 d1 = (r, d2)\<rbrakk>
    \<Longrightarrow> plan_history provider message (d2 # d1 # h)"
| decide: "\<lbrakk>plan_history provider message (d1 # h); d0 \<in> set (d1 # h);
      decide_plan_patch provider message run patch_id user accept t d0 d1 = (answer, d2)\<rbrakk>
    \<Longrightarrow> plan_history provider message (d2 # d1 # h)"
| apply_cas: "\<lbrakk>plan_history provider message (d1 # h); d0 \<in> set (d1 # h);
      apply_plan_patch_cas provider message patch_id policy t d0 d1 = (outcome, d2)\<rbrakk>
    \<Longrightarrow> plan_history provider message (d2 # d1 # h)"
| other: "\<lbrakk>plan_history provider message (d1 # h); db_versions d2 = db_versions d1;
      db_runs d2 = db_runs d1; unique_rows d2\<rbrakk>
    \<Longrightarrow> plan_history provider message (d2 # d1 # h)"

text \<open>
  Every transaction does one of three things to the versions: nothing, a first version of a run
  that is new, or the version after the one it read.
\<close>

definition versions_step :: "database \<Rightarrow> database \<Rightarrow> database \<Rightarrow> bool" where
  "versions_step d0 d1 d2 \<longleftrightarrow>
     db_versions d2 = db_versions d1 \<and> db_runs d2 = db_runs d1
     \<or> unique_rows d2 \<and> (\<exists>row. db_versions d2 = db_versions d1 @ [row] \<and>
         (vr_version row = 1 \<and> (\<exists>u. db_runs d2 = db_runs d1 @ [\<lparr>rr_id = vr_run row, rr_user = u\<rparr>])
          \<or> db_runs d2 = db_runs d1 \<and>
             (\<exists>cur. latest_version (vr_run row) d0 = Some cur \<and> vr_version row = vr_version cur + 1)))"

lemma accept_versions_step:
  assumes "run_transaction (accept_transaction provider message t policy ev p) d0 d1 = (r, d2)"
  shows "versions_step d0 d1 d2"
  using assms
proof (cases rule: run_transaction_cases)
  case (kept e)
  then show ?thesis by (simp add: versions_step_def)
next
  case (failed e w)
  then show ?thesis using accept_transaction_Inl [OF failed(1)] by (simp add: versions_step_def)
next
  case (committed a w)
  obtain n sn where a: "a = (n, sn)" by (cases a)
  show ?thesis
  proof (rule accept_transaction_Inr [OF committed(1) [unfolded a]])
    fix cur sn0 stops
    assume "latest_version (pa_run p) d0 = Some cur" "vr_version cur = pa_base p" "n = pa_base p + 1"
      and w: "w = accept_patch p n sn (filter (\<lambda>r. tw_run r = pa_run p \<and> tw_version r = pa_base p) (db_trips d0)) t policy ev"
    moreover have "db_versions d2 = db_versions d1 @
        [\<lparr>vr_run = pa_run p, vr_user = pa_user p, vr_version = n, vr_snapshot = sn, vr_reason = pa_reason p\<rparr>]"
      unfolding committed(3) w by (simp add: accept_patch_def)
    ultimately show ?thesis using committed(3,4) by (auto simp: versions_step_def)
  qed
qed

lemma as_conflict_snd [simp]: "snd (as_conflict x) = snd x"
  by (auto simp: as_conflict_def split: prod.splits sum.splits)

lemma apply_cas_versions_step:
  assumes "apply_plan_patch_cas provider message patch_id policy t d0 d1 = (r, d2)"
  shows "versions_step d0 d1 d2"
proof -
  let ?tx = "\<lambda>d. case find_row (\<lambda>p. pa_id p = patch_id) (db_patches d) of
         None \<Rightarrow> Inl (AppError 404 ''PLAN_PATCH_NOT_FOUND'', None)
       | Some p \<Rightarrow>
           if pa_status p \<noteq> Pending then Inl (AppError 409 ''PLAN_PATCH_ALREADY_DECIDED'', None)
           else accept_transaction provider message t policy (Some policy) p d"
  have d2: "d2 = snd (run_transaction ?tx d0 d1)"
    using arg_cong [OF assms, of snd] by (simp add: apply_plan_patch_cas_def)
  show ?thesis
  proof (cases "find_row (\<lambda>p. pa_id p = patch_id) (db_patches d0)")
    case None
    then have "d2 = d1" unfolding d2 by (simp add: run_transaction_def)
    then show ?thesis by (simp add: versions_step_def)
  next
    case (Some p)
    show ?thesis
    proof (cases "pa_status p = Pending")
      case False
      with Some have "d2 = d1" unfolding d2 by (simp add: run_transaction_def)
      then show ?thesis by (simp add: versions_step_def)
    next
      case True
      let ?run = "run_transaction (accept_transaction provider message t policy (Some policy) p) d0 d1"
      have "?tx d0 = accept_transaction provider message t policy (Some policy) p d0"
        by (simp only: Some option.case True not_True_eq_False if_False simp_thms)
      then have "d2 = snd ?run"
        unfolding d2 run_transaction_def by (simp only:)
      then show ?thesis using accept_versions_step [of _ _ _ _ _ _ d0 d1 "fst ?run" "snd ?run"] by simp
    qed
  qed
qed

lemma snd_wrap:
  "snd (case x of (Inl e, db) \<Rightarrow> (Inl e, db) | (Inr a, db) \<Rightarrow> (Inr (Some a), db)) = snd x"
  by (cases x; cases "fst x") auto

lemma decide_versions_step:
  assumes "decide_plan_patch provider message run patch_id user accept t d0 d1 = (r, d2)"
  shows "versions_step d0 d1 d2"
proof (cases "owned_run run user d0")
  case False
  with assms show ?thesis by (simp add: decide_plan_patch_def versions_step_def)
next
  case owned: True
  show ?thesis
  proof (cases "find_row (\<lambda>p. pa_id p = patch_id \<and> pa_run p = run \<and> pa_user p = user) (db_patches d0)")
    case None
    with owned assms show ?thesis by (simp add: decide_plan_patch_def versions_step_def)
  next
    case (Some p)
    consider "pa_status p \<noteq> Pending" | "pa_status p = Pending" "\<not> accept" | "pa_status p = Pending" accept by blast
    then show ?thesis
    proof cases
      case 1
      with owned Some assms show ?thesis by (simp add: decide_plan_patch_def versions_step_def)
    next
      case 2
      with owned Some assms
      have "run_transaction (\<lambda>d. Inr (None, reject_patch p
          (filter (\<lambda>r. tw_run r = run \<and> tw_user r = user) (db_trips d)) t)) d0 d1 = (r, d2)"
        by (simp add: decide_plan_patch_def)
      then show ?thesis by (cases rule: run_transaction_cases) (auto simp: versions_step_def)
    next
      case 3
      let ?run = "run_transaction (accept_transaction provider message t ''validated_and_user_confirmed'' None p) d0 d1"
      have "snd (decide_plan_patch provider message run patch_id user accept t d0 d1) = snd ?run"
        using 3 owned Some by (simp add: decide_plan_patch_def snd_wrap)
      then have "d2 = snd ?run" using assms by simp
      then show ?thesis using accept_versions_step [of _ _ _ _ _ _ d0 d1 "fst ?run" "snd ?run"] by simp
    qed
  qed
qed

lemma create_versions_step:
  assumes "create_plan_patch run user new_id base ops reason impact d0 d1 = (r, d2)"
  shows "versions_step d0 d1 d2"
  using assms
  by (auto simp: create_plan_patch_def versions_step_def Let_def split: if_splits option.splits
      elim!: run_transaction_cases)

lemma save_versions_step:
  assumes "save_first_version new_run user sn reason d1 = (r, d2)"
  shows "versions_step d1 d1 d2"
  using assms unfolding save_first_version_def
  by (elim run_transaction_cases) (auto simp: versions_step_def)

end
