(* ===== verification/Replan_Facts.thy ===== *)
theory Replan_Facts
  imports Patch_Review Plan_Facts
begin

text \<open>
  Facts about the generated patches: what removals, moves and replacements do to a list of stops
  with distinct identifiers, what the double loop over the options collects, and that the order of
  an evaluated option is a permutation of its stops.
\<close>

section \<open>Operations on stops with known identifiers\<close>

abbreviation plan_ids :: "planned_stop list \<Rightarrow> string option list" where
  "plan_ids sts \<equiv> map (\<lambda>st. poi_id (ps_poi st)) sts"

lemma apply_operations_append:
  "apply_operations (a @ b) x = res_bind (apply_operations a x) (apply_operations b)"
proof (induction a arbitrary: x)
  case (Cons op a)
  show ?case by (cases "apply_operation op x") (simp_all add: Cons.IH)
qed simp

lemma find_stop_exact:
  assumes "plan_ids sts = map Some ids" and "i \<in> set ids"
  shows "\<exists>n < length ids. find_stop (Some i) sts = Inr (Some n) \<and> ids ! n = i"
  using assms
proof (induction sts arbitrary: ids)
  case (Cons st sts)
  then obtain a as where ids: "ids = a # as" and a: "poi_id (ps_poi st) = Some a"
    and as: "plan_ids sts = map Some as" by (cases ids) auto
  show ?case
  proof (cases "a = i")
    case True
    then show ?thesis using ids a by auto
  next
    case False
    with Cons.prems ids have "i \<in> set as" by simp
    from Cons.IH [OF as this] False ids a show ?thesis by auto
  qed
qed simp

lemma remove_at_filter:
  assumes "distinct (map f xs)" and "n < length xs"
  shows "remove_at n xs = filter (\<lambda>x. f x \<noteq> f (xs ! n)) xs"
proof -
  have split: "xs = take n xs @ xs ! n # drop (Suc n) xs" using assms(2) by (rule id_take_nth_drop)
  have "distinct (map f (take n xs) @ f (xs ! n) # map f (drop (Suc n) xs))"
    using assms(1) by (subst (asm) split) simp
  then have "\<forall>x \<in> set (take n xs). f x \<noteq> f (xs ! n)" "\<forall>x \<in> set (drop (Suc n) xs). f x \<noteq> f (xs ! n)"
    by (auto simp: image_iff)
  then have "filter (\<lambda>x. f x \<noteq> f (xs ! n)) (take n xs @ xs ! n # drop (Suc n) xs)
      = take n xs @ drop (Suc n) xs"
    by (simp add: filter_id_conv)
  then show ?thesis using split by (simp add: remove_at_def)
qed

lemma removals_sound:
  assumes "distinct ids" and "plan_ids sts = map Some ids" and "distinct xs" and "set xs \<subseteq> set ids"
  shows "apply_operations (map (\<lambda>i. Remove_stop (Some i)) xs) (sn, sts)
    = Inr (sn, filter (\<lambda>st. poi_id (ps_poi st) \<notin> Some ` set xs) sts)"
  using assms
proof (induction xs arbitrary: ids sts)
  case Nil
  then show ?case by simp
next
  case (Cons x xs)
  from find_stop_exact [OF Cons.prems(2), of x] Cons.prems(4)
  obtain n where n: "n < length ids" "find_stop (Some x) sts = Inr (Some n)" "ids ! n = x" by auto
  have len: "length sts = length ids" using arg_cong [OF Cons.prems(2), of length] by simp
  have at: "poi_id (ps_poi (sts ! n)) = Some x"
    using n len Cons.prems(2) by (metis (mono_tags, lifting) nth_map)
  have "distinct (plan_ids sts)" using Cons.prems(1,2) by (simp add: distinct_map)
  from remove_at_filter [OF this, of n] at n len
  have step: "apply_operation (Remove_stop (Some x)) (sn, sts)
      = Inr (sn, filter (\<lambda>st. poi_id (ps_poi st) \<noteq> Some x) sts)"
    by (simp add: apply_operation_def)
  let ?sts = "filter (\<lambda>st. poi_id (ps_poi st) \<noteq> Some x) sts"
  have ids': "plan_ids ?sts = map Some (filter (\<lambda>i. i \<noteq> x) ids)"
  proof -
    have "plan_ids ?sts = filter (\<lambda>v. v \<noteq> Some x) (plan_ids sts)" by (simp add: filter_map comp_def)
    then show ?thesis unfolding Cons.prems(2) by (simp add: filter_map comp_def)
  qed
  have "apply_operations (map (\<lambda>i. Remove_stop (Some i)) xs) (sn, ?sts)
      = Inr (sn, filter (\<lambda>st. poi_id (ps_poi st) \<notin> Some ` set xs) ?sts)"
    using Cons.prems by (intro Cons.IH [OF _ ids']) auto
  with step show ?case by (simp add: conj_commute)
qed

section \<open>Moves\<close>

lemma py_insert_nat: "py_insert (int j) x xs = take j xs @ x # drop j xs"
  by (simp add: py_insert_def)

lemma map_moved:
  "s < length xs \<Longrightarrow> map f (py_insert (int t) (xs ! s) (remove_at s xs))
     = py_insert (int t) (map f xs ! s) (remove_at s (map f xs))"
  by (simp add: py_insert_nat remove_at_def take_map drop_map)

lemma apply_move:
  assumes "s < length sts" and "t < length sts"
  shows "apply_operation (Move_stop (Some (int s)) (Some (int t))) (sn, sts)
    = Inr (sn, py_insert (int t) (sts ! s) (remove_at s sts))"
  using assms by (simp add: apply_operation_def py_pop_def)

lemma string_index_mem:
  "x \<in> set ws \<Longrightarrow> \<exists>n < length ws. string_index ws x = Inr n \<and> ws ! n = x"
  by (induction ws) auto

lemma moved_prefix:
  assumes "t \<le> s" and "s < length ws"
  shows "take (Suc t) (py_insert (int t) (ws ! s) (remove_at s ws)) = take t ws @ [ws ! s]"
    and "mset (py_insert (int t) (ws ! s) (remove_at s ws)) = mset ws"
proof -
  have "take t (remove_at s ws) = take t ws" using assms by (simp add: remove_at_def)
  then show "take (Suc t) (py_insert (int t) (ws ! s) (remove_at s ws)) = take t ws @ [ws ! s]"
    using assms by (simp add: py_insert_nat)
  show "mset (py_insert (int t) (ws ! s) (remove_at s ws)) = mset ws"
    using mset_remove_at [OF assms(2)] by (simp add: mset_py_insert)
qed

lemma mset_drop_eq: "mset (drop k xs) = mset xs - mset (take k xs)"
  by (metis add_diff_cancel_left' append_take_drop_id mset_append)

lemma moves_sound:
  assumes "distinct ws" and "mset (drop t ws) = mset targets" and "plan_ids sts = map Some ws"
  shows "\<exists>ops sts'. moves t targets ws = Inr ops \<and> apply_operations ops (sn, sts) = Inr (sn, sts')
    \<and> plan_ids sts' = map Some (take t ws @ targets) \<and> mset sts' = mset sts"
  using assms
proof (induction targets arbitrary: t ws sts)
  case Nil
  then have "drop t ws = []" by simp
  with Nil show ?case by simp
next
  case (Cons x targets)
  have len: "length sts = length ws" using arg_cong [OF Cons.prems(3), of length] by simp
  have x: "x \<in> set (drop t ws)" using Cons.prems(2) by (metis list.set_intros(1) set_mset_mset)
  then obtain s where s: "s < length ws" "string_index ws x = Inr s" "ws ! s = x"
    using string_index_mem in_set_dropD by metis
  have "\<exists>j \<ge> t. j < length ws \<and> ws ! j = x"
    using x by (auto simp: in_set_conv_nth) (metis le_add1 less_diff_conv add.commute)
  with s Cons.prems(1) have ts: "t \<le> s" by (metis nth_eq_iff_index_eq)
  have left: "mset (drop (Suc t) ws') = mset targets"
    if "take (Suc t) ws' = take t ws @ [x]" "mset ws' = mset ws" for ws'
  proof -
    have "mset (drop (Suc t) ws') = mset ws - mset (take t ws) - {#x#}"
      unfolding mset_drop_eq that by (simp add: diff_diff_add_mset)
    also have "mset ws - mset (take t ws) = add_mset x (mset targets)"
      using Cons.prems(2) by (simp add: mset_drop_eq)
    finally show ?thesis by simp
  qed
  show ?case
  proof (cases "s = t")
    case True
    then have "take (Suc t) ws = take t ws @ [x]" using s by (simp add: take_Suc_conv_app_nth)
    with Cons.IH [OF Cons.prems(1) left Cons.prems(3)] True s show ?thesis by auto
  next
    case False
    let ?ws = "py_insert (int t) (ws ! s) (remove_at s ws)"
    let ?sts = "py_insert (int t) (sts ! s) (remove_at s sts)"
    have pre: "take (Suc t) ?ws = take t ws @ [x]" "mset ?ws = mset ws"
      using moved_prefix [OF ts s(1)] s(3) by simp_all
    have ids: "plan_ids ?sts = map Some ?ws"
      using map_moved [of s sts "\<lambda>st. poi_id (ps_poi st)" t] map_moved [of s ws Some t] len s Cons.prems(3) by simp
    have "distinct ?ws" using Cons.prems(1) pre(2) by (metis distinct_count_atmost_1 set_mset_mset)
    from Cons.IH [OF this left [OF pre] ids]
    obtain ops sts' where more: "moves (Suc t) targets ?ws = Inr ops"
        "apply_operations ops (sn, ?sts) = Inr (sn, sts')"
        "plan_ids sts' = map Some (take (Suc t) ?ws @ targets)" "mset sts' = mset ?sts" by blast
    have "mset ?sts = mset sts" using moved_prefix(2) [OF ts, of sts] s(1) len by simp
    moreover have "apply_operation (Move_stop (Some (int s)) (Some (int t))) (sn, sts) = Inr (sn, ?sts)"
      using apply_move s(1) ts len by simp
    ultimately show ?thesis using more False s pre(1) by auto
  qed
qed

section \<open>Replacements\<close>

definition replace_op :: "remaining_item \<Rightarrow> patch_operation" where
  "replace_op it = Replace_stop (Some (it_source it))
     (Some \<lparr>rp_poi = Some (ps_poi (it_stop it)), rp_task = Some (ps_task (it_stop it)),
            rp_rank = ps_rank (it_stop it)\<rparr>)"

lemma replacing_alt:
  "replacing records ordered = map replace_op (filter (\<lambda>it. it_source it \<in> set (map rd_source records)) ordered)"
  by (simp add: replacing_def replace_op_def [abs_def])

text \<open>
  While replacements are applied, a stop either still has its own identifier or was replaced by a
  place whose identifier none of the replacements to come is looking for.
\<close>

definition half_replaced :: "string list \<Rightarrow> string list \<Rightarrow> planned_stop list \<Rightarrow> bool" where
  "half_replaced ids pending cur \<longleftrightarrow> length cur = length ids \<and>
     (\<forall>k < length ids. \<exists>j. poi_id (ps_poi (cur ! k)) = Some j \<and>
        (j = ids ! k \<or> j \<notin> set pending \<and> ids ! k \<notin> set pending))"

lemma find_stop_first:
  assumes "k < length sts" and "poi_id (ps_poi (sts ! k)) = Some i"
    and "\<forall>n < length sts. \<exists>j. poi_id (ps_poi (sts ! n)) = Some j \<and> (j = i \<longrightarrow> n = k)"
  shows "find_stop (Some i) sts = Inr (Some k)"
  using assms
proof (induction sts arbitrary: k)
  case (Cons st sts)
  show ?case
  proof (cases k)
    case 0
    with Cons.prems show ?thesis by simp
  next
    case (Suc m)
    from Cons.prems(3) obtain j where j: "poi_id (ps_poi st) = Some j" "j \<noteq> i"
      using Suc by fastforce
    have "\<forall>n < length sts. \<exists>j. poi_id (ps_poi (sts ! n)) = Some j \<and> (j = i \<longrightarrow> n = m)"
      using Cons.prems(3) Suc by fastforce
    with Cons.IH [of m] Cons.prems(1,2) Suc j show ?thesis by simp
  qed
qed simp

lemma half_replaced_find:
  assumes "half_replaced ids pending cur" and "distinct ids" and "k < length ids" and "ids ! k \<in> set pending"
  shows "find_stop (Some (ids ! k)) cur = Inr (Some k)"
proof (rule find_stop_first)
  show "k < length cur" using assms(1,3) by (simp add: half_replaced_def)
  show "poi_id (ps_poi (cur ! k)) = Some (ids ! k)" using assms(1,3,4) by (auto simp: half_replaced_def)
  show "\<forall>n < length cur. \<exists>j. poi_id (ps_poi (cur ! n)) = Some j \<and> (j = ids ! k \<longrightarrow> n = k)"
    using assms by (auto simp: half_replaced_def) (metis nth_eq_iff_index_eq)
qed

text \<open>What the replacements make of the places, position by position.\<close>

definition replaced_places :: "string list \<Rightarrow> remaining_item list \<Rightarrow> planned_stop list \<Rightarrow> poi list" where
  "replaced_places ids its cur =
     map (\<lambda>(i, st). case find_row (\<lambda>it. it_source it = i) its of None \<Rightarrow> ps_poi st | Some it \<Rightarrow> ps_poi (it_stop it))
       (zip ids cur)"

lemma find_row_None: "find_row P xs = None \<longleftrightarrow> (\<forall>x \<in> set xs. \<not> P x)"
proof -
  have "find_row P xs = None \<longleftrightarrow> filter P xs = []" by (simp add: find_row_def split: list.splits)
  then show ?thesis by (simp add: filter_empty_conv)
qed

lemma find_row_Some: "find_row P xs = Some x \<Longrightarrow> x \<in> set xs \<and> P x"
proof -
  assume "find_row P xs = Some x"
  then obtain rest where "filter P xs = x # rest" by (auto simp: find_row_def split: list.splits)
  then have "x \<in> set (filter P xs)" by (metis list.set_intros(1))
  then show ?thesis by simp
qed

lemma replacing_sound:
  assumes "distinct ids" and "half_replaced ids (map it_source its) cur"
    and "distinct (map it_source its)" and "set (map it_source its) \<subseteq> set ids"
    and "\<forall>it \<in> set its. \<exists>j. poi_id (ps_poi (it_stop it)) = Some j \<and> j \<notin> set ids"
  shows "\<exists>sts'. apply_operations (map replace_op its) (sn, cur) = Inr (sn, sts')
    \<and> map ps_poi sts' = replaced_places ids its cur"
  using assms
proof (induction its arbitrary: cur)
  case Nil
  have "map ps_poi cur = replaced_places ids [] cur"
    using Nil.prems(2) by (simp add: replaced_places_def find_row_def half_replaced_def list_eq_iff_nth_eq)
  then show ?case by simp
next
  case (Cons it its)
  let ?src = "it_source it" let ?p = "ps_poi (it_stop it)"
  from Cons.prems(4) obtain k where k: "k < length ids" "ids ! k = ?src" by (auto simp: in_set_conv_nth)
  have len: "length cur = length ids" using Cons.prems(2) by (simp add: half_replaced_def)
  define r where "r = \<lparr>rp_poi = Some ?p, rp_task = Some (ps_task (it_stop it)), rp_rank = ps_rank (it_stop it)\<rparr>"
  have r: "rp_poi r = Some ?p" "rp_task r = Some (ps_task (it_stop it))"
      "replace_op it = Replace_stop (Some ?src) (Some r)"
    by (simp_all add: r_def replace_op_def)
  let ?new = "replace_with ?p r (cur ! k)" let ?cur = "cur[k := ?new]"
  have "find_stop (Some ?src) cur = Inr (Some k)"
    using half_replaced_find [OF Cons.prems(2,1) k(1)] k(2) by simp
  then have step: "apply_operation (replace_op it) (sn, cur) = Inr (sn, ?cur)"
    using r by (simp add: apply_operation_def)
  obtain j where j: "poi_id ?p = Some j" "j \<notin> set ids" using Cons.prems(5) by auto
  have src: "?src \<notin> set (map it_source its)" using Cons.prems(3) by simp
  have half: "half_replaced ids (map it_source its) ?cur"
    unfolding half_replaced_def
  proof (intro conjI allI impI)
    fix n assume n: "n < length ids"
    show "\<exists>i. poi_id (ps_poi (?cur ! n)) = Some i \<and>
        (i = ids ! n \<or> i \<notin> set (map it_source its) \<and> ids ! n \<notin> set (map it_source its))"
    proof (cases "n = k")
      case True
      have "j \<notin> set (map it_source its)" using j Cons.prems(4) by auto
      with True n len j src k show ?thesis by (simp add: replace_with_def)
    next
      case False
      with Cons.prems(2) n show ?thesis by (auto simp: half_replaced_def)
    qed
  qed (simp add: len)
  from Cons.IH [OF Cons.prems(1) half] Cons.prems(3-5)
  obtain sts' where sts': "apply_operations (map replace_op its) (sn, ?cur) = Inr (sn, sts')"
      "map ps_poi sts' = replaced_places ids its ?cur" by auto
  have "replaced_places ids its ?cur = replaced_places ids (it # its) cur"
  proof (rule nth_equalityI)
    show "length (replaced_places ids its ?cur) = length (replaced_places ids (it # its) cur)"
      by (simp add: replaced_places_def)
    fix n assume "n < length (replaced_places ids its ?cur)"
    then have n: "n < length ids" by (simp add: replaced_places_def)
    show "replaced_places ids its ?cur ! n = replaced_places ids (it # its) cur ! n"
    proof (cases "n = k")
      case True
      have "find_row (\<lambda>x. it_source x = ?src) its = None" unfolding find_row_None using src by (metis image_eqI list.set_map)
      with True n len k show ?thesis by (simp add: replaced_places_def find_row_def replace_with_def)
    next
      case False
      then have "ids ! n \<noteq> ?src" using n k Cons.prems(1) by (metis nth_eq_iff_index_eq)
      with False n len show ?thesis by (simp add: replaced_places_def find_row_def)
    qed
  qed
  with step sts' show ?case by auto
qed

text \<open>What the search for replacements does to the remaining items.\<close>

definition replaced_item :: "replaced list \<Rightarrow> remaining_item \<Rightarrow> remaining_item \<Rightarrow> bool" where
  "replaced_item records it it' \<longleftrightarrow>
     it_source it' = it_source it \<and> ps_task (it_stop it') = ps_task (it_stop it)
     \<and> (it' = it \<or> it_source it \<in> rd_source ` set records \<and> poi_id (ps_poi (it_stop it')) \<in> rd_target ` set records)"

lemma replaced_item_refl [simp]: "replaced_item records it it"
  by (simp add: replaced_item_def)

lemma replaced_item_mono: "replaced_item records it it' \<Longrightarrow> replaced_item (r # records) it it'"
  by (auto simp: replaced_item_def)

lemma replacement_candidate_Inr:
  "replacement_candidate search st i here indoor = Inr (Some st') \<Longrightarrow> ps_task st' = ps_task st"
  by (auto simp: replacement_candidate_def Let_def res_simps)

lemma replace_items_Inr:
  "replace_items search here shut outdoors weather items = Inr (items', records) \<Longrightarrow>
     list_all2 (replaced_item records) items items' \<and> set (map rd_source records) \<subseteq> set (map it_source items)
     \<and> (\<forall>it \<in> set (zip items items'). it_source (fst it) \<in> rd_source ` set records \<longrightarrow> distinct (map it_source items)
          \<longrightarrow> poi_id (ps_poi (it_stop (snd it))) \<in> rd_target ` set records)"
proof (induction items arbitrary: items' records)
  case Nil
  then show ?case by simp
next
  case (Cons it items)
  define need where "need = (weather \<and> is_outdoor (it_stop it) outdoors)"
  from Cons.prems obtain found rest recs where rest: "replace_items search here shut outdoors weather items = Inr (rest, recs)"
      and search: "(if it_source it \<notin> set shut \<and> \<not> need then Inr None
         else replacement_candidate search (it_stop it) (it_source it) here need) = Inr found"
      and result: "(case found of None \<Rightarrow> Inr (it # rest, recs)
         | Some st \<Rightarrow> Inr (it\<lparr>it_stop := st\<rparr> # rest,
             \<lparr>rd_source = it_source it, rd_target = poi_id (ps_poi st), rd_weather = need\<rparr> # recs))
           = (Inr (items', records) :: (remaining_item list \<times> replaced list) res)"
    unfolding replace_items.simps Let_def need_def [symmetric] res_bind_Inr_iff by auto
  have found: "items' = it # rest \<and> records = recs
        \<or> (\<exists>st w. items' = it\<lparr>it_stop := st\<rparr> # rest \<and> ps_task st = ps_task (it_stop it)
             \<and> records = \<lparr>rd_source = it_source it, rd_target = poi_id (ps_poi st), rd_weather = w\<rparr> # recs)"
  proof (cases found)
    case None
    with result show ?thesis by simp
  next
    case (Some st)
    with search have "ps_task st = ps_task (it_stop it)"
      by (auto split: if_splits dest: replacement_candidate_Inr)
    with result Some show ?thesis by auto
  qed
  from Cons.IH [OF rest] have IH: "list_all2 (replaced_item recs) items rest"
      "set (map rd_source recs) \<subseteq> set (map it_source items)"
      "\<forall>x \<in> set (zip items rest). it_source (fst x) \<in> rd_source ` set recs \<longrightarrow> distinct (map it_source items)
        \<longrightarrow> poi_id (ps_poi (it_stop (snd x))) \<in> rd_target ` set recs" by auto
  from found show ?case
  proof
    assume none: "items' = it # rest \<and> records = recs"
    with IH show ?thesis by (auto simp: image_iff)
  next
    assume "\<exists>st w. items' = it\<lparr>it_stop := st\<rparr> # rest \<and> ps_task st = ps_task (it_stop it)
             \<and> records = \<lparr>rd_source = it_source it, rd_target = poi_id (ps_poi st), rd_weather = w\<rparr> # recs"
    then obtain st w where st: "items' = it\<lparr>it_stop := st\<rparr> # rest" "ps_task st = ps_task (it_stop it)"
        "records = \<lparr>rd_source = it_source it, rd_target = poi_id (ps_poi st), rd_weather = w\<rparr> # recs" by blast
    have "list_all2 (replaced_item records) items rest"
      using IH(1) unfolding st(3) by (rule list_all2_mono) (rule replaced_item_mono)
    moreover have "replaced_item records it (it\<lparr>it_stop := st\<rparr>)" using st by (simp add: replaced_item_def)
    moreover have "poi_id (ps_poi (it_stop (snd x))) \<in> rd_target ` set records"
      if "x \<in> set (zip (it # items) items')" "it_source (fst x) \<in> rd_source ` set records"
        "distinct (map it_source (it # items))" for x
    proof (cases "x \<in> set (zip items rest)")
      case True
      then have "fst x \<in> set items" by (metis in_set_zipE prod.collapse)
      with True that IH(3) st show ?thesis by (auto simp: image_iff)
    next
      case False
      with that(1) st show ?thesis by simp
    qed
    ultimately show ?thesis using IH(2) st by auto
  qed
qed

section \<open>Options\<close>

lemma explore_options_Inr:
  assumes "explore_options provider ortools here now items choices (options, solved) = Inr (options', solved')"
    and "length options \<le> 4"
    and "\<forall>sol \<in> set solved. \<exists>opt \<in> set options.
      solve_option provider ortools here now (active_items (so_drop sol) items) (so_mode sol) (so_drop sol) = Inr (opt, sol)
      \<and> ev_feasible (so_evaluation sol) \<and> (so_drop sol \<longrightarrow> active_items True items \<noteq> [])"
  shows "length options' \<le> 4
    \<and> (\<forall>sol \<in> set solved'. \<exists>opt \<in> set options'.
      solve_option provider ortools here now (active_items (so_drop sol) items) (so_mode sol) (so_drop sol) = Inr (opt, sol)
      \<and> ev_feasible (so_evaluation sol) \<and> (so_drop sol \<longrightarrow> active_items True items \<noteq> []))"
  using assms
proof (induction choices arbitrary: options solved)
  case Nil
  then show ?case by simp
next
  case (Cons choice choices)
  obtain mode dropping where c: "choice = (mode, dropping)" by (cases choice)
  let ?active = "active_items dropping items"
  consider "4 \<le> length options"
    | "length options < 4" "dropping \<and> (length ?active = length items \<or> ?active = [])"
    | "length options < 4" "\<not> (dropping \<and> (length ?active = length items \<or> ?active = []))" by linarith
  then show ?case
  proof cases
    case 1
    with Cons.prems c show ?thesis by (auto simp: Let_def)
  next
    case 2
    with Cons.prems c show ?thesis by (intro Cons.IH [of options solved]) (auto simp: Let_def)
  next
    case 3
    with Cons.prems(1) c obtain opt sol where
        found: "solve_option provider ortools here now ?active mode dropping = Inr (opt, sol)"
      and rest: "explore_options provider ortools here now items choices
          (options @ [opt], if ev_feasible (so_evaluation sol) then solved @ [sol] else solved) = Inr (options', solved')"
      by (auto simp: Let_def res_simps)
    have sol: "so_mode sol = mode" "so_drop sol = dropping"
      using found by (auto simp: solve_option_def res_simps)
    have "dropping \<longrightarrow> active_items True items \<noteq> []" using 3 by auto
    with Cons.prems(3) found sol 3 show ?thesis
      by (intro Cons.IH [OF rest]) (auto split: if_splits)
  qed
qed

lemma choose_option_mem: "solved \<noteq> [] \<Longrightarrow> choose_option rq base solved \<in> set solved"
  by (auto simp: choose_option_def Let_def arg_min_list_in split: option.splits dest: find_row_Some)

section \<open>The order of a solved option\<close>

lemma optimize_joint_order:
  assumes "optimize_joint_route departure tasks groups m p c mode buffer prev ortools = Inr (ev, alg)"
    and "length groups = length tasks"
    and "\<forall>order sel. ortools = Some (order, sel) \<longrightarrow> mset order = mset (map int [0..<length tasks])"
  shows "mset (ev_order ev) = mset (map int [0..<length tasks])"
proof -
  define solution where "solution = (if fixed_user_order c (length tasks) then None else ortools)"
  define plan where "plan = (if exact_size tasks groups then Inr (exact_candidates (length tasks) groups, Joint_exact)
                   else case solution of
                       Some s \<Rightarrow> Inr ([s], Ortools (pp_goal p))
                     | None \<Rightarrow> res_bind (beam_joint groups m p c 250) (\<lambda>cs.
                         Inr (cs, if fixed_user_order c (length tasks) then Ordered_beam else Beam_fallback)))"
  from assms(1) obtain baseline where run: "res_bind plan (\<lambda>(candidates, alg).
      res_bind (res_map (\<lambda>(order, sel). evaluate_joint_order order sel departure tasks m p c mode buffer
                         prev (Some baseline)) candidates) (\<lambda>evaluations.
            if evaluations = [] then Inl (ValueError ''no candidate for the joint solver'')
            else Inr (arg_min_list (evaluation_key p) evaluations, alg))) = Inr (ev, alg)"
    unfolding optimize_joint_route_def Let_def solution_def [symmetric] plan_def [symmetric]
    by (subst (asm) res_bind_Inr_iff) blast
  then obtain candidates alg' where plan: "plan = Inr (candidates, alg')"
    by (cases plan) auto
  with run have "\<exists>evs. res_map (\<lambda>(order, sel). evaluate_joint_order order sel departure tasks m p c mode buffer
                         prev (Some baseline)) candidates = Inr evs
        \<and> evs \<noteq> [] \<and> ev = arg_min_list (evaluation_key p) evs"
    by (auto simp: res_bind_Inr_iff split: if_splits)
  then obtain evs where evs: "res_map (\<lambda>(order, sel). evaluate_joint_order order sel departure tasks m p c mode buffer
                         prev (Some baseline)) candidates = Inr evs" "ev \<in> set evs"
    using arg_min_list_in by blast
  from res_map_mem_rev [OF evs] obtain order sel where cand: "(order, sel) \<in> set candidates"
      and "evaluate_joint_order order sel departure tasks m p c mode buffer prev (Some baseline) = Inr ev" by auto
  then have order: "ev_order ev = order" by (auto elim: evaluate_joint_order_Inr)
  have "mset order = mset (map int [0..<length tasks])"
  proof (cases "exact_size tasks groups")
    case True
    with plan [unfolded plan_def] cand have "order \<in> set (perms (length tasks) (map int [0..<length tasks]))"
      by (auto simp: exact_candidates_def)
    then show ?thesis using perms_sound [of order "map int [0..<length tasks]"] by simp
  next
    case False
    show ?thesis
    proof (cases solution)
      case (Some s)
      with False plan [unfolded plan_def] cand assms(3) show ?thesis by (auto simp: solution_def split: if_splits)
    next
      case None
      with False plan [unfolded plan_def] have "beam_joint groups m p c 250 = Inr candidates" by (auto simp: res_simps)
      from beam_joint_mem [OF this cand] assms(2) show ?thesis by metis
    qed
  qed
  with order show ?thesis by simp
qed

lemma optimize_route_order:
  assumes "optimize_route departure tasks distances durations ortools = Inr (ev, alg)"
    and "\<forall>order sel. ortools = Some (order, sel) \<longrightarrow> mset order = mset (map int [0..<length tasks])"
  shows "mset (ev_order ev) = mset (map int [0..<length tasks])"
  using assms(1) unfolding optimize_route_def res_bind_Inr_iff
  by (elim exE conjE) (rule optimize_joint_order, assumption, simp, rule assms(2))

lemma res_map_py_nth:
  assumes "mset order = mset (map int [0..<length xs])" and "res_map (py_nth xs) order = Inr ys"
  shows "mset ys = mset xs"
proof -
  have mem: "\<forall>i \<in> set order. 0 \<le> i" using assms(1) by (metis (no_types, lifting) image_iff list.set_map of_nat_0_le_iff set_mset_mset)
  have "list_all2 (\<lambda>i y. py_nth xs i = Inr y) order ys" by (rule res_map_Inr_all2 [OF assms(2)])
  then have "ys = map (\<lambda>i. xs ! nat i) order" using mem
    by (induction rule: list_all2_induct) (auto simp: py_nth_def Let_def split: if_splits)
  then have "mset ys = image_mset (\<lambda>i. xs ! nat i) (mset (map int [0..<length xs]))"
    using assms(1) by simp
  also have "\<dots> = mset (map (\<lambda>i. xs ! i) [0..<length xs])" by (simp add: image_mset.compositionality comp_def)
  finally show ?thesis by (simp add: map_nth)
qed

end
