(* ===== verification/Plan_Properties.thy ===== *)
theory Plan_Properties
  imports Plan_Facts
begin

text \<open>
  The properties of plan patches and plan versions: obligations survive a patch, an accepted
  version is a validated one, and the versions of a run form a gapless, append-only sequence under
  any interleaving of transactions.
\<close>

section \<open>The versions of a run\<close>

definition numbered :: "int list \<Rightarrow> bool" where
  "numbered vs \<longleftrightarrow> vs = map int [1..<Suc (length vs)]"

definition versions_ok :: "database \<Rightarrow> bool" where
  "versions_ok d \<longleftrightarrow>
     (\<forall>run. numbered (versions_of run d)) \<and> (\<forall>v \<in> set (db_versions d). vr_run v \<in> set (map rr_id (db_runs d)))"

definition extends :: "database \<Rightarrow> database \<Rightarrow> bool" where
  "extends d0 d1 \<longleftrightarrow> (\<exists>rows. db_versions d1 = db_versions d0 @ rows)"

lemma extends_refl [simp]: "extends d d"
  by (simp add: extends_def)

lemma extends_trans: "extends a b \<Longrightarrow> extends b c \<Longrightarrow> extends a c"
  by (auto simp: extends_def)

lemma versions_step_extends: "versions_step d0 d1 d2 \<Longrightarrow> extends d1 d2"
  by (auto simp: versions_step_def extends_def)

lemma numbered_set: "numbered vs \<Longrightarrow> set vs = {1..int (length vs)}"
proof -
  assume "numbered vs"
  then have "set vs = int ` {1..<Suc (length vs)}"
    unfolding numbered_def by (metis list.set_map set_upt)
  also have "\<dots> = {1..<int (length vs) + 1}"
    using image_int_atLeastLessThan [of 1 "Suc (length vs)"] by (simp add: add.commute)
  also have "\<dots> = {1..int (length vs)}" by auto
  finally show ?thesis .
qed

lemma numbered_snoc:
  assumes "numbered vs"
  shows "numbered (vs @ [int (length vs) + 1])"
proof -
  have "map int [1..<Suc (length (vs @ [int (length vs) + 1]))]
      = map int [1..<Suc (length vs)] @ [int (length vs) + 1]" by simp
  also have "map int [1..<Suc (length vs)] = vs" using assms by (simp only: numbered_def)
  finally show ?thesis by (simp only: numbered_def)
qed

lemma latest_numbered:
  assumes "latest_version run d = Some cur" and "numbered (versions_of run d)"
  shows "vr_version cur = int (length (versions_of run d))"
  using latest_version_Some [OF assms(1)] numbered_set [OF assms(2)]
  by (metis atLeastAtMost_iff dual_order.antisym order_refl order_trans)

text \<open>
  A version computed from an older state lands as the next one, or not at all: the number after the
  one read is taken as soon as any other version was committed.
\<close>

lemma distinct_versions:
  assumes "unique_rows d"
  shows "distinct (versions_of run d)"
proof -
  have "distinct (map (\<lambda>v. (vr_run v, vr_version v)) (filter (\<lambda>v. vr_run v = run) (db_versions d)))"
    using assms by (simp add: unique_rows_def distinct_map_filter)
  then show ?thesis by (auto simp: versions_of_def distinct_map inj_on_def)
qed

lemma next_version_fits:
  assumes "numbered (versions_of run d0)" "numbered (versions_of run d1)" and "extends d0 d1"
    and "latest_version run d0 = Some cur" and "distinct (versions_of run d1 @ [vr_version cur + 1])"
  shows "vr_version cur = int (length (versions_of run d1))"
proof -
  have k: "vr_version cur = int (length (versions_of run d0))"
    by (rule latest_numbered [OF assms(4,1)])
  have "length (versions_of run d0) \<le> length (versions_of run d1)"
    using assms(3) by (auto simp: extends_def versions_of_def)
  moreover have "vr_version cur + 1 \<notin> {1..int (length (versions_of run d1))}"
    using assms(5) numbered_set [OF assms(2)] by auto
  ultimately show ?thesis using k by auto
qed

lemma versions_of_snoc:
  assumes "db_versions d2 = db_versions d1 @ [row]"
  shows "versions_of run d2 = versions_of run d1 @ (if vr_run row = run then [vr_version row] else [])"
  using assms by (simp add: versions_of_def)

lemma versions_step_ok:
  assumes "versions_step d0 d1 d2" and "versions_ok d0" "versions_ok d1" and "extends d0 d1"
  shows "versions_ok d2"
proof (cases "db_versions d2 = db_versions d1 \<and> db_runs d2 = db_runs d1")
  case True
  with assms(3) show ?thesis by (simp add: versions_ok_def versions_of_def)
next
  case False
  with assms(1) obtain row where row: "unique_rows d2" "db_versions d2 = db_versions d1 @ [row]"
      and how: "vr_version row = 1 \<and> (\<exists>u. db_runs d2 = db_runs d1 @ [\<lparr>rr_id = vr_run row, rr_user = u\<rparr>])
        \<or> db_runs d2 = db_runs d1 \<and>
           (\<exists>cur. latest_version (vr_run row) d0 = Some cur \<and> vr_version row = vr_version cur + 1)"
    by (auto simp: versions_step_def)
  let ?run = "vr_run row"
  have old: "numbered (versions_of r d0)" "numbered (versions_of r d1)" for r
    using assms(2,3) by (auto simp: versions_ok_def)
  have dist: "distinct (versions_of ?run d1 @ [vr_version row])"
    using distinct_versions [OF row(1), of ?run] versions_of_snoc [OF row(2), of ?run] by simp
  have number: "vr_version row = int (length (versions_of ?run d1)) + 1 \<and> ?run \<in> set (map rr_id (db_runs d2))
      \<and> set (db_runs d1) \<subseteq> set (db_runs d2)"
    using how
  proof
    assume first: "vr_version row = 1 \<and> (\<exists>u. db_runs d2 = db_runs d1 @ [\<lparr>rr_id = vr_run row, rr_user = u\<rparr>])"
    then have "?run \<notin> set (map rr_id (db_runs d1))" using row(1) by (auto simp: unique_rows_def)
    moreover have "\<forall>v \<in> set (db_versions d1). vr_run v \<in> set (map rr_id (db_runs d1))"
      using assms(3) by (simp add: versions_ok_def)
    ultimately have "versions_of ?run d1 = []"
      unfolding versions_of_def by (metis (mono_tags, lifting) filter_False list.simps(8))
    with first show ?thesis by auto
  next
    assume "db_runs d2 = db_runs d1 \<and>
        (\<exists>cur. latest_version ?run d0 = Some cur \<and> vr_version row = vr_version cur + 1)"
    then obtain cur where cur: "latest_version ?run d0 = Some cur" "vr_version row = vr_version cur + 1"
        and runs: "db_runs d2 = db_runs d1" by blast
    from next_version_fits [OF old assms(4) cur(1)] dist cur(2)
    have "vr_version cur = int (length (versions_of ?run d1))" by simp
    moreover have "?run \<in> set (map rr_id (db_runs d1))"
    proof -
      obtain v where "v \<in> set (db_versions d0)" "vr_run v = ?run"
        using latest_version_Some [OF cur(1)] by (auto simp: versions_of_def)
      moreover from this assms(4) have "v \<in> set (db_versions d1)" by (auto simp: extends_def)
      ultimately show ?thesis using assms(3) unfolding versions_ok_def by metis
    qed
    ultimately show ?thesis using cur(2) runs by simp
  qed
  have "numbered (versions_of r d2)" for r
    using old(2) [of r] numbered_snoc [OF old(2) [of r]] number versions_of_snoc [OF row(2), of r] by simp
  moreover have "vr_run v \<in> set (map rr_id (db_runs d2))" if "v \<in> set (db_versions d2)" for v
  proof -
    have "vr_run v \<in> set (map rr_id (db_runs d1)) \<or> v = row"
      using that row(2) assms(3) by (auto simp: versions_ok_def)
    with number show ?thesis by auto
  qed
  ultimately show ?thesis by (simp add: versions_ok_def)
qed

definition history_ok :: "database list \<Rightarrow> bool" where
  "history_ok h \<longleftrightarrow> list_all versions_ok h \<and> (case h of [] \<Rightarrow> True | d # _ \<Rightarrow> list_all (\<lambda>e. extends e d) h)"

lemma history_step:
  assumes "history_ok (d1 # h)" and "d0 \<in> set (d1 # h)" and "versions_step d0 d1 d2"
  shows "history_ok (d2 # d1 # h)"
proof -
  have old: "versions_ok d0" "versions_ok d1" "extends d0 d1"
    using assms(1,2) by (auto simp: history_ok_def list_all_iff)
  have "versions_ok d2" by (rule versions_step_ok [OF assms(3) old])
  moreover have "extends e d2" if "e \<in> set (d1 # h)" for e
    using that assms(1) versions_step_extends [OF assms(3)]
    by (auto simp: history_ok_def list_all_iff intro: extends_trans)
  ultimately show ?thesis using assms(1) by (simp add: history_ok_def list_all_iff)
qed

lemma plan_history_ok: "plan_history provider message h \<Longrightarrow> history_ok h"
proof (induction rule: plan_history.induct)
  case start
  show ?case by (simp add: history_ok_def versions_ok_def empty_database_def versions_of_def numbered_def)
next
  case (save d1 h new_run user sn reason r d2)
  show ?case by (rule history_step [OF save.IH _ save_versions_step [OF save.hyps(2)]]) simp
next
  case (create d1 h d0 run user new_id base ops reason impact r d2)
  show ?case by (rule history_step [OF create.IH create.hyps(2) create_versions_step [OF create.hyps(3)]])
next
  case (decide d1 h d0 run patch_id user accept t answer d2)
  show ?case by (rule history_step [OF decide.IH decide.hyps(2) decide_versions_step [OF decide.hyps(3)]])
next
  case (apply_cas d1 h d0 patch_id policy t outcome d2)
  show ?case
    by (rule history_step [OF apply_cas.IH apply_cas.hyps(2) apply_cas_versions_step [OF apply_cas.hyps(3)]])
next
  case (other d1 h d2)
  show ?case by (rule history_step [OF other.IH, of d1]) (simp_all add: versions_step_def other.hyps)
qed

section \<open>Properties\<close>


text \<open>
  C26: A patch never adds, drops in exchange or rewrites an obligation: whatever its operations, the
  task indices and tasks of the edited stops are among those of the plan, with multiplicity, and the
  plan keeps at least one stop; a replacement changes the place, not the task.
\<close>

theorem patch_keeps_obligations:
  assumes "apply_patch_structure sn ops = Inr (sn', sts)"
  shows "mset (map (\<lambda>st. (ps_task_index st, ps_task st)) sts)
      \<subseteq># mset (map (\<lambda>st. (ps_task_index st, ps_task st)) (sn_stops sn))
    \<and> sts \<noteq> [] \<and> in_tasks (sn_intent sn') = in_tasks (sn_intent sn)
    \<and> in_hard (sn_intent sn') = in_hard (sn_intent sn)"
proof -
  have run: "apply_operations ops (sn, sn_stops sn) = Inr (sn', sts)" and ne: "sts \<noteq> []"
    using assms by (auto simp: apply_patch_structure_def res_simps split: if_splits)
  from apply_operations_frame [OF run] ne show ?thesis
    by (simp add: obligations_def obligation_def [abs_def])
qed

lemma accept_done:
  assumes "run_transaction (accept_transaction provider message t policy ev p) d0 d1 = (Inr (n, sn), d2)"
  obtains cur sn0 stops where "latest_version (pa_run p) d0 = Some cur" "vr_version cur = pa_base p"
    "n = pa_base p + 1"
    "apply_patch_structure (vr_snapshot cur) (pa_operations p) = Inr (sn0, stops)"
    "recalculate_and_validate_snapshot provider message sn0 stops (im_context (pa_impact p)) = Inr (sn, [])"
    "d2 = accept_patch p n sn (filter (\<lambda>r. tw_run r = pa_run p \<and> tw_version r = pa_base p) (db_trips d0)) t policy ev d1"
  using assms
proof (cases rule: run_transaction_cases)
  case (committed a w)
  from committed(1,2) have "accept_transaction provider message t policy ev p d0 = Inr ((n, sn), w)" by simp
  then show thesis
    using committed(3) by (elim accept_transaction_Inr) (rule that, simp_all)
qed simp_all

lemma as_conflict_Inr: "as_conflict r = (Inr a, db) \<longleftrightarrow> r = (Inr a, db)"
  by (cases r; cases "fst r") (auto simp: as_conflict_def)

lemma apply_cas_Inr:
  assumes "apply_plan_patch_cas provider message patch_id policy t d0 d1 = (Inr (n, sn), d2)"
  obtains p where "find_row (\<lambda>p. pa_id p = patch_id) (db_patches d0) = Some p" "pa_status p = Pending"
    "run_transaction (accept_transaction provider message t policy (Some policy) p) d0 d1 = (Inr (n, sn), d2)"
proof (cases "find_row (\<lambda>p. pa_id p = patch_id) (db_patches d0)")
  case None
  with assms show thesis by (simp add: apply_plan_patch_cas_def as_conflict_Inr run_transaction_def)
next
  case (Some p)
  show thesis
  proof (cases "pa_status p = Pending")
    case False
    with Some assms show thesis by (simp add: apply_plan_patch_cas_def as_conflict_Inr run_transaction_def)
  next
    case True
    with Some assms have "run_transaction (accept_transaction provider message t policy (Some policy) p) d0 d1
        = (Inr (n, sn), d2)"
      by (simp add: apply_plan_patch_cas_def as_conflict_Inr run_transaction_def)
    with Some True that show thesis by blast
  qed
qed

text \<open>
  C2: When the in-trip workflow applies a patch, the version it publishes is the successor of the one
  the patch was made for, every required task still has a stop and no task has two, every stop is
  timed and meets its constraints under the hard constraints the plan already had, and the patch is
  marked accepted. Two consequences are not intended: no patch of a plan with a detour limit or a
  budget per category is ever accepted, because soft penalties count as conflicts, and neither is a
  patch that removes a required stop that was already completed.
\<close>

theorem applied_patch_is_validated:
  assumes "apply_plan_patch_cas provider message patch_id policy t d0 d1 = (Inr (n, sn), d2)"
  shows "\<exists>p cur. find_row (\<lambda>p. pa_id p = patch_id) (db_patches d0) = Some p \<and> pa_status p = Pending
    \<and> latest_version (pa_run p) d0 = Some cur \<and> pa_base p = vr_version cur \<and> n = vr_version cur + 1
    \<and> in_tasks (sn_intent sn) = in_tasks (sn_intent (vr_snapshot cur))
    \<and> in_hard (sn_intent sn) = in_hard (sn_intent (vr_snapshot cur))
    \<and> covers_intent (in_tasks (sn_intent sn)) (sn_stops sn)
    \<and> no_soft_constraints (in_hard (sn_intent (vr_snapshot cur)))
    \<and> list_all (\<lambda>st. ps_satisfied st = Some True \<and> ps_arrival st \<noteq> None \<and> ps_departure st \<noteq> None)
        (sn_stops sn)
    \<and> db_versions d2 = db_versions d1 @ [\<lparr>vr_run = pa_run p, vr_user = pa_user p, vr_version = n,
        vr_snapshot = sn, vr_reason = pa_reason p\<rparr>]
    \<and> (\<forall>q \<in> set (db_patches d2). pa_id q = pa_id p \<longrightarrow> pa_status q = Accepted)"
  using assms
proof (rule apply_cas_Inr)
  fix p
  assume p: "find_row (\<lambda>p. pa_id p = patch_id) (db_patches d0) = Some p" "pa_status p = Pending"
    and run: "run_transaction (accept_transaction provider message t policy (Some policy) p) d0 d1 = (Inr (n, sn), d2)"
  show ?thesis
  proof (rule accept_done [OF run])
    fix cur sn0 stops
    assume cur: "latest_version (pa_run p) d0 = Some cur" "vr_version cur = pa_base p" "n = pa_base p + 1"
      and edit: "apply_patch_structure (vr_snapshot cur) (pa_operations p) = Inr (sn0, stops)"
      and valid: "recalculate_and_validate_snapshot provider message sn0 stops (im_context (pa_impact p)) = Inr (sn, [])"
      and d2: "d2 = accept_patch p n sn (filter (\<lambda>r. tw_run r = pa_run p \<and> tw_version r = pa_base p) (db_trips d0)) t policy (Some policy) d1"
    from edit have "apply_operations (pa_operations p) (vr_snapshot cur, sn_stops (vr_snapshot cur)) = Inr (sn0, stops)"
      by (auto simp: apply_patch_structure_def res_simps split: if_splits)
    from apply_operations_frame [OF this] recalculate_accepts [OF valid]
    have "in_tasks (sn_intent sn) = in_tasks (sn_intent (vr_snapshot cur))"
      "in_hard (sn_intent sn) = in_hard (sn_intent (vr_snapshot cur))" by simp_all
    moreover have "\<forall>q \<in> set (db_patches d2). pa_id q = pa_id p \<longrightarrow> pa_status q = Accepted"
      unfolding d2 by (auto simp: accept_patch_def decide_row_def)
    ultimately show ?thesis
      using p cur recalculate_accepts [OF valid] unfolding d2 by (simp add: accept_patch_def) metis
  qed
qed

lemma apply_cas_Inl:
  assumes "apply_plan_patch_cas provider message patch_id policy t d0 d1 = (Inl e, d2)"
  shows "db_versions d2 = db_versions d1 \<and> db_trips d2 = db_trips d1"
proof (cases "find_row (\<lambda>p. pa_id p = patch_id) (db_patches d0)")
  case None
  have "d2 = d1"
    using arg_cong [OF assms, of snd] None by (simp add: apply_plan_patch_cas_def run_transaction_def)
  then show ?thesis by simp
next
  case (Some p)
  let ?run = "run_transaction (accept_transaction provider message t policy (Some policy) p) d0 d1"
  show ?thesis
  proof (cases "pa_status p = Pending")
    case False
    have "d2 = d1"
      using arg_cong [OF assms, of snd] Some False by (simp add: apply_plan_patch_cas_def run_transaction_def)
    then show ?thesis by simp
  next
    case True
    have same: "apply_plan_patch_cas provider message patch_id policy t d0 d1 = as_conflict ?run"
      using Some True by (simp add: apply_plan_patch_cas_def run_transaction_def)
    obtain r where r: "?run = (r, d2)" using arg_cong [OF assms, of snd] same by (metis as_conflict_snd snd_conv prod.collapse)
    moreover have "\<exists>e'. r = Inl e'" using assms r unfolding same by (cases r) (auto simp: as_conflict_def)
    ultimately show ?thesis
    proof (cases rule: run_transaction_cases)
      case (failed e' w)
      then show ?thesis using accept_transaction_Inl [OF failed(1)] by (simp add: block_patch_def)
    qed auto
  qed
qed

text \<open>
  C25: A patch made for a version that is no longer the latest one is refused whatever the applying
  transaction had read before: the answer is an error, no version is written and no trip is moved.
\<close>

theorem stale_patch_changes_nothing:
  assumes "plan_history provider message (d1 # h)" and "d0 \<in> set (d1 # h)"
    and "find_row (\<lambda>p. pa_id p = patch_id) (db_patches d0) = Some p"
    and "latest_version (pa_run p) d1 = Some cur" and "pa_base p \<noteq> vr_version cur"
    and "apply_plan_patch_cas provider message patch_id policy t d0 d1 = (r, d2)"
  shows "(\<exists>e. r = Inl e) \<and> db_versions d2 = db_versions d1 \<and> db_trips d2 = db_trips d1"
proof (cases r)
  case (Inl e)
  with apply_cas_Inl assms(6) show ?thesis by blast
next
  case (Inr a)
  obtain n sn where a: "a = (n, sn)" by (cases a)
  have "plan_history provider message (d2 # d1 # h)"
    by (rule apply_cas [OF assms(1,2,6)])
  then have new: "numbered (versions_of (pa_run p) d2)" and old: "numbered (versions_of (pa_run p) d1)"
    using plan_history_ok by (fastforce simp: history_ok_def versions_ok_def)+
  have False
  proof (rule apply_cas_Inr [OF assms(6) [unfolded Inr a]])
    fix q
    assume q: "find_row (\<lambda>p. pa_id p = patch_id) (db_patches d0) = Some q"
      and run: "run_transaction (accept_transaction provider message t policy (Some policy) q) d0 d1 = (Inr (n, sn), d2)"
    have qp: "q = p" using q assms(3) by simp
    show False
    proof (rule accept_done [OF run])
      fix c sn0 stops
      assume n: "n = pa_base q + 1"
        and d2: "d2 = accept_patch q n sn (filter (\<lambda>r. tw_run r = pa_run q \<and> tw_version r = pa_base q) (db_trips d0)) t policy (Some policy) d1"
      have "versions_of (pa_run p) d2 = versions_of (pa_run p) d1 @ [n]"
        unfolding d2 qp by (simp add: accept_patch_def versions_of_def)
      then have "versions_of (pa_run p) d1 @ [n] = map int [1..<Suc (Suc (length (versions_of (pa_run p) d1)))]"
        using new unfolding numbered_def by simp
      then have "n = int (Suc (length (versions_of (pa_run p) d1)))" by simp
      with latest_numbered [OF assms(4) old] n qp assms(5) show False by simp
    qed
  qed
  then show ?thesis ..
qed

section \<open>Examples\<close>

definition example_poi :: poi where
  "example_poi = \<lparr>poi_id = Some ''m1'', poi_name = Some ''museum'',
     poi_location = Some \<lparr>co_lng = 116, co_lat = 39\<rparr>, poi_rating = Some 5, poi_confidence = Some 1,
     poi_source = Some ''fake'', poi_district = None, poi_open = None, poi_accessible = None,
     poi_cost = None, poi_outdoor = None\<rparr>"

definition example_stop :: planned_stop where
  "example_stop = \<lparr>ps_task_index = 0, ps_rank = Some 0, ps_task = example_task, ps_poi = example_poi,
     ps_arrival = None, ps_departure = None, ps_travel = None, ps_satisfied = None\<rparr>"

definition example_snapshot :: snapshot where
  "example_snapshot = \<lparr>sn_stops = [example_stop],
     sn_intent = \<lparr>in_mode = Some Walking, in_tasks = [example_task], in_preferences = default_preferences,
       in_hard = no_constraints, in_buffers = []\<rparr>,
     sn_origin = Some \<lparr>co_lng = 116, co_lat = 39\<rparr>, sn_departure = Some 0, sn_distance = 0, sn_seconds = 0,
     sn_cost = 0, sn_confidence = 0, sn_algorithm = ''joint-exact''\<rparr>"

definition example_provider :: map_provider where
  "example_provider = (\<lambda>places mode. Inr (map (\<lambda>_. map (\<lambda>_. example_edge) places) places))"

definition plain_message :: "route_message \<Rightarrow> string" where
  "plain_message c = ''''"

definition saved_db :: database where
  "saved_db = snd (save_first_version 7 1 example_snapshot ''initial_plan'' empty_database)"

definition no_impact :: patch_impact where
  "no_impact = \<lparr>im_source = None, im_before = None, im_after_cost = 0, im_conflicts = [],
     im_replaced = [], im_dropped = False, im_completed = [], im_context = None\<rparr>"

definition proposed_db :: database where
  "proposed_db = snd (create_plan_patch 7 1 3 1 [Change_departure_time (Aware 60000000)] ''later'' no_impact
     saved_db saved_db)"

definition applied :: "(int \<times> snapshot) res \<times> database" where
  "applied = apply_plan_patch_cas example_provider plain_message 3 ''auto'' 5 proposed_db proposed_db"

definition pending_patch :: patch_row where
  "pending_patch = \<lparr>pa_id = 3, pa_run = 7, pa_user = 1, pa_base = 1,
     pa_operations = [Change_departure_time (Aware 60000000)], pa_reason = ''later'', pa_impact = no_impact,
     pa_status = Pending, pa_decided = None\<rparr>"

lemma applied_shape: "case applied of (Inr (n, sn), d) \<Rightarrow> n = 2 \<and> versions_of 7 d = [1, 2] | _ \<Rightarrow> False"
  by code_simp

lemma example_history: "plan_history example_provider plain_message [proposed_db, saved_db, empty_database]"
proof -
  have "plan_history example_provider plain_message [saved_db, empty_database]"
    by (rule save [OF start]) (simp add: saved_db_def prod_eq_iff)
  then show ?thesis
    by (rule create [where ?d0.0 = saved_db]) (simp_all add: proposed_db_def prod_eq_iff)
qed

lemma applied_history:
  "plan_history example_provider plain_message [snd applied, proposed_db, saved_db, empty_database]"
  by (rule apply_cas [OF example_history, where ?d0.0 = proposed_db]) (simp_all add: applied_def prod_eq_iff)

lemma proposed_patch: "find_row (\<lambda>p. pa_id p = 3) (db_patches proposed_db) = Some pending_patch"
  by code_simp


definition reorder_stops :: "planned_stop list" where
  "reorder_stops = [example_stop, example_stop\<lparr>ps_task_index := 1\<rparr>]"

lemma reordering_runs:
  "apply_patch_structure (example_snapshot\<lparr>sn_stops := reorder_stops\<rparr>) [Move_stop (Some 1) (Some 0)]
     = Inr (example_snapshot\<lparr>sn_stops := reorder_stops\<rparr>, rev reorder_stops)"
  by (simp add: apply_patch_structure_def apply_operation_def py_pop_def py_insert_def remove_at_def
      reorder_stops_def)

theorem patch_keeps_obligations_witness:
  "apply_patch_structure (example_snapshot\<lparr>sn_stops := reorder_stops\<rparr>) [Move_stop (Some 1) (Some 0)]
     = Inr (example_snapshot\<lparr>sn_stops := reorder_stops\<rparr>, rev reorder_stops)
   \<and> mset (map (\<lambda>st. (ps_task_index st, ps_task st)) (rev reorder_stops))
      \<subseteq># mset (map (\<lambda>st. (ps_task_index st, ps_task st)) reorder_stops)"
  using patch_keeps_obligations [OF reordering_runs] reordering_runs by simp

lemma applied_result:
  "\<exists>sn d. apply_plan_patch_cas example_provider plain_message 3 ''auto'' 5 proposed_db proposed_db = (Inr (2, sn), d)"
  using applied_shape unfolding applied_def by (auto split: prod.splits sum.splits)

theorem applied_patch_is_validated_witness:
  "\<exists>sn d. apply_plan_patch_cas example_provider plain_message 3 ''auto'' 5 proposed_db proposed_db = (Inr (2, sn), d)
    \<and> covers_intent (in_tasks (sn_intent sn)) (sn_stops sn)"
proof -
  obtain sn d where *: "apply_plan_patch_cas example_provider plain_message 3 ''auto'' 5 proposed_db proposed_db
      = (Inr (2, sn), d)" using applied_result by blast
  from applied_patch_is_validated [OF *] * show ?thesis by blast
qed

theorem stale_patch_changes_nothing_witness:
  "\<exists>e. fst (apply_plan_patch_cas example_provider plain_message 3 ''auto'' 6 proposed_db (snd applied)) = Inl e"
proof -
  have "map_option vr_version (latest_version 7 (snd applied)) = Some 2" by code_simp
  then obtain cur where cur: "latest_version (pa_run pending_patch) (snd applied) = Some cur" "vr_version cur = 2"
    by (auto simp: pending_patch_def)
  obtain r d2 where run: "apply_plan_patch_cas example_provider plain_message 3 ''auto'' 6 proposed_db (snd applied) = (r, d2)"
    by (metis prod.collapse)
  have "\<exists>e. r = Inl e"
    using stale_patch_changes_nothing [OF applied_history _ proposed_patch cur(1) _ run] cur(2)
    by (simp add: pending_patch_def)
  with run show ?thesis by simp
qed

end
