(* ===== verification/Replan_Properties.thy ===== *)
theory Replan_Properties
  imports Replan_Facts Plan_Properties
begin

text \<open>
  The properties of in-trip replanning: the generated patch realises one of the feasible options,
  the review fails closed, and what is applied without asking.
\<close>

section \<open>The generated operations\<close>





section \<open>The proposal\<close>











end
