(* ===== verification/Review_Properties.thy ===== *)
theory Review_Properties
  imports Replan_Properties
begin

text \<open>
  What the review of a pending patch decides, what is applied without asking the user, and the two
  places where the workflow around it does not do what it means to.
\<close>

section \<open>The verdict\<close>

text \<open>
  When an operation blocks, stated on the plan itself: \<open>listed_as\<close> is the last stop of the plan with
  the identifier, as the comprehension over the stops leaves it.
\<close>

definition text_of_id :: "string option \<Rightarrow> string" where
  "text_of_id i = (case i of None \<Rightarrow> ''None'' | Some s \<Rightarrow> s)"

definition listed_as :: "string \<Rightarrow> snapshot \<Rightarrow> planned_stop option" where
  "listed_as i sn = find (\<lambda>st. text_of_id (poi_id (ps_poi st)) = i) (rev (sn_stops sn))"

definition blocks :: "snapshot \<Rightarrow> string list \<Rightarrow> patch_operation \<Rightarrow> bool" where
  "blocks sn completed op =
     (case op of
        Remove_stop sid \<Rightarrow> text_of_id sid \<notin> set completed
          \<and> (case listed_as (text_of_id sid) sn of None \<Rightarrow> True | Some st \<Rightarrow> pt_required (ps_task st))
      | Replace_stop sid rep \<Rightarrow>
          (case Option.bind rep rp_poi of None \<Rightarrow> True
           | Some p \<Rightarrow> poi_id p \<in> {None, Some []} \<or> poi_source p \<in> {None, Some []})
      | _ \<Rightarrow> False)"

lemma required_by_id_listed: "dget (required_by_id sn) i = map_option (\<lambda>st. pt_required (ps_task st)) (listed_as i sn)"
proof -
  have "dget (foldl (\<lambda>d st. dset (text_of_id (poi_id (ps_poi st))) (pt_required (ps_task st)) d) [] sts) i
      = map_option (\<lambda>st. pt_required (ps_task st)) (find (\<lambda>st. text_of_id (poi_id (ps_poi st)) = i) (rev sts))" for sts
    by (induction sts rule: rev_induct) auto
  then show ?thesis by (simp add: required_by_id_def listed_as_def text_of_id_def)
qed

lemma removal_forbidden_blocks: "removal_forbidden sn completed sid = blocks sn completed (Remove_stop sid)"
  by (auto simp: removal_forbidden_def blocks_def required_by_id_listed text_of_id_def split: option.splits)

lemma evidence_missing_blocks: "evidence_missing rep = blocks sn completed (Replace_stop sid rep)"
  by (auto simp: evidence_missing_def blocks_def has_text_def split: option.splits)

definition is_move :: "patch_operation \<Rightarrow> bool" where
  "is_move op = (case op of Move_stop a b \<Rightarrow> True | _ \<Rightarrow> False)"

definition op_risk :: "patch_operation \<Rightarrow> nat" where
  "op_risk op = (case op of Move_stop a b \<Rightarrow> 0 | Change_departure_time t \<Rightarrow> 1 | _ \<Rightarrow> 2)"

lemma op_risk_zero: "op_risk op = 0 \<longleftrightarrow> is_move op"
  by (cases op) (simp_all add: op_risk_def is_move_def)

lemma review_operation_effect:
  "rs_blocking (review_operation sn completed s op) \<longleftrightarrow> rs_blocking s \<or> blocks sn completed op"
  "rs_risk (review_operation sn completed s op) = max (rs_risk s) (op_risk op)"
proof -
  have "blocks sn completed (Replace_stop i rep) = evidence_missing rep" for i rep
    by (rule evidence_missing_blocks [symmetric])
  then show "rs_blocking (review_operation sn completed s op) \<longleftrightarrow> rs_blocking s \<or> blocks sn completed op"
    by (cases op) (simp_all add: review_operation_def Let_def removal_forbidden_blocks, simp_all add: blocks_def)
  show "rs_risk (review_operation sn completed s op) = max (rs_risk s) (op_risk op)"
    by (cases op) (simp_all add: review_operation_def op_risk_def Let_def)
qed

lemma review_fold:
  "rs_blocking (foldl (review_operation sn completed) s ops) \<longleftrightarrow> rs_blocking s \<or> list_ex (blocks sn completed) ops"
  "rs_risk (foldl (review_operation sn completed) s ops) = foldl max (rs_risk s) (map op_risk ops)"
  by (induction ops arbitrary: s) (auto simp: review_operation_effect)

lemma foldl_max_zero: "foldl max (r :: nat) xs = 0 \<longleftrightarrow> r = 0 \<and> list_all (\<lambda>x. x = 0) xs"
  by (induction xs arbitrary: r) auto

definition impact_conflict :: "patch_artifact \<Rightarrow> bool" where
  "impact_conflict p = (case pt_impact p of None \<Rightarrow> False | Some im \<Rightarrow> im_conflicts im \<noteq> [])"

definition version_mismatch :: "patch_artifact \<Rightarrow> bool" where
  "version_mismatch p =
     (case pt_impact p of None \<Rightarrow> False
      | Some im \<Rightarrow> (case im_before im of None \<Rightarrow> False
          | Some (version, _) \<Rightarrow> version \<noteq> Some (pt_base_version p) \<and> (version \<noteq> None \<or> pt_base_version p \<noteq> - 1)))"

definition completed_of :: "patch_artifact \<Rightarrow> string list" where
  "completed_of p = (case pt_impact p of None \<Rightarrow> [] | Some im \<Rightarrow> im_completed im)"

lemma review_start_simps:
  "rs_blocking (review_start p) = (impact_conflict p \<or> version_mismatch p)"
  "rs_risk (review_start p) = 0"
  by (auto simp: review_start_def impact_conflict_def version_mismatch_def Let_def split: option.splits)

lemma risk_of_Low: "risk_of n = Low \<longleftrightarrow> n = 0"
  by (simp add: risk_of_def)

lemma review_verdicts:
  shows "(pr_verdict (review_dynamic_patch sn p) = Verdict_blocked)
      = (impact_conflict p \<or> version_mismatch p \<or> list_ex (blocks sn (completed_of p)) (pt_operations p))"
    and "(pr_risk (review_dynamic_patch sn p) = Low \<and> pr_verdict (review_dynamic_patch sn p) = Approved)
      = (\<not> impact_conflict p \<and> \<not> version_mismatch p \<and> \<not> list_ex (blocks sn (completed_of p)) (pt_operations p)
         \<and> \<not> cost_increased p \<and> list_all is_move (pt_operations p))"
proof -
  let ?s = "foldl (review_operation sn (completed_of p)) (review_start p) (pt_operations p)"
  have block: "rs_blocking ?s = (impact_conflict p \<or> version_mismatch p \<or> list_ex (blocks sn (completed_of p)) (pt_operations p))"
    by (simp add: review_fold review_start_simps)
  have risk: "rs_risk ?s = 0 \<longleftrightarrow> list_all is_move (pt_operations p)"
    by (simp add: review_fold review_start_simps foldl_max_zero list_all_length op_risk_zero)
  have verdict: "pr_verdict (review_dynamic_patch sn p) = (if rs_blocking ?s then Verdict_blocked
      else if (if cost_increased p then max (rs_risk ?s) 2 else rs_risk ?s) \<noteq> 0 then Approved_with_warnings else Approved)"
    by (simp add: review_dynamic_patch_def completed_of_def Let_def)
  have level: "pr_risk (review_dynamic_patch sn p)
      = risk_of (if rs_blocking ?s then 3 else if cost_increased p then max (rs_risk ?s) 2 else rs_risk ?s)"
    by (simp add: review_dynamic_patch_def completed_of_def Let_def)
  show "(pr_verdict (review_dynamic_patch sn p) = Verdict_blocked)
      = (impact_conflict p \<or> version_mismatch p \<or> list_ex (blocks sn (completed_of p)) (pt_operations p))"
    unfolding verdict using block by simp
  show "(pr_risk (review_dynamic_patch sn p) = Low \<and> pr_verdict (review_dynamic_patch sn p) = Approved)
      = (\<not> impact_conflict p \<and> \<not> version_mismatch p \<and> \<not> list_ex (blocks sn (completed_of p)) (pt_operations p)
         \<and> \<not> cost_increased p \<and> list_all is_move (pt_operations p))"
    unfolding verdict level risk_of_Low using block risk by (auto split: if_splits)
qed

text \<open>
  C24: The review fails closed, exactly: a patch is blocked when its solution has a conflict, when its
  evidence is of another version, when it removes a required stop that is not completed or one the
  plan does not have, or when a replacement comes without a place and a source; and it passes as low
  risk exactly when none of these holds, the cost does not rise materially and every operation is a
  move.
\<close>

theorem review_fails_closed:
  "(pr_verdict (review_dynamic_patch sn p) = Verdict_blocked)
      = (impact_conflict p \<or> version_mismatch p \<or> list_ex (blocks sn (completed_of p)) (pt_operations p))
   \<and> (pr_risk (review_dynamic_patch sn p) = Low \<and> pr_verdict (review_dynamic_patch sn p) = Approved)
      = (\<not> (impact_conflict p \<or> version_mismatch p \<or> list_ex (blocks sn (completed_of p)) (pt_operations p)
             \<or> cost_increased p) \<and> list_all is_move (pt_operations p))"
  using review_verdicts [of sn p] by blast

section \<open>Applying without asking\<close>

lemma dynamic_replan_Inr:
  assumes "dynamic_replan provider search ortools message max_replans new_id t dv trip rq env1 env2 d0 = (Inr res, d)"
  obtains version :: version_row where
    "rz_review res = review_dynamic_patch (vr_snapshot version) (outcome_artifact dv (rz_outcome res))"
    "rz_applied_version res \<noteq> None \<Longrightarrow> tw_auto_apply trip \<and> outcome_patch (rz_outcome res) \<noteq> None
       \<and> pr_risk (rz_review res) = Low \<and> pr_verdict (rz_review res) = Approved"
    "rz_requires_confirmation res = (outcome_patch (rz_outcome res) \<noteq> None
       \<and> pr_verdict (rz_review res) \<noteq> Verdict_blocked \<and> rz_applied_version res = None)"
  using assms
  by (auto simp: dynamic_replan_def Let_def split: if_splits prod.splits sum.splits option.splits bool.splits)

text \<open>
  C23: A freshly computed patch is applied without asking the user only for a trip that opted in, and
  only when all it does is change the order of the stops, for a solution without conflict and
  without a material rise in cost; otherwise the user is asked, unless the patch is blocked.
\<close>

theorem unasked_patch_only_reorders:
  assumes "dynamic_replan provider search ortools message max_replans new_id t dv trip rq env1 env2 d0 = (Inr res, d)"
    and "rz_outcome res = Patch_pending pid ops impact options"
  shows "if rz_applied_version res = None
    then rz_requires_confirmation res = (pr_verdict (rz_review res) \<noteq> Verdict_blocked)
    else tw_auto_apply trip \<and> list_all is_move ops \<and> im_conflicts impact = []
      \<and> im_after_cost impact \<le> (case im_before impact of None \<Rightarrow> 0 | Some (_, cost) \<Rightarrow> cost)
          + max 20 ((case im_before impact of None \<Rightarrow> 0 | Some (_, cost) \<Rightarrow> cost) * (1 / 10))
      \<and> \<not> rz_requires_confirmation res"
  using assms(1)
proof (rule dynamic_replan_Inr)
  fix version :: version_row
  assume review: "rz_review res = review_dynamic_patch (vr_snapshot version) (outcome_artifact dv (rz_outcome res))"
    and applied: "rz_applied_version res \<noteq> None \<Longrightarrow> tw_auto_apply trip \<and> outcome_patch (rz_outcome res) \<noteq> None
       \<and> pr_risk (rz_review res) = Low \<and> pr_verdict (rz_review res) = Approved"
    and asked: "rz_requires_confirmation res = (outcome_patch (rz_outcome res) \<noteq> None
       \<and> pr_verdict (rz_review res) \<noteq> Verdict_blocked \<and> rz_applied_version res = None)"
  show ?thesis
  proof (cases "rz_applied_version res")
    case None
    with asked assms(2) show ?thesis by (simp add: outcome_patch_def)
  next
    case (Some n)
    let ?p = "\<lparr>pt_base_version = dv, pt_operations = ops, pt_impact = Some impact\<rparr>"
    have "outcome_artifact dv (rz_outcome res) = ?p" using assms(2) by (simp add: outcome_artifact_def)
    then have "pr_risk (review_dynamic_patch (vr_snapshot version) ?p) = Low
        \<and> pr_verdict (review_dynamic_patch (vr_snapshot version) ?p) = Approved"
      using applied Some review by simp
    then have "\<not> impact_conflict ?p" "\<not> cost_increased ?p" "list_all is_move (pt_operations ?p)"
      unfolding review_verdicts(2) by simp_all
    with Some applied asked show ?thesis
      by (simp add: impact_conflict_def cost_increased_def Let_def not_less)
  qed
qed

text \<open>
  C30: When the same event is handled again while its patch is still pending, the review sees no
  operation at all: for a trip that opted in, the pending patch is applied without asking whatever
  it does, provided the recorded solution has no conflict and no material rise in cost.
\<close>

theorem repeated_event_skips_review:
  assumes "tw_replans trip < max_replans" and "rq_source rq = Some e" and "tw_auto_apply trip"
    and "find_row (\<lambda>v. vr_run v = tw_run trip \<and> vr_version v = tw_version trip) (db_versions d0) = Some version"
    and "find_row (\<lambda>p. pa_run p = tw_run trip \<and> pa_base p = tw_version trip \<and> pa_status p = Pending
       \<and> im_source (pa_impact p) = Some e) (db_patches d0) = Some p"
    and "im_conflicts (pa_impact p) = []" and "im_before (pa_impact p) = Some (Some (tw_version trip), cost)"
    and "im_after_cost (pa_impact p) \<le> cost + max 20 (cost * (1 / 10))" and "unique_rows d0"
    and "apply_plan_patch_cas provider message (pa_id p) ''validated_low_risk_auto_apply_opt_in'' t d0 d0 = (Inr (n, sn), d)"
  shows "\<exists>res. dynamic_replan provider search ortools message max_replans new_id t (tw_version trip) trip rq id id d0
      = (Inr res, d) \<and> rz_applied_version res = Some n \<and> \<not> rz_requires_confirmation res
    \<and> pr_operations (rz_review res) = 0 \<and> pr_risk (rz_review res) = Low"
proof -
  let ?a = "\<lparr>pt_base_version = tw_version trip, pt_operations = [], pt_impact = Some (pa_impact p)\<rparr>"
  let ?review = "review_dynamic_patch (vr_snapshot version) ?a"
  have "create_pending_replan provider search ortools max_replans new_id trip rq d0 d0
      = (Inr (Deduplicated (pa_id p) (pa_impact p)), d0)"
    using assms(1,2,4,5,9) by (simp add: create_pending_replan_def run_transaction_def commit_def)
  moreover have low: "pr_risk ?review = Low" "pr_verdict ?review = Approved"
    using review_verdicts(2) [of "vr_snapshot version" ?a] assms(6-8)
    by (simp_all add: impact_conflict_def version_mismatch_def cost_increased_def Let_def not_less)
  moreover have "pr_operations ?review = 0" by (simp add: review_dynamic_patch_def Let_def)
  ultimately show ?thesis
    using assms(3,4,10) by (simp add: dynamic_replan_def outcome_artifact_def outcome_patch_def Let_def)
qed

end
