(* ===== verification/Replan_Examples.thy ===== *)
theory Replan_Examples
  imports Review_Properties
begin

text \<open>
  One trip on a line with a far stop and a near one, planned in the wrong order: the replanner
  proposes to swap them, the review passes the swap, and the opted-in trip gets it at once. The
  examples show that the hypotheses of the replanning properties can hold.
\<close>

section \<open>A trip on a line\<close>

definition line_provider :: map_provider where
  "line_provider = (\<lambda>places mode. Inr (map (\<lambda>a. map (\<lambda>b.
     \<lparr>re_duration = \<bar>co_lng a - co_lng b\<bar>, re_distance = \<bar>co_lng a - co_lng b\<bar>, re_confidence = 1\<rparr>) places) places))"

definition walk_task :: planning_task where
  "walk_task = \<lparr>pt_description = ''walk'', pt_location_name = None, pt_category = None, pt_required = False,
     pt_service_minutes = 0, pt_min_service_minutes = None, pt_earliest = None, pt_deadline = None,
     pt_min_rating = None, pt_max_cost = None, pt_require_open = False, pt_require_accessible = False,
     pt_appointment = None\<rparr>"

definition line_stop :: "int \<Rightarrow> string \<Rightarrow> rat \<Rightarrow> planned_stop" where
  "line_stop i name x = example_stop\<lparr>ps_task_index := i, ps_task := walk_task,
     ps_poi := example_poi\<lparr>poi_id := Some name, poi_location := Some \<lparr>co_lng = x, co_lat = 0\<rparr>\<rparr>\<rparr>"

definition line_snapshot :: snapshot where
  "line_snapshot = example_snapshot\<lparr>sn_stops := [line_stop 0 ''far'' 3, line_stop 1 ''near'' 1],
     sn_intent := (sn_intent example_snapshot)\<lparr>in_tasks := [walk_task, walk_task]\<rparr>,
     sn_origin := Some \<lparr>co_lng = 0, co_lat = 0\<rparr>\<rparr>"

definition line_trip :: trip_row where
  "line_trip = \<lparr>tw_id = 5, tw_run = 7, tw_user = 1, tw_version = 1, tw_state = Active_trip, tw_replans = 0,
     tw_auto_apply = True\<rparr>"

definition no_payload :: event_payload where
  "no_payload = \<lparr>ev_closed_ids = [], ev_closed_id = None, ev_close_reason = [], ev_outdoor_ids = [],
     ev_allow_switch = False\<rparr>"

definition line_request :: replan_request where
  "line_request = \<lparr>rq_location = \<lparr>co_lng = 0, co_lat = 0\<rparr>, rq_time = 0, rq_completed = [],
     rq_reason = ''late'', rq_source = Some 9, rq_event = Some ''UserOffRoute'', rq_payload = no_payload,
     rq_weather = None\<rparr>"

definition line_impact :: patch_impact where
  "line_impact = \<lparr>im_source = Some 9, im_before = Some (Some 1, 0), im_after_cost = 0, im_conflicts = [],
     im_replaced = [], im_dropped = False, im_completed = [],
     im_context = Some \<lparr>rc_origin = Some \<lparr>co_lng = 0, co_lat = 0\<rparr>, rc_departure = Some 0\<rparr>\<rparr>"

definition no_search :: poi_search where
  "no_search = (\<lambda>keyword here district. Inr [])"

definition no_solver :: solver where
  "no_solver = (\<lambda>mode dropping. None)"

lemmas route_eval = optimize_route_def optimize_joint_route_def exact_size_def factorial_of_def exact_candidates_def
  evaluate_joint_order_def selection_of_def start_walk_def edge_at_def py_nth_def visit_stop_def stop_conflicts_def
  arrival_at_def service_minutes_def return_leg_def trip_conflicts_def soft_penalties_def score_of_def
  only_if_def requires_accessible_def Let_def td_minutes_def td_seconds_def round_half_even_def
  no_constraints_def default_preferences_def default_weights_def evaluation_key_def has_text_def rat_or_def
  change_component_def evaluation_conflicts_def

lemmas propose_eval = propose_def stop_ids_def line_snapshot_def example_snapshot_def line_stop_def example_stop_def
  example_poi_def line_request_def line_trip_def no_search_def no_solver_def no_payload_def closed_ids_def
  closing_words_def contains_def weather_requires_indoor_def mode_choices_def all_modes_def active_items_def
  solve_option_def located_def coordinate_ok_def line_provider_def choose_option_def find_row_def
  switch_requested_def patch_operations_def removals_def replacing_def py_insert_def remove_at_def stop_cost_def
  str_lower_def utf8_def walk_task_def

lemma line_proposal:
  "\<exists>options. propose line_provider no_search no_solver line_trip line_request line_snapshot
     = Inr (Proposal [Move_stop (Some 1) (Some 0)] line_impact options)"
  by (simp add: propose_eval route_eval line_impact_def)


section \<open>The workflow on it\<close>

definition line_db :: database where
  "line_db = (snd (save_first_version 7 1 line_snapshot ''initial_plan'' empty_database))\<lparr>db_trips := [line_trip]\<rparr>"

definition line_patch :: "patch_operation list \<Rightarrow> patch_row" where
  "line_patch ops = \<lparr>pa_id = 3, pa_run = 7, pa_user = 1, pa_base = 1, pa_operations = ops,
     pa_reason = ''late'', pa_impact = line_impact, pa_status = Pending, pa_decided = None\<rparr>"

definition line_pending :: database where
  "line_pending = (set_trip 5 (\<lambda>r. r\<lparr>tw_replans := 1, tw_state := Replanning\<rparr>) line_db)
     \<lparr>db_patches := [line_patch [Move_stop (Some 1) (Some 0)]],
      db_audit := [audit (line_patch []) ''create_pending_replan_patch''
        ''proposal_only_requires_user_confirmation'']\<rparr>"

lemma line_db_eval:
  "find_row (\<lambda>v. vr_run v = 7 \<and> vr_version v = 1) (db_versions line_db)
     = Some \<lparr>vr_run = 7, vr_user = 1, vr_version = 1, vr_snapshot = line_snapshot, vr_reason = ''initial_plan''\<rparr>"
  "db_patches line_db = []" "db_trips line_db = [line_trip]" "db_audit line_db = []"
  "db_versions line_pending = db_versions line_db"
  by (simp_all add: line_db_def save_first_version_def run_transaction_def commit_def unique_rows_def
      empty_database_def find_row_def line_pending_def set_trip_def)

lemma line_pending_unique: "unique_rows line_pending"
  by code_simp

lemma line_replan_pending:
  "\<exists>options. create_pending_replan line_provider no_search no_solver 10 3 line_trip line_request line_db line_db
     = (Inr (Patch_pending 3 [Move_stop (Some 1) (Some 0)] line_impact options), line_pending)"
proof -
  obtain options where p: "propose line_provider no_search no_solver line_trip line_request line_snapshot
     = Inr (Proposal [Move_stop (Some 1) (Some 0)] line_impact options)" using line_proposal by blast
  have ids: "tw_run line_trip = 7" "tw_version line_trip = 1" "tw_replans line_trip = 0" "tw_id line_trip = 5"
      "tw_user line_trip = 1" "rq_source line_request = Some 9" "rq_reason line_request = ''late''"
    by (simp_all add: line_trip_def line_request_def)
  have w: "(let db1 = set_trip 5 (\<lambda>r. r\<lparr>tw_replans := 0 + 1, tw_state := Replanning\<rparr>) line_db
      in db1\<lparr>db_patches := db_patches db1 @ [line_patch [Move_stop (Some 1) (Some 0)]],
             db_audit := db_audit db1 @ [audit (line_patch [Move_stop (Some 1) (Some 0)])
               ''create_pending_replan_patch'' ''proposal_only_requires_user_confirmation'']\<rparr>) = line_pending"
    by (simp add: line_pending_def set_trip_def line_db_eval audit_def line_patch_def Let_def)
  have none: "find_row P [] = None" for P :: "patch_row \<Rightarrow> bool" by (simp add: find_row_def)
  show ?thesis
    using line_pending_unique w
    by (simp add: create_pending_replan_def run_transaction_def commit_def ids line_db_eval none p
        line_patch_def [symmetric] Let_def)
qed

lemma line_applied:
  "case apply_plan_patch_cas line_provider plain_message 3 ''validated_low_risk_auto_apply_opt_in'' 50
      line_pending line_pending of (Inr (n, sn), d) \<Rightarrow> n = 2 | _ \<Rightarrow> False"
  by code_simp

theorem unasked_patch_only_reorders_witness:
  "\<exists>res d. dynamic_replan line_provider no_search no_solver plain_message 10 3 50 1 line_trip line_request id id line_db
      = (Inr res, d) \<and> rz_applied_version res = Some 2 \<and> \<not> rz_requires_confirmation res"
proof -
  obtain options where p: "create_pending_replan line_provider no_search no_solver 10 3 line_trip line_request line_db line_db
     = (Inr (Patch_pending 3 [Move_stop (Some 1) (Some 0)] line_impact options), line_pending)"
    using line_replan_pending by blast
  obtain sn d where a: "apply_plan_patch_cas line_provider plain_message 3 ''validated_low_risk_auto_apply_opt_in'' 50
      line_pending line_pending = (Inr (2, sn), d)"
    using line_applied by (auto split: prod.splits sum.splits)
  let ?a = "\<lparr>pt_base_version = 1, pt_operations = [Move_stop (Some 1) (Some 0)], pt_impact = Some line_impact\<rparr>"
  have low: "pr_risk (review_dynamic_patch line_snapshot ?a) = Low \<and> pr_verdict (review_dynamic_patch line_snapshot ?a) = Approved"
    by (simp add: review_dynamic_patch_def review_start_def review_operation_def cost_increased_def line_impact_def
        only_if_def risk_of_def Let_def)
  have ids: "tw_run line_trip = 7" "tw_version line_trip = 1" "tw_auto_apply line_trip" "tw_id line_trip = 5"
    by (simp_all add: line_trip_def)
  obtain res where run: "dynamic_replan line_provider no_search no_solver plain_message 10 3 50 1 line_trip line_request id id line_db
      = (Inr res, d)" and res: "rz_applied_version res = Some 2"
      "rz_outcome res = Patch_pending 3 [Move_stop (Some 1) (Some 0)] line_impact options"
    using low by (simp add: dynamic_replan_def p a ids line_db_eval outcome_artifact_def outcome_patch_def Let_def)
  from unasked_patch_only_reorders [OF run res(2)] res(1) run show ?thesis by auto
qed

section \<open>The same event again\<close>

text \<open>The pending patch removes a stop that is not completed; the event is handled a second time.\<close>

definition removal_pending :: database where
  "removal_pending = line_pending\<lparr>db_patches := [line_patch [Remove_stop (Some ''far'')]]\<rparr>"

lemma removal_applied:
  "case apply_plan_patch_cas line_provider plain_message 3 ''validated_low_risk_auto_apply_opt_in'' 50
      removal_pending removal_pending of
    (Inr (n, sn), d) \<Rightarrow> n = 2 \<and> map (\<lambda>st. poi_id (ps_poi st)) (sn_stops sn) = [Some ''near''] | _ \<Rightarrow> False"
  by code_simp

lemma removal_unique: "unique_rows removal_pending"
  by code_simp

theorem repeated_event_skips_review_witness:
  "\<exists>res d. dynamic_replan line_provider no_search no_solver plain_message 10 4 50 1 line_trip line_request id id removal_pending
      = (Inr res, d) \<and> rz_applied_version res = Some 2 \<and> \<not> rz_requires_confirmation res
    \<and> pr_operations (rz_review res) = 0"
proof -
  obtain sn d where a: "apply_plan_patch_cas line_provider plain_message 3 ''validated_low_risk_auto_apply_opt_in'' 50
      removal_pending removal_pending = (Inr (2, sn), d)"
    using removal_applied by (auto split: prod.splits sum.splits)
  have ids: "tw_run line_trip = 7" "tw_version line_trip = 1" "tw_replans line_trip = 0" "rq_source line_request = Some 9"
      "tw_auto_apply line_trip" by (simp_all add: line_trip_def line_request_def)
  have v: "find_row (\<lambda>v. vr_run v = tw_run line_trip \<and> vr_version v = tw_version line_trip) (db_versions removal_pending)
      = Some \<lparr>vr_run = 7, vr_user = 1, vr_version = 1, vr_snapshot = line_snapshot, vr_reason = ''initial_plan''\<rparr>"
    by (simp add: removal_pending_def line_db_eval ids)
  have p: "find_row (\<lambda>p. pa_run p = tw_run line_trip \<and> pa_base p = tw_version line_trip \<and> pa_status p = Pending
       \<and> im_source (pa_impact p) = Some 9) (db_patches removal_pending) = Some (line_patch [Remove_stop (Some ''far'')])"
    by (simp add: removal_pending_def find_row_def line_patch_def line_impact_def ids)
  have i: "pa_impact (line_patch [Remove_stop (Some ''far'')]) = line_impact" "pa_id (line_patch [Remove_stop (Some ''far'')]) = 3"
    by (simp_all add: line_patch_def)
  from repeated_event_skips_review [OF _ ids(4,5) v p, of 10 0 line_provider plain_message 50 2 sn d no_search no_solver 4]
  show ?thesis using a removal_unique ids by (auto simp: i line_impact_def)
qed

end
