(* ===== verification/Agent_Runtime.thy ===== *)
theory Agent_Runtime
  imports Shared_State
begin

text \<open>
  \<open>services/agent_runtime.py\<close>: the bounded tool loop that runs any agent specification. The model
  behind \<open>decide\<close>, the fallback, the tools, the trace emitter and the shared-state updater are
  parameters that act on a world \<open>'w\<close> (the database, the network, the providers); the loop itself,
  its budgets, its authorisation and its records are the code's. The specification and the budget
  are those of \<open>schemas/agent_artifacts.py\<close>, the decisions those of \<open>services/agent_decider.py\<close>.
\<close>

section \<open>Specifications, requests and decisions\<close>

record agent_budget =
  bu_steps :: int
  bu_input_tokens :: int
  bu_output_tokens :: int
  bu_cost :: rat

record agent_spec =
  sp_agent :: agent_type
  sp_context_view :: string
  sp_allowed_tools :: "string list"
  sp_inputs :: "string list"
  sp_output :: string
  sp_budget :: agent_budget

record tool_budget =
  tb_run :: int
  tb_task :: int
  tb_scope :: int

record runtime_request =
  rn_spec :: agent_spec
  rn_state :: string
  rn_observation :: payload
  rn_input_type :: string
  rn_task :: string
  rn_evidence :: "string list"
  rn_max_steps :: "int option"
  rn_tool_budget :: tool_budget

datatype agent_decision =
    Finish string
  | Call_tool string payload string

record decision_result =
  dr_decision :: agent_decision
  dr_input_tokens :: int
  dr_output_tokens :: int
  dr_model :: string
  dr_input_price :: rat
  dr_output_price :: rat

fun decision_reason :: "agent_decision \<Rightarrow> string" where
  "decision_reason (Finish r) = r"
| "decision_reason (Call_tool t a r) = r"

text \<open>The settings of \<open>core/config.py\<close> that the runtime reads.\<close>

record runtime_settings =
  st_max_steps :: int
  st_input_tokens :: int
  st_output_tokens :: int
  st_cost :: rat
  st_calls_per_run :: int
  st_calls_per_task :: int
  st_calls_per_trip :: int
  st_input_price :: rat
  st_output_price :: rat

section \<open>Steps, events and results\<close>

datatype step_status =
    Step_finished | Step_denied | Step_invalid | Step_succeeded | Step_failed | Step_over_budget

fun step_status_value :: "step_status \<Rightarrow> string" where
  "step_status_value Step_finished = ''finished''"
| "step_status_value Step_denied = ''policy_denied''"
| "step_status_value Step_invalid = ''validation_failed''"
| "step_status_value Step_succeeded = ''succeeded''"
| "step_status_value Step_failed = ''failed''"
| "step_status_value Step_over_budget = ''budget_exceeded''"

record runtime_step =
  ru_index :: nat
  ru_status :: step_status
  ru_reason :: "string option"
  ru_tool :: "string option"
  ru_arguments :: payload
  ru_result :: payload
  ru_latency :: "int option"

datatype run_status = Run_succeeded | Run_budget_exceeded | Run_tool_failed | Run_step_limit

fun run_status_value :: "run_status \<Rightarrow> string" where
  "run_status_value Run_succeeded = ''succeeded''"
| "run_status_value Run_budget_exceeded = ''budget_exceeded''"
| "run_status_value Run_tool_failed = ''tool_failed''"
| "run_status_value Run_step_limit = ''step_limit_reached''"

record runtime_event =
  re_type :: string
  re_index :: "nat option"
  re_payload :: payload

record artifact_envelope =
  ae_type :: string
  ae_producer :: agent_type
  ae_payload :: payload
  ae_confidence :: rat
  ae_evidence :: "string list"
  ae_hash :: string

record runtime_result =
  rx_status :: run_status
  rx_steps :: "runtime_step list"
  rx_artifact :: artifact_envelope
  rx_events :: "runtime_event list"
  rx_input_tokens :: int
  rx_output_tokens :: int
  rx_cost :: rat
  rx_model :: string
  rx_fallback :: bool
  rx_shared_state :: "payload option"

text \<open>
  \<open>AgentRuntimeStep(...)\<close>: the schema limits the reason to 300 characters and the tool name to 80
  and raises otherwise.
\<close>

definition validation_failure :: "string \<Rightarrow> seen_exception" where
  "validation_failure msg =
     \<lparr>se_text = msg, se_class = ''ValidationError'', se_is_timeout = False, se_is_validation = True\<rparr>"

definition value_failure :: "string \<Rightarrow> seen_exception" where
  "value_failure msg =
     \<lparr>se_text = msg, se_class = ''ValueError'', se_is_timeout = False, se_is_validation = False\<rparr>"

definition new_step :: "runtime_step \<Rightarrow> seen_exception + runtime_step" where
  "new_step s =
     (if (case ru_reason s of None \<Rightarrow> False | Some r \<Rightarrow> 300 < cp_length r)
         \<or> (case ru_tool s of None \<Rightarrow> False | Some t \<Rightarrow> 80 < cp_length t)
      then Inl (validation_failure ''String should have at most n characters'') else Inr s)"

text \<open>\<open>step.model_dump(mode="json")\<close>, what the model sees of earlier steps.\<close>

definition step_json :: "runtime_step \<Rightarrow> json" where
  "step_json s = JObj
     [(''step_index'', JInt (int (ru_index s))), (''status'', JStr (step_status_value (ru_status s))),
      (''reason'', opt_str (ru_reason s)), (''tool'', opt_str (ru_tool s)),
      (''arguments'', JObj (ru_arguments s)), (''output'', JObj (ru_result s)),
      (''latency_ms'', case ru_latency s of None \<Rightarrow> JNull | Some i \<Rightarrow> JInt i)]"

definition envelope_json :: "tool_envelope \<Rightarrow> payload" where
  "envelope_json e =
     [(''success'', JBool (te_success e)), (''error_code'', opt_str (te_error_code e)),
      (''retryable'', JBool (te_retryable e)), (''source'', JStr (te_source e)),
      (''expires_at'', JNull), (''confidence'', JFloat (te_confidence e)),
      (''artifact_ref'', opt_str (te_artifact_ref e)), (''data'', JObj (te_data e))]"

section \<open>The ports of the runtime\<close>

text \<open>
  What the constructor and \<open>execute\<close> take: a decider and a fallback see the context, the history
  and the tool names; the executor runs a tool with validated arguments. \<open>rt_arguments\<close> is the
  pydantic model of a tool by its name, \<open>rt_text\<close> is \<open>str(x)\<close> of a JSON value that is
  not a string and \<open>rt_float\<close> is \<open>float(x)\<close> of a text. Each port may change the world, and may raise.
\<close>

type_synonym 'w decider = "payload \<Rightarrow> json list \<Rightarrow> string list \<Rightarrow> 'w \<Rightarrow> (seen_exception + decision_result) \<times> 'w"

record 'w runtime_ports =
  rt_decide :: "'w decider"
  rt_fallback :: "'w decider"
  rt_context :: "runtime_request \<Rightarrow> payload \<Rightarrow> json list \<Rightarrow> payload"
  rt_policy :: "string \<Rightarrow> string \<Rightarrow> bool \<times> string \<times> bool"
  rt_arguments :: "string \<Rightarrow> payload \<Rightarrow> payload option"
  rt_execute :: "string \<Rightarrow> payload \<Rightarrow> 'w \<Rightarrow> (seen_exception + payload) \<times> 'w"
  rt_emit :: "runtime_event \<Rightarrow> 'w \<Rightarrow> 'w"
  rt_validator :: "artifact_envelope \<Rightarrow> seen_exception option"
  rt_update :: "runtime_result \<Rightarrow> 'w \<Rightarrow> (seen_exception + payload option) \<times> 'w"
  rt_text :: "json \<Rightarrow> string"
  rt_float :: "string \<Rightarrow> rat option"
  rt_latency :: "nat \<Rightarrow> int"
  rt_hash :: "payload \<Rightarrow> string"

text \<open>The defaults: finish at once, the plain context, every registered tool allowed, no updater.\<close>

definition safe_finish :: "'w decider" where
  "safe_finish context_in history tools w =
     (Inr \<lparr>dr_decision = Finish ''model unavailable; role-neutral runtime fallback stopped safely'',
           dr_input_tokens = 0, dr_output_tokens = 0, dr_model = ''runtime-safe-finish-v1'',
           dr_input_price = 0, dr_output_price = 0\<rparr>, w)"

definition default_context :: "runtime_request \<Rightarrow> payload \<Rightarrow> json list \<Rightarrow> payload" where
  "default_context rq observation history =
     [(''agent'', JObj [(''type'', JStr (agent_value (sp_agent (rn_spec rq)))),
        (''context_view'', JStr (sp_context_view (rn_spec rq))), (''task_id'', JStr (rn_task rq))]),
      (''current_observation'', minimize (JObj observation)),
      (''recent_tool_results'', JArr (map minimize (last_n 5 history)))]"

definition allow_registered_tool :: "string \<Rightarrow> string \<Rightarrow> bool \<times> string \<times> bool" where
  "allow_registered_tool tool state = (True, ''allowed'', False)"

section \<open>Authorisation and budgets\<close>

fun denial_reason :: "denial \<Rightarrow> string" where
  "denial_reason Tool_not_registered = ''tool_not_registered''"
| "denial_reason Tool_not_allowed_for_agent = ''tool_not_allowed_for_agent''"
| "denial_reason Mode_not_allowed = ''invocation_mode_not_allowed''"
| "denial_reason Scope_not_allowed = ''data_scope_not_allowed''"

definition authorize_tool :: "'w runtime_ports \<Rightarrow> agent_spec \<Rightarrow> string \<Rightarrow> string \<Rightarrow> bool \<times> string \<times> bool" where
  "authorize_tool P spec tool state =
     (let scopes = (case dget tool_registry tool of None \<Rightarrow> {} | Some c \<Rightarrow> cap_scopes c)
      in case authorize (\<lambda>_. ()) tool_registry (sp_agent spec) tool Agent_callable scopes of
           Inl d \<Rightarrow> (False, denial_reason d, False)
         | Inr g \<Rightarrow> rt_policy P tool state)"

definition estimated_cost :: "runtime_settings \<Rightarrow> int \<Rightarrow> int \<Rightarrow> rat \<Rightarrow> rat \<Rightarrow> rat" where
  "estimated_cost S tokens_in tokens_out price_in price_out =
     (of_int tokens_in * (if price_in \<noteq> 0 then price_in else st_input_price S)
      + of_int tokens_out * (if price_out \<noteq> 0 then price_out else st_output_price S)) / 1000000"

definition model_budget_exceeded :: "runtime_settings \<Rightarrow> agent_spec \<Rightarrow> int \<Rightarrow> int \<Rightarrow> rat \<Rightarrow> bool" where
  "model_budget_exceeded S spec tokens_in tokens_out cost \<longleftrightarrow>
     min (st_input_tokens S) (bu_input_tokens (sp_budget spec)) < tokens_in
   \<or> min (st_output_tokens S) (bu_output_tokens (sp_budget spec)) < tokens_out
   \<or> min (st_cost S) (bu_cost (sp_budget spec)) < cost"

definition tool_budget_exceeded :: "runtime_settings \<Rightarrow> tool_budget \<Rightarrow> int \<Rightarrow> bool" where
  "tool_budget_exceeded S b local_calls \<longleftrightarrow>
     st_calls_per_run S \<le> tb_run b + local_calls
   \<or> st_calls_per_task S \<le> tb_task b + local_calls
   \<or> st_calls_per_trip S \<le> tb_scope b + local_calls"

definition step_limit :: "runtime_settings \<Rightarrow> runtime_request \<Rightarrow> int" where
  "step_limit S rq =
     min (min (case rn_max_steps rq of None \<Rightarrow> st_max_steps S | Some n \<Rightarrow> if n = 0 then st_max_steps S else n)
              (st_max_steps S))
         (bu_steps (sp_budget (rn_spec rq)))"

section \<open>The loop\<close>

text \<open>The variables of \<open>execute\<close> that the loop changes.\<close>

record 'w run_state =
  ls_steps :: "runtime_step list"
  ls_history :: "json list"
  ls_events :: "runtime_event list"
  ls_observation :: payload
  ls_in :: int
  ls_out :: int
  ls_fallback :: bool
  ls_model :: string
  ls_in_price :: rat
  ls_out_price :: rat
  ls_world :: 'w

definition emit_trace :: "'w runtime_ports \<Rightarrow> runtime_event \<Rightarrow> 'w run_state \<Rightarrow> 'w run_state" where
  "emit_trace P e l = l\<lparr>ls_events := ls_events l @ [e], ls_world := rt_emit P e (ls_world l)\<rparr>"

text \<open>
  One call of the model: the decider, and when it raises, the fallback; a fallback that raises ends
  the run with its exception.
\<close>

definition consult ::
  "'w runtime_ports \<Rightarrow> runtime_request \<Rightarrow> nat \<Rightarrow> 'w run_state
     \<Rightarrow> (seen_exception + decision_result) \<times> 'w run_state" where
  "consult P rq i l =
     (let view = rt_context P rq (ls_observation l) (ls_history l);
          tools = sort (remdups (sp_allowed_tools (rn_spec rq)))
      in case rt_decide P view (ls_history l) tools (ls_world l) of
           (Inr d, w) \<Rightarrow> (Inr d, l\<lparr>ls_world := w\<rparr>)
         | (Inl e, w) \<Rightarrow>
             (let l1 = emit_trace P \<lparr>re_type = ''model_fallback'', re_index = Some i,
                         re_payload = [(''error_code'', JStr (stable_tool_error e))]\<rparr>
                         (l\<lparr>ls_world := w, ls_fallback := True\<rparr>)
              in case rt_fallback P view (ls_history l1) tools (ls_world l1) of
                   (r, w') \<Rightarrow> (r, l1\<lparr>ls_world := w'\<rparr>)))"

definition count_tokens :: "decision_result \<Rightarrow> 'w run_state \<Rightarrow> 'w run_state" where
  "count_tokens d l =
     l\<lparr>ls_in := ls_in l + dr_input_tokens d, ls_out := ls_out l + dr_output_tokens d,
       ls_model := dr_model d, ls_in_price := dr_input_price d, ls_out_price := dr_output_price d\<rparr>"

definition run_cost :: "runtime_settings \<Rightarrow> 'w run_state \<Rightarrow> rat" where
  "run_cost S l = estimated_cost S (ls_in l) (ls_out l) (ls_in_price l) (ls_out_price l)"

definition add_step :: "runtime_step \<Rightarrow> 'w run_state \<Rightarrow> 'w run_state" where
  "add_step s l = l\<lparr>ls_steps := ls_steps l @ [s]\<rparr>"

text \<open>A tool step is recorded for the model: history, last output, and its event.\<close>

definition report_step :: "'w runtime_ports \<Rightarrow> runtime_step \<Rightarrow> string \<Rightarrow> 'w run_state \<Rightarrow> 'w run_state" where
  "report_step P s tool l =
     emit_trace P \<lparr>re_type = ''tool_result'', re_index = Some (ru_index s),
         re_payload = [(''tool'', JStr tool), (''status'', JStr (step_status_value (ru_status s))),
           (''output'', JObj (ru_result s))]\<rparr>
       ((add_step s l)\<lparr>ls_history := ls_history l @ [step_json s],
          ls_observation := dset ''last_output'' (JObj (ru_result s))
            (dset ''last_tool'' (JStr tool) (ls_observation l))\<rparr>)"

definition tool_step_count :: "runtime_step list \<Rightarrow> int" where
  "tool_step_count steps = int (length (filter (\<lambda>s. ru_tool s \<noteq> None \<and> ru_tool s \<noteq> Some []) steps))"

text \<open>\<open>str(x)\<close> and \<open>float(x)\<close> of a JSON value: the ports stand for the values that are not plain.\<close>

definition json_text :: "'w runtime_ports \<Rightarrow> json \<Rightarrow> string" where
  "json_text P v = (case v of JStr s \<Rightarrow> s | _ \<Rightarrow> rt_text P v)"

definition json_float :: "'w runtime_ports \<Rightarrow> json \<Rightarrow> rat option" where
  "json_float P v =
     (case v of
        JInt i \<Rightarrow> Some (of_int i)
      | JFloat q \<Rightarrow> Some q
      | JBool b \<Rightarrow> Some (if b then 1 else 0)
      | JStr s \<Rightarrow> rt_float P s
      | _ \<Rightarrow> None)"

text \<open>\<open>execute_tool\<close>: the executor, and the envelope made of its output.\<close>

definition execute_tool ::
  "'w runtime_ports \<Rightarrow> string \<Rightarrow> payload \<Rightarrow> 'w \<Rightarrow> (seen_exception + payload) \<times> 'w" where
  "execute_tool P tool args w =
     (case rt_execute P tool args w of
        (Inl e, w') \<Rightarrow> (Inl e, w')
      | (Inr raw, w') \<Rightarrow>
          (let source = (if json_truthy (obj_get raw ''source'') then json_text P (obj_get raw ''source'')
                         else ''mapgo'');
               reference = (if obj_get raw ''artifact_ref'' = JNull then None
                            else Some (json_text P (obj_get raw ''artifact_ref'')))
           in case (if json_truthy (obj_get raw ''confidence'') then json_float P (obj_get raw ''confidence'')
                    else Some 1) of
                None \<Rightarrow> (Inl (value_failure ''could not convert to float''), w')
              | Some c \<Rightarrow>
                  if c < 0 \<or> 1 < c \<or> (case reference of None \<Rightarrow> False | Some r \<Rightarrow> 128 < cp_length r)
                  then (Inl (validation_failure ''ToolResultEnvelope''), w')
                  else (Inr (envelope_json (tool_result_success raw source None c reference)), w')))"

text \<open>\<open>validate_tool_arguments\<close>: a tool without an argument model takes any arguments.\<close>

definition validate_tool_arguments :: "'w runtime_ports \<Rightarrow> string \<Rightarrow> payload \<Rightarrow> payload option" where
  "validate_tool_arguments P tool args =
     (case dget tool_argument_models tool of None \<Rightarrow> Some args | Some m \<Rightarrow> rt_arguments P m args)"

text \<open>What an iteration does: raise, leave the loop with a status, or go on.\<close>

datatype 'w verdict =
    Crash seen_exception "'w run_state"
  | Stop run_status "'w run_state"
  | Go_on "'w run_state"

definition tool_record ::
  "nat \<Rightarrow> string \<Rightarrow> step_status \<Rightarrow> string option \<Rightarrow> payload \<Rightarrow> payload \<Rightarrow> int option \<Rightarrow> runtime_step" where
  "tool_record i tool status reason args out latency =
     \<lparr>ru_index = i, ru_status = status, ru_reason = reason, ru_tool = Some tool,
      ru_arguments = args, ru_result = out, ru_latency = latency\<rparr>"

definition request_tool :: "'w runtime_ports \<Rightarrow> nat \<Rightarrow> string \<Rightarrow> payload \<Rightarrow> 'w run_state \<Rightarrow> 'w run_state" where
  "request_tool P i tool raw l =
     emit_trace P \<lparr>re_type = ''tool_request'', re_index = Some i,
       re_payload = [(''tool'', JStr tool), (''arguments'', minimize (JObj raw))]\<rparr> l"

definition tool_step ::
  "runtime_settings \<Rightarrow> 'w runtime_ports \<Rightarrow> runtime_request \<Rightarrow> nat \<Rightarrow> string \<Rightarrow> payload
     \<Rightarrow> 'w run_state \<Rightarrow> 'w verdict" where
  "tool_step S P rq i tool raw l0 =
     (let l = request_tool P i tool raw l0;
          (allowed, reason, confirmation) = authorize_tool P (rn_spec rq) tool (rn_state rq)
      in if tool_budget_exceeded S (rn_tool_budget rq) (tool_step_count (ls_steps l))
         then (case new_step (tool_record i tool Step_over_budget (Some ''agent_tool_call_budget'') raw [] None) of
                 Inl e \<Rightarrow> Crash e l
               | Inr s \<Rightarrow> Stop Run_budget_exceeded (add_step s l))
         else if \<not> allowed \<or> confirmation
         then let denial = (if \<not> allowed then reason else ''requires_user_confirmation'')
              in (case new_step (tool_record i tool Step_denied (Some denial) raw [(''reason'', JStr denial)] None) of
                    Inl e \<Rightarrow> Crash e l
                  | Inr s \<Rightarrow> Go_on (report_step P s tool l))
         else (case validate_tool_arguments P tool raw of
                 None \<Rightarrow>
                   (case new_step (tool_record i tool Step_invalid (Some ''invalid_tool_arguments'') raw
                          (envelope_json (tool_result_error ''INVALID_TOOL_ARGUMENTS'' False ''mapgo'' 0
                             (Some [(''tool'', JStr tool)]))) None) of
                      Inl e \<Rightarrow> Crash e l
                    | Inr s \<Rightarrow> Go_on (report_step P s tool l))
               | Some args \<Rightarrow>
                   (case execute_tool P tool args (ls_world l) of (outcome, w) \<Rightarrow>
                      (let lw = l\<lparr>ls_world := w\<rparr>;
                           (status, why, out) = (case outcome of
                               Inr p \<Rightarrow> (Step_succeeded, None, p)
                             | Inl e \<Rightarrow> (Step_failed, Some (stable_tool_error e),
                                 envelope_json (tool_result_error (stable_tool_error e)
                                   (stable_tool_error e = ''UPSTREAM_TIMEOUT'') ''mapgo'' 0 None)))
                       in case new_step (tool_record i tool status why args out (Some (rt_latency P i))) of
                            Inl e \<Rightarrow> Crash e lw
                          | Inr s \<Rightarrow>
                              if status = Step_failed then Stop Run_tool_failed (report_step P s tool lw)
                              else Go_on (report_step P s tool lw)))))"

definition plain_step :: "nat \<Rightarrow> step_status \<Rightarrow> string \<Rightarrow> runtime_step" where
  "plain_step i status reason =
     \<lparr>ru_index = i, ru_status = status, ru_reason = Some reason, ru_tool = None,
      ru_arguments = [], ru_result = [], ru_latency = None\<rparr>"

definition run_step ::
  "runtime_settings \<Rightarrow> 'w runtime_ports \<Rightarrow> runtime_request \<Rightarrow> nat \<Rightarrow> 'w run_state \<Rightarrow> 'w verdict" where
  "run_step S P rq i l0 =
     (case consult P rq i l0 of
        (Inl e, l) \<Rightarrow> Crash e l
      | (Inr d, l1) \<Rightarrow>
          (let l = count_tokens d l1
           in if model_budget_exceeded S (rn_spec rq) (ls_in l) (ls_out l) (run_cost S l)
              then Stop Run_budget_exceeded
                     (add_step (plain_step i Step_over_budget ''agent_token_or_cost_budget'') l)
              else
                let l2 = emit_trace P \<lparr>re_type = ''decision'', re_index = Some i,
                           re_payload =
                             [(''action'', JStr (case dr_decision d of Finish r \<Rightarrow> ''finish'' | _ \<Rightarrow> ''call_tool'')),
                              (''tool'', case dr_decision d of Finish r \<Rightarrow> JNull | Call_tool t a r \<Rightarrow> JStr t),
                              (''reason'', JStr (decision_reason (dr_decision d)))]\<rparr> l
                in (case dr_decision d of
                      Finish r \<Rightarrow>
                        (case new_step (plain_step i Step_finished r) of
                           Inl e \<Rightarrow> Crash e l2
                         | Inr s \<Rightarrow> Stop Run_succeeded (add_step s l2))
                    | Call_tool tool args r \<Rightarrow> tool_step S P rq i tool args l2)))"

text \<open>\<open>for step_index in range(limit)\<close>, with the \<open>else\<close> branch when no iteration broke out.\<close>

fun run_loop ::
  "runtime_settings \<Rightarrow> 'w runtime_ports \<Rightarrow> runtime_request \<Rightarrow> nat \<Rightarrow> nat \<Rightarrow> 'w run_state \<Rightarrow> 'w verdict" where
  "run_loop S P rq 0 i l = Stop Run_step_limit l"
| "run_loop S P rq (Suc n) i l =
     (case run_step S P rq i l of Go_on l' \<Rightarrow> run_loop S P rq n (Suc i) l' | v \<Rightarrow> v)"

section \<open>The run\<close>

definition start_run :: "'w runtime_ports \<Rightarrow> runtime_request \<Rightarrow> 'w \<Rightarrow> 'w run_state" where
  "start_run P rq w =
     emit_trace P \<lparr>re_type = ''input_loaded'', re_index = None,
         re_payload = [(''agent_type'', JStr (agent_value (sp_agent (rn_spec rq)))),
           (''context_view'', JStr (sp_context_view (rn_spec rq))),
           (''input_artifact_type'', JStr (rn_input_type rq))]\<rparr>
       \<lparr>ls_steps = [], ls_history = [], ls_events = [], ls_observation = rn_observation rq,
        ls_in = 0, ls_out = 0, ls_fallback = False, ls_model = ''unknown'',
        ls_in_price = 0, ls_out_price = 0, ls_world = w\<rparr>"

definition run_artifact :: "'w runtime_ports \<Rightarrow> runtime_request \<Rightarrow> run_status \<Rightarrow> runtime_step list \<Rightarrow> artifact_envelope" where
  "run_artifact P rq status steps =
     \<lparr>ae_type = sp_output (rn_spec rq), ae_producer = sp_agent (rn_spec rq),
      ae_payload = [(''status'', JStr (run_status_value status)), (''steps'', JArr (map step_json steps))],
      ae_confidence = (if status = Run_succeeded then 1 else 1 / 2),
      ae_evidence = rn_evidence rq, ae_hash = rt_hash P (rn_observation rq)\<rparr>"

definition validate_artifact :: "'w runtime_ports \<Rightarrow> agent_spec \<Rightarrow> artifact_envelope \<Rightarrow> seen_exception option" where
  "validate_artifact P spec a =
     (if ae_producer a \<noteq> sp_agent spec
      then Some (value_failure ''runtime artifact producer does not match AgentSpec'')
      else if ae_type a \<noteq> sp_output spec
      then Some (value_failure ''runtime artifact type does not match AgentSpec'')
      else rt_validator P a)"

text \<open>The schema of \<open>AgentRuntimeResult\<close>: counts and cost are not negative, the name is short.\<close>

definition result_ok :: "runtime_result \<Rightarrow> bool" where
  "result_ok r \<longleftrightarrow> 0 \<le> rx_input_tokens r \<and> 0 \<le> rx_output_tokens r \<and> 0 \<le> rx_cost r
     \<and> cp_length (rx_model r) \<le> 100"

definition finish_run ::
  "runtime_settings \<Rightarrow> 'w runtime_ports \<Rightarrow> runtime_request \<Rightarrow> run_status \<Rightarrow> 'w run_state
     \<Rightarrow> (seen_exception + runtime_result) \<times> 'w" where
  "finish_run S P rq status l =
     (let artifact = run_artifact P rq status (ls_steps l);
          result = \<lparr>rx_status = status, rx_steps = ls_steps l, rx_artifact = artifact,
             rx_events = ls_events l, rx_input_tokens = ls_in l, rx_output_tokens = ls_out l,
             rx_cost = run_cost S l, rx_model = ls_model l, rx_fallback = ls_fallback l,
             rx_shared_state = None\<rparr>
      in case validate_artifact P (rn_spec rq) artifact of
           Some e \<Rightarrow> (Inl e, ls_world l)
         | None \<Rightarrow>
             if \<not> result_ok result then (Inl (validation_failure ''AgentRuntimeResult''), ls_world l)
             else (case rt_update P result (ls_world l) of
                (Inl e, w) \<Rightarrow> (Inl e, w)
              | (Inr update, w) \<Rightarrow>
                  (let l1 = l\<lparr>ls_world := w\<rparr>;
                       l2 = (case update of None \<Rightarrow> l1
                         | Some p \<Rightarrow> emit_trace P \<lparr>re_type = ''state_updated'', re_index = None, re_payload = p\<rparr> l1);
                       l3 = emit_trace P \<lparr>re_type = ''artifact_emitted'', re_index = None,
                              re_payload = [(''artifact_type'', JStr (ae_type artifact)),
                                (''producer_agent'', JStr (agent_value (ae_producer artifact)))]\<rparr> l2
                   in (Inr (result\<lparr>rx_shared_state := update, rx_events := ls_events l3\<rparr>), ls_world l3))))"

definition execute_agent ::
  "runtime_settings \<Rightarrow> 'w runtime_ports \<Rightarrow> runtime_request \<Rightarrow> 'w
     \<Rightarrow> (seen_exception + runtime_result) \<times> 'w" where
  "execute_agent S P rq w =
     (if rn_input_type rq \<notin> set (sp_inputs (rn_spec rq))
      then (Inl (value_failure (agent_value (sp_agent (rn_spec rq)) @ '' cannot consume '' @ rn_input_type rq)), w)
      else case run_loop S P rq (nat (step_limit S rq)) 0 (start_run P rq w) of
             Crash e l \<Rightarrow> (Inl e, ls_world l)
           | Stop status l \<Rightarrow> finish_run S P rq status l
           | Go_on l \<Rightarrow> finish_run S P rq Run_step_limit l)"

end
