(* ===== verification/Agent_Deciders.thy ===== *)
theory Agent_Deciders
  imports Agent_Runtime Replanning
begin

text \<open>
  Who decides in the loop of \<open>Agent_Runtime\<close>: the cost-aware router of models
  (\<open>services/model_router.py\<close>), the rule-based decider of the companion and the decider that routes
  between rules, a small and a strong model (\<open>services/agent_decider.py\<close>). The two models are
  parameters; the patterns that scan free text are not modelled. Metrics are left out.
\<close>

section \<open>Model routing\<close>

datatype model_tier = Tier_rule | Tier_small | Tier_strong | Tier_deterministic

datatype routing_risk = Risk_none | Risk_low | Risk_medium | Risk_high | Risk_critical

fun tier_value :: "model_tier \<Rightarrow> string" where
  "tier_value Tier_rule = ''rule''"
| "tier_value Tier_small = ''small''"
| "tier_value Tier_strong = ''strong''"
| "tier_value Tier_deterministic = ''deterministic''"

record routing_context =
  rc_agent :: agent_type
  rc_tasks :: int
  rc_hard :: int
  rc_uncertain :: int
  rc_text :: int
  rc_risk :: routing_risk
  rc_structured :: bool
  rc_available :: bool
  rc_budget :: "rat option"
  rc_failures :: int

text \<open>What pydantic accepts as a \<open>ModelRoutingContext\<close>.\<close>

definition routing_context_ok :: "routing_context \<Rightarrow> bool" where
  "routing_context_ok c \<longleftrightarrow>
     rc_tasks c \<in> {0..100} \<and> rc_hard c \<in> {0..100} \<and> rc_uncertain c \<in> {0..100}
   \<and> rc_text c \<in> {0..100000} \<and> rc_failures c \<in> {0..20}
   \<and> (case rc_budget c of None \<Rightarrow> True | Some b \<Rightarrow> 0 \<le> b)"

record route_decision =
  rd_agent :: agent_type
  rd_tier :: model_tier
  rd_model :: "string option"
  rd_score :: int
  rd_risk :: routing_risk
  rd_reasons :: "string list"
  rd_critic :: bool
  rd_hitl :: bool
  rd_fallback :: "model_tier option"
  rd_input_cost :: rat
  rd_output_cost :: rat

definition route_decision_ok :: "route_decision \<Rightarrow> bool" where
  "route_decision_ok d \<longleftrightarrow>
     rd_score d \<in> {0..20} \<and> length (rd_reasons d) \<in> {1..12}
   \<and> (case rd_model d of None \<Rightarrow> True | Some m \<Rightarrow> cp_length m \<le> 100)
   \<and> 0 \<le> rd_input_cost d \<and> 0 \<le> rd_output_cost d"

record router_settings =
  ms_enabled :: bool
  ms_rule_max :: int
  ms_strong_min :: int
  ms_strong_uncertain :: int
  ms_model :: string
  ms_small :: string
  ms_strong :: string
  ms_small_input :: rat
  ms_small_output :: rat
  ms_strong_input :: rat
  ms_strong_output :: rat

definition small_model :: "router_settings \<Rightarrow> string" where
  "small_model S = (if ms_small S = [] then ms_model S else ms_small S)"

definition strong_model :: "router_settings \<Rightarrow> string" where
  "strong_model S = (if ms_strong S = [] then ms_model S else ms_strong S)"

definition elevated :: "routing_risk \<Rightarrow> bool" where
  "elevated r \<longleftrightarrow> r \<in> {Risk_high, Risk_critical}"

definition complexity_score :: "routing_context \<Rightarrow> int" where
  "complexity_score c =
     min 20 (max 0 (rc_tasks c - 1) + min (rc_hard c) 5 + 2 * min (rc_uncertain c) 3
       + (if 300 < rc_text c then 1 else 0) + (if elevated (rc_risk c) then 1 else 0) * 2)"

definition deterministic_roles :: "agent_type list" where
  "deterministic_roles = [Ag_supervisor, Ag_search, Ag_safety, Ag_planner, Ag_replanner]"

definition choose_tier :: "router_settings \<Rightarrow> routing_context \<Rightarrow> model_tier \<times> string" where
  "choose_tier S c =
     (let score = complexity_score c
      in if rc_agent c \<in> set deterministic_roles
         then (Tier_deterministic, ''role_has_deterministic_execution'')
         else if \<not> ms_enabled S
         then (if rc_available c then Tier_small else Tier_rule, ''dynamic_routing_disabled'')
         else if \<not> rc_available c then (Tier_rule, ''model_credentials_unavailable'')
         else if (case rc_budget c of None \<Rightarrow> False | Some b \<Rightarrow> b < 1 / 1000)
         then (Tier_rule, ''model_budget_exhausted'')
         else if 0 < rc_failures c then (Tier_rule, ''model_failure_circuit_fallback'')
         else if rc_agent c = Ag_companion then (Tier_small, ''companion_bounded_small_model'')
         else if rc_agent c = Ag_critic
             \<and> (ms_strong_min S \<le> score \<or> ms_strong_uncertain S \<le> rc_uncertain c \<or> elevated (rc_risk c))
         then (Tier_strong, ''critic_complex_or_high_risk_review'')
         else if score \<le> ms_rule_max S then (Tier_rule, ''simple_request_rule_path'')
         else if ms_strong_min S \<le> score \<or> ms_strong_uncertain S \<le> rc_uncertain c
         then (Tier_strong, ''complex_or_uncertain_request'')
         else (Tier_small, ''bounded_structured_small_model''))"

definition route_model :: "router_settings \<Rightarrow> routing_context \<Rightarrow> route_decision" where
  "route_model S c =
     (case choose_tier S c of (tier, reason) \<Rightarrow>
       \<lparr>rd_agent = rc_agent c, rd_tier = tier,
        rd_model = (if tier = Tier_small then Some (small_model S)
                    else if tier = Tier_strong then Some (strong_model S) else None),
        rd_score = complexity_score c, rd_risk = rc_risk c, rd_reasons = [reason],
        rd_critic = (ms_strong_min S \<le> complexity_score c \<or> 0 < rc_uncertain c \<or> elevated (rc_risk c)),
        rd_hitl = elevated (rc_risk c),
        rd_fallback = (if tier \<in> {Tier_small, Tier_strong} then Some Tier_rule else None),
        rd_input_cost = (if tier = Tier_small then ms_small_input S
                         else if tier = Tier_strong then ms_strong_input S else 0),
        rd_output_cost = (if tier = Tier_small then ms_small_output S
                          else if tier = Tier_strong then ms_strong_output S else 0)\<rparr>)"

section \<open>Routing a plan\<close>

text \<open>\<open>d.get(k) or {}\<close>, used as a dictionary; \<open>len(x)\<close>.\<close>

definition sub_object :: "payload \<Rightarrow> string \<Rightarrow> payload res" where
  "sub_object d k =
     (let v = obj_get d k
      in if \<not> json_truthy v then Inr []
         else case v of JObj kvs \<Rightarrow> Inr kvs | _ \<Rightarrow> Inl AttributeError)"

definition json_len :: "json \<Rightarrow> int res" where
  "json_len v =
     (case v of
        JArr xs \<Rightarrow> Inr (int (length xs))
      | JObj kvs \<Rightarrow> Inr (int (length kvs))
      | JStr s \<Rightarrow> Inr (int (cp_length s))
      | _ \<Rightarrow> Inl TypeError)"

definition first_truthy :: "json list \<Rightarrow> json" where
  "first_truthy vs = (case find json_truthy vs of None \<Rightarrow> JArr [] | Some v \<Rightarrow> v)"

text \<open>\<open>any(int(party.get(key) or 0) for key in ...)\<close>, lazily.\<close>

fun any_count :: "payload \<Rightarrow> string list \<Rightarrow> bool res" where
  "any_count party [] = Inr False"
| "any_count party (k # ks) =
     res_bind (py_int_or0 (obj_get party k)) (\<lambda>n. if n \<noteq> 0 then Inr True else any_count party ks)"

definition routing_context_from_plan :: "payload \<Rightarrow> agent_type \<Rightarrow> bool \<Rightarrow> routing_context res" where
  "routing_context_from_plan plan agent available =
     res_bind (sub_object plan ''intent'') (\<lambda>intent.
     res_bind (sub_object intent ''constraints'') (\<lambda>constraints.
     res_bind (sub_object constraints ''hard'') (\<lambda>hard.
     res_bind (sub_object hard ''party'') (\<lambda>party.
     res_bind (any_count party [''elderly'', ''children'', ''wheelchair_users'']) (\<lambda>sensitive.
     res_bind (json_len (first_truthy [obj_get intent ''tasks'', obj_get plan ''stops''])) (\<lambda>tasks.
     res_bind (json_len (first_truthy [obj_get constraints ''uncertain''])) (\<lambda>uncertain.
       let c = \<lparr>rc_agent = agent, rc_tasks = tasks,
                rc_hard = int (length (filter json_truthy (map snd hard))), rc_uncertain = uncertain,
                rc_text = 0,
                rc_risk = (if obj_get plan ''status'' \<noteq> JStr ''success'' \<or> json_truthy (obj_get plan ''conflicts'')
                             \<or> sensitive then Risk_high else Risk_none),
                rc_structured = True, rc_available = available, rc_budget = None, rc_failures = 0\<rparr>
       in if routing_context_ok c then Inr c else Inl (ValueError ''ModelRoutingContext''))))))))"

section \<open>The rule-based decider of the companion\<close>

definition risk_events :: "string list" where
  "risk_events = [''UserOffRoute'', ''ScheduleDelayDetected'', ''TrafficChanged'', ''DeadlineRiskDetected'',
     ''PoiStatusChanged'', ''WeatherAlertReceived'']"

definition text_of_json :: "(json \<Rightarrow> string) \<Rightarrow> json \<Rightarrow> string" where
  "text_of_json text v = (case v of JStr s \<Rightarrow> s | _ \<Rightarrow> text v)"

definition tool_of_item :: "json \<Rightarrow> json" where
  "tool_of_item item = (case item of JObj kvs \<Rightarrow> obj_get kvs ''tool'' | _ \<Rightarrow> JNull)"

definition event_observation :: "payload \<Rightarrow> payload" where
  "event_observation view =
     (case obj_get view ''current_observation'' of JObj kvs \<Rightarrow> kvs | _ \<Rightarrow> view)"

definition rule_decision :: "(json \<Rightarrow> string) \<Rightarrow> payload \<Rightarrow> json list \<Rightarrow> agent_decision" where
  "rule_decision text view history =
     (let used = map tool_of_item history;
          event = event_observation view;
          event_type = (if json_truthy (obj_get event ''event_type'')
                        then text_of_json text (obj_get event ''event_type'') else []);
          risk = (event_type \<in> set risk_events)
      in if event_type = ''WeatherAlertReceived'' \<and> JStr ''get_weather'' \<notin> set used
         then Call_tool ''get_weather'' [] (utf8 [229, 164, 169, 230, 176, 148, 228, 186, 139, 228, 187, 182, 233, 156, 128, 232, 166, 129,
     229, 133, 136, 232, 175, 187, 229, 143, 150, 229, 174, 158, 230, 151, 182, 233, 153, 141,
     233, 155, 168, 233, 163, 142, 233, 153, 169])
         else if risk \<and> JStr ''get_trip_state'' \<notin> set used
         then Call_tool ''get_trip_state'' [] (utf8 [229, 133, 136, 231, 161, 174, 232, 174, 164, 229, 189, 147, 229, 137, 141, 232, 161, 140,
     231, 168, 139, 231, 138, 182, 230, 128, 129])
         else if risk \<and> json_truthy (obj_get event ''has_precise_location'')
             \<and> JStr ''get_current_location'' \<notin> set used
         then Call_tool ''get_current_location'' [] (utf8 [229, 177, 128, 233, 131, 168, 233, 135, 141, 232, 167, 132, 229, 136, 146, 233, 156, 128,
     232, 166, 129, 230, 156, 128, 230, 150, 176, 228, 189, 141, 231, 189, 174])
         else if risk \<and> JStr ''propose_replan'' \<notin> set used
         then Call_tool ''propose_replan''
                [(''reason'', if json_truthy (obj_get event ''reason'') then obj_get event ''reason''
                             else JStr event_type)]
                (utf8 [233, 163, 142, 233, 153, 169, 228, 186, 139, 228, 187, 182, 233, 156, 128, 232, 166, 129,
     231, 148, 159, 230, 136, 144, 229, 190, 133, 231, 161, 174, 232, 174, 164, 231, 154, 132,
     233, 135, 141, 232, 167, 132, 229, 136, 146, 230, 150, 185, 230, 161, 136])
         else Finish (utf8 [229, 183, 178, 229, 174, 140, 230, 136, 144, 229, 191, 133, 232, 166, 129, 231, 154, 132,
     232, 167, 130, 229, 175, 159, 229, 146, 140, 229, 187, 186, 232, 174, 174]))"

definition rule_decide :: "(json \<Rightarrow> string) \<Rightarrow> 'w decider" where
  "rule_decide text view history tools w =
     (Inr \<lparr>dr_decision = rule_decision text view history, dr_input_tokens = 0, dr_output_tokens = 0,
           dr_model = ''rule-agent-v1'', dr_input_price = 0, dr_output_price = 0\<rparr>, w)"

section \<open>The routed decider\<close>

definition impact_risk :: "string \<Rightarrow> routing_risk" where
  "impact_risk s =
     (if s = ''critical'' then Risk_critical else if s = ''high'' then Risk_high
      else if s = ''medium'' then Risk_medium else if s = ''low'' then Risk_low else Risk_none)"

text \<open>
  The small and the strong model are there together or not at all. \<open>fr\<close> is the text of a float in
  \<open>json.dumps\<close>.
\<close>

definition decider_context ::
  "(json \<Rightarrow> string) \<Rightarrow> (rat \<Rightarrow> string) \<Rightarrow> agent_type \<Rightarrow> bool \<Rightarrow> payload \<Rightarrow> routing_context" where
  "decider_context text fr agent available view =
     (let event = event_observation view;
          impact = str_lower (if json_truthy (obj_get event ''impact_level'')
                              then text_of_json text (obj_get event ''impact_level'') else ''none'')
      in \<lparr>rc_agent = agent, rc_tasks = 1, rc_hard = 0,
          rc_uncertain = (if json_truthy (obj_get event ''event_type'') then 0 else 1)
             + (if obj_get event ''has_precise_location'' = JBool False then 1 else 0),
          rc_text = int (cp_length (dumps fr '', '' '': '' (JObj event))),
          rc_risk = impact_risk impact, rc_structured = True, rc_available = available,
          rc_budget = None, rc_failures = 0\<rparr>)"

definition routed_decide ::
  "router_settings \<Rightarrow> (json \<Rightarrow> string) \<Rightarrow> (rat \<Rightarrow> string) \<Rightarrow> ('w decider \<times> 'w decider) option
     \<Rightarrow> agent_type \<Rightarrow> 'w decider" where
  "routed_decide S text fr models agent view history tools w =
     (let c = decider_context text fr agent (models \<noteq> None) view
      in if \<not> routing_context_ok c then (Inl (validation_failure ''ModelRoutingContext''), w)
         else
           let d = route_model S c;
               (outcome, w') =
                 (case (rd_tier d, models) of
                    (Tier_small, Some (small, strong)) \<Rightarrow> small view history tools w
                  | (Tier_strong, Some (small, strong)) \<Rightarrow> strong view history tools w
                  | _ \<Rightarrow>
                      if agent = Ag_companion then rule_decide text view history tools w
                      else (Inr \<lparr>dr_decision = Finish ''model router selected deterministic execution for this role'',
                                 dr_input_tokens = 0, dr_output_tokens = 0,
                                 dr_model = ''deterministic-router-v1'',
                                 dr_input_price = 0, dr_output_price = 0\<rparr>, w))
           in (case outcome of
                 Inl e \<Rightarrow> (Inl e, w')
               | Inr r \<Rightarrow>
                   (Inr (r\<lparr>dr_model := cp_take 100 (tier_value (rd_tier d) @ '':'' @ dr_model r)\<rparr>), w')))"

end
