(* ===== verification/Agent_Runtime_Properties.thy ===== *)
theory Agent_Runtime_Properties
  imports Agent_Deciders
begin

text \<open>
  The promises of the agent runtime: it ends within its step limit and says how, it executes a tool
  only when the registry, the policy and the argument schema allow it, it stays within the budget of
  tool calls, and it always yields a result when the fallback can answer.
\<close>

named_theorems runtime_simps \<open>projections of the loop state through its updates\<close>

section \<open>One iteration\<close>

lemma emit_trace_simps [simp, runtime_simps]:
  "ls_steps (emit_trace P e l) = ls_steps l"
  "ls_history (emit_trace P e l) = ls_history l"
  "ls_observation (emit_trace P e l) = ls_observation l"
  "ls_in (emit_trace P e l) = ls_in l" "ls_out (emit_trace P e l) = ls_out l"
  "ls_world (emit_trace P e l) = rt_emit P e (ls_world l)"
  "ls_model (emit_trace P e l) = ls_model l"
  "ls_in_price (emit_trace P e l) = ls_in_price l" "ls_out_price (emit_trace P e l) = ls_out_price l"
  by (simp_all add: emit_trace_def)

lemma report_step_simps [simp, runtime_simps]:
  "ls_steps (report_step P s tool l) = ls_steps l @ [s]"
  "ls_history (report_step P s tool l) = ls_history l @ [step_json s]"
  "ls_in (report_step P s tool l) = ls_in l" "ls_out (report_step P s tool l) = ls_out l"
  "ls_model (report_step P s tool l) = ls_model l"
  "ls_in_price (report_step P s tool l) = ls_in_price l" "ls_out_price (report_step P s tool l) = ls_out_price l"
  by (simp_all add: report_step_def add_step_def)

lemma add_step_simps [simp, runtime_simps]:
  "ls_steps (add_step s l) = ls_steps l @ [s]" "ls_history (add_step s l) = ls_history l"
  "ls_world (add_step s l) = ls_world l" "ls_in (add_step s l) = ls_in l" "ls_out (add_step s l) = ls_out l"
  "ls_model (add_step s l) = ls_model l"
  "ls_in_price (add_step s l) = ls_in_price l" "ls_out_price (add_step s l) = ls_out_price l"
  by (simp_all add: add_step_def)

lemma count_tokens_simps [simp, runtime_simps]:
  "ls_steps (count_tokens d l) = ls_steps l" "ls_history (count_tokens d l) = ls_history l"
  "ls_world (count_tokens d l) = ls_world l" "ls_observation (count_tokens d l) = ls_observation l"
  "ls_in (count_tokens d l) = ls_in l + dr_input_tokens d"
  "ls_out (count_tokens d l) = ls_out l + dr_output_tokens d" "ls_model (count_tokens d l) = dr_model d"
  "ls_in_price (count_tokens d l) = dr_input_price d" "ls_out_price (count_tokens d l) = dr_output_price d"
  by (simp_all add: count_tokens_def)

lemma new_step_Inr: "new_step s = Inr s' \<longleftrightarrow> s' = s \<and> (\<forall>r. ru_reason s = Some r \<longrightarrow> cp_length r \<le> 300)
    \<and> (\<forall>t. ru_tool s = Some t \<longrightarrow> cp_length t \<le> 80)"
  by (auto simp: new_step_def not_less split: option.splits if_splits)

lemma consult_keeps: "snd (consult P rq i l) = l' \<Longrightarrow>
    ls_steps l' = ls_steps l \<and> ls_history l' = ls_history l \<and> ls_in l' = ls_in l \<and> ls_out l' = ls_out l"
  by (auto simp: consult_def Let_def split: prod.splits sum.splits)

text \<open>The step an iteration adds, by the way it ends.\<close>

definition ends_with_status :: "run_status \<Rightarrow> step_status \<Rightarrow> bool" where
  "ends_with_status r s \<longleftrightarrow>
     (r = Run_succeeded \<and> s = Step_finished) \<or> (r = Run_budget_exceeded \<and> s = Step_over_budget)
   \<or> (r = Run_tool_failed \<and> s = Step_failed)"

definition goes_on :: "step_status \<Rightarrow> bool" where
  "goes_on s \<longleftrightarrow> s \<in> {Step_denied, Step_invalid, Step_succeeded}"

definition one_more :: "'w run_state \<Rightarrow> 'w run_state \<Rightarrow> nat \<Rightarrow> runtime_step \<Rightarrow> bool" where
  "one_more l l' i s \<longleftrightarrow> ls_steps l' = ls_steps l @ [s] \<and> ru_index s = i"

text \<open>The four ways a tool request goes.\<close>

lemma request_tool_simps [simp, runtime_simps]:
  "ls_steps (request_tool P i tool raw l) = ls_steps l" "ls_history (request_tool P i tool raw l) = ls_history l"
  "ls_in (request_tool P i tool raw l) = ls_in l" "ls_out (request_tool P i tool raw l) = ls_out l"
  "ls_model (request_tool P i tool raw l) = ls_model l"
  "ls_in_price (request_tool P i tool raw l) = ls_in_price l"
  "ls_out_price (request_tool P i tool raw l) = ls_out_price l"
  by (simp_all add: request_tool_def)

lemma tool_record_simps [simp]:
  "ru_index (tool_record i tool st why args out t) = i" "ru_status (tool_record i tool st why args out t) = st"
  "ru_reason (tool_record i tool st why args out t) = why" "ru_tool (tool_record i tool st why args out t) = Some tool"
  "ru_result (tool_record i tool st why args out t) = out"
  by (simp_all add: tool_record_def)

lemma tool_step_cases:
  obtains (over) s where "tool_budget_exceeded S (rn_tool_budget rq) (tool_step_count (ls_steps l))"
      "s = tool_record i tool Step_over_budget (Some ''agent_tool_call_budget'') raw [] None"
      "tool_step S P rq i tool raw l = (case new_step s of Inl e \<Rightarrow> Crash e (request_tool P i tool raw l)
         | Inr s \<Rightarrow> Stop Run_budget_exceeded (add_step s (request_tool P i tool raw l)))"
  | (refused) s where "\<not> tool_budget_exceeded S (rn_tool_budget rq) (tool_step_count (ls_steps l))"
      "(\<exists>why. s = tool_record i tool Step_denied (Some why) raw [(''reason'', JStr why)] None
          \<and> (why = ''requires_user_confirmation'' \<or> why = fst (snd (authorize_tool P (rn_spec rq) tool (rn_state rq)))))
       \<or> s = tool_record i tool Step_invalid (Some ''invalid_tool_arguments'') raw
            (envelope_json (tool_result_error ''INVALID_TOOL_ARGUMENTS'' False ''mapgo'' 0
               (Some [(''tool'', JStr tool)]))) None"
      "tool_step S P rq i tool raw l = (case new_step s of Inl e \<Rightarrow> Crash e (request_tool P i tool raw l)
         | Inr s \<Rightarrow> Go_on (report_step P s tool (request_tool P i tool raw l)))"
  | (performed) args out w s lw where "\<not> tool_budget_exceeded S (rn_tool_budget rq) (tool_step_count (ls_steps l))"
      "\<exists>why. authorize_tool P (rn_spec rq) tool (rn_state rq) = (True, why, False)"
      "validate_tool_arguments P tool raw = Some args"
      "execute_tool P tool args (ls_world (request_tool P i tool raw l)) = (out, w)"
      "lw = (request_tool P i tool raw l)\<lparr>ls_world := w\<rparr>"
      "(\<exists>p. out = Inr p \<and> s = tool_record i tool Step_succeeded None args p (Some (rt_latency P i)))
       \<or> (\<exists>e p. out = Inl e \<and> s = tool_record i tool Step_failed (Some (stable_tool_error e)) args p (Some (rt_latency P i)))"
      "tool_step S P rq i tool raw l = (case new_step s of Inl e \<Rightarrow> Crash e lw
         | Inr s \<Rightarrow> if ru_status s = Step_failed then Stop Run_tool_failed (report_step P s tool lw)
              else Go_on (report_step P s tool lw))"
proof -
  obtain allowed why confirm where a: "authorize_tool P (rn_spec rq) tool (rn_state rq) = (allowed, why, confirm)"
    by (metis prod_cases3)
  show thesis
  proof (cases "tool_budget_exceeded S (rn_tool_budget rq) (tool_step_count (ls_steps l))")
    case True
    then show ?thesis by (intro over [OF _ refl]) (simp_all add: tool_step_def Let_def a)
  next
    case within: False
    show ?thesis
    proof (cases "allowed \<and> \<not> confirm")
      case False
      let ?why = "if \<not> allowed then why else ''requires_user_confirmation''"
      let ?s = "tool_record i tool Step_denied (Some ?why) raw [(''reason'', JStr ?why)] None"
      show ?thesis
        by (rule refused [of ?s]) (use within False in \<open>auto simp: tool_step_def Let_def a\<close>)
    next
      case allowed: True
      show ?thesis
      proof (cases "validate_tool_arguments P tool raw")
        case None
        show ?thesis
          by (rule refused [OF within disjI2 [OF refl]])
             (use within allowed None in \<open>simp add: tool_step_def Let_def a\<close>)
      next
        case (Some args)
        obtain out w where x: "execute_tool P tool args (ls_world (request_tool P i tool raw l)) = (out, w)"
          by fastforce
        show ?thesis
        proof (cases out)
          case (Inl e)
          show ?thesis
            by (rule performed [OF within _ Some x refl disjI2])
               (use within allowed Some x Inl in \<open>auto simp: tool_step_def Let_def a new_step_def split: if_splits\<close>)
        next
          case (Inr p)
          show ?thesis
            by (rule performed [OF within _ Some x refl disjI1])
               (use within allowed Some x Inr in \<open>auto simp: tool_step_def Let_def a new_step_def split: if_splits\<close>)
        qed
      qed
    qed
  qed
qed

lemma new_step_index: "new_step s = Inr s' \<Longrightarrow> ru_index s' = ru_index s \<and> ru_status s' = ru_status s \<and> ru_tool s' = ru_tool s"
  by (simp add: new_step_Inr)

lemma tool_step_adds:
  "tool_step S P rq i tool raw l = Stop r l' \<Longrightarrow> \<exists>s. one_more l l' i s \<and> ends_with_status r (ru_status s)"
  "tool_step S P rq i tool raw l = Go_on l' \<Longrightarrow> \<exists>s. one_more l l' i s \<and> goes_on (ru_status s)
     \<and> ru_tool s = Some tool \<and> ls_history l' = ls_history l @ [step_json s]"
  by (cases rule: tool_step_cases [of S rq l i tool raw P];
      auto simp: one_more_def ends_with_status_def goes_on_def new_step_Inr split: sum.splits if_splits)+

lemma run_step_adds:
  "run_step S P rq i l = Stop r l' \<Longrightarrow> \<exists>s. one_more l l' i s \<and> ends_with_status r (ru_status s)"
  "run_step S P rq i l = Go_on l' \<Longrightarrow> \<exists>s. one_more l l' i s \<and> goes_on (ru_status s)"
proof -
  obtain r1 l1 where c: "consult P rq i l = (r1, l1)" by (cases "consult P rq i l")
  have steps: "ls_steps l1 = ls_steps l" using consult_keeps [of P rq i l l1] c by simp
  have *: "one_more l1 l' i s \<Longrightarrow> one_more l l' i s" for s using steps by (simp add: one_more_def)
  {
    assume "run_step S P rq i l = Stop r l'"
    then show "\<exists>s. one_more l l' i s \<and> ends_with_status r (ru_status s)"
      using steps tool_step_adds(1)
      by (force simp: run_step_def c Let_def one_more_def ends_with_status_def plain_step_def new_step_Inr
          split: sum.splits if_splits agent_decision.splits)
  next
    assume "run_step S P rq i l = Go_on l'"
    then show "\<exists>s. one_more l l' i s \<and> goes_on (ru_status s)"
      using steps tool_step_adds(2) [of S P rq i _ _ _ l']
      by (force simp: run_step_def c Let_def one_more_def split: sum.splits if_splits agent_decision.splits)
  }
qed

section \<open>The loop\<close>

lemma run_loop_stops:
  assumes "run_loop S P rq n i l = Stop r l'" and "map ru_index (ls_steps l) = [0..<i]"
    and "list_all (\<lambda>s. goes_on (ru_status s)) (ls_steps l)"
  shows "map ru_index (ls_steps l') = [0..<length (ls_steps l')] \<and> length (ls_steps l') \<le> i + n
    \<and> (if r = Run_step_limit then length (ls_steps l') = i + n \<and> list_all (\<lambda>s. goes_on (ru_status s)) (ls_steps l')
       else ls_steps l' \<noteq> [] \<and> list_all (\<lambda>s. goes_on (ru_status s)) (butlast (ls_steps l'))
         \<and> ends_with_status r (ru_status (last (ls_steps l'))))"
  using assms
proof (induction n arbitrary: i l)
  case 0
  then have "l' = l" "r = Run_step_limit" by simp_all
  moreover have "length (ls_steps l) = i" using "0.prems"(2) by (metis diff_zero length_map length_upt)
  ultimately show ?case using "0.prems" by simp
next
  case (Suc n)
  have len: "length (ls_steps l) = i" using Suc.prems(2) by (metis diff_zero length_map length_upt)
  show ?case
  proof (cases "run_step S P rq i l")
    case (Crash e k)
    with Suc.prems(1) show ?thesis by simp
  next
    case (Stop q k)
    with Suc.prems(1) have same: "q = r" "k = l'" by simp_all
    obtain s where s: "one_more l l' i s" "ends_with_status r (ru_status s)"
      using run_step_adds(1) Stop same by blast
    then have "r \<noteq> Run_step_limit" by (auto simp: ends_with_status_def)
    with s Suc.prems len show ?thesis by (simp add: one_more_def)
  next
    case (Go_on k)
    obtain s where s: "one_more l k i s" "goes_on (ru_status s)"
      using run_step_adds(2) [OF Go_on] by blast
    have "run_loop S P rq n (Suc i) k = Stop r l'" using Suc.prems(1) Go_on by simp
    moreover have "map ru_index (ls_steps k) = [0..<Suc i]" "list_all (\<lambda>s. goes_on (ru_status s)) (ls_steps k)"
      using s Suc.prems(2,3) by (simp_all add: one_more_def)
    ultimately show ?thesis using Suc.IH by fastforce
  qed
qed

lemma run_loop_no_Go_on: "run_loop S P rq n i l \<noteq> Go_on k"
  by (induction n arbitrary: i l) (auto split: verdict.splits)

lemma execute_agent_Inr:
  assumes "execute_agent S P rq w = (Inr r, w')"
  obtains status l where
    "run_loop S P rq (nat (step_limit S rq)) 0 (start_run P rq w) = Stop status l"
    "rx_status r = status" "rx_steps r = ls_steps l" "finish_run S P rq status l = (Inr r, w')"
    "rx_input_tokens r = ls_in l" "rx_output_tokens r = ls_out l" "rx_cost r = run_cost S l"
proof (cases "run_loop S P rq (nat (step_limit S rq)) 0 (start_run P rq w)")
  case (Crash e l)
  with assms show ?thesis by (simp add: execute_agent_def split: if_splits)
next
  case (Stop status l)
  with assms have f: "finish_run S P rq status l = (Inr r, w')"
    by (simp add: execute_agent_def split: if_splits)
  then have "rx_status r = status \<and> rx_steps r = ls_steps l \<and> rx_input_tokens r = ls_in l
     \<and> rx_output_tokens r = ls_out l \<and> rx_cost r = run_cost S l"
    by (auto simp: finish_run_def Let_def split: option.splits if_splits prod.splits sum.splits)
  with that Stop f show ?thesis by blast
next
  case (Go_on l)
  then show ?thesis by (simp add: run_loop_no_Go_on)
qed

lemma start_run_simps [simp]: "ls_steps (start_run P rq w) = []" "ls_history (start_run P rq w) = []"
  by (simp_all add: start_run_def)

text \<open>
  C10: The runtime is bounded and its status is exact: a run has at most as many steps as the least
  of the request's, the settings' and the specification's limit, numbered from 0; every step but the
  last was a denial, an invalid call or a success; and the status says how the last step ended, or
  that the limit was reached.
\<close>

theorem run_is_bounded:
  assumes "execute_agent S P rq w = (Inr r, w')"
  shows "map ru_index (rx_steps r) = [0..<length (rx_steps r)]
    \<and> int (length (rx_steps r)) \<le> max 0 (step_limit S rq)
    \<and> (if rx_status r = Run_step_limit
       then int (length (rx_steps r)) = max 0 (step_limit S rq) \<and> list_all (\<lambda>s. goes_on (ru_status s)) (rx_steps r)
       else rx_steps r \<noteq> [] \<and> list_all (\<lambda>s. goes_on (ru_status s)) (butlast (rx_steps r))
         \<and> ends_with_status (rx_status r) (ru_status (last (rx_steps r))))"
proof -
  obtain status l where l: "run_loop S P rq (nat (step_limit S rq)) 0 (start_run P rq w) = Stop status l"
    and r: "rx_status r = status" "rx_steps r = ls_steps l"
    using execute_agent_Inr [OF assms] by metis
  note ends = run_loop_stops [OF l]
  then have "length (ls_steps l) \<le> nat (step_limit S rq)" by simp
  then have "int (length (ls_steps l)) \<le> max 0 (step_limit S rq)" by linarith
  moreover have "status = Run_step_limit \<Longrightarrow> int (length (ls_steps l)) = max 0 (step_limit S rq)"
    using ends by simp
  ultimately show ?thesis using ends unfolding r by simp
qed

section \<open>What is executed\<close>

definition permitted_call :: "'w runtime_ports \<Rightarrow> runtime_request \<Rightarrow> string \<Rightarrow> payload \<Rightarrow> bool" where
  "permitted_call P rq tool args \<longleftrightarrow>
     (\<exists>c. c \<in> set capabilities \<and> cap_name c = tool \<and> sp_agent (rn_spec rq) \<in> cap_agents c
        \<and> cap_mode c = Agent_callable)
   \<and> (\<exists>why. rt_policy P tool (rn_state rq) = (True, why, False))
   \<and> (\<exists>raw. validate_tool_arguments P tool raw = Some args)"

lemma authorize_tool_True:
  assumes "authorize_tool P spec tool state = (True, why, False)"
  shows "(\<exists>c. c \<in> set capabilities \<and> cap_name c = tool \<and> sp_agent spec \<in> cap_agents c \<and> cap_mode c = Agent_callable)
    \<and> rt_policy P tool state = (True, why, False)"
proof -
  let ?scopes = "case dget tool_registry tool of None \<Rightarrow> {} | Some c \<Rightarrow> cap_scopes c"
  obtain g where g: "authorize (\<lambda>_. ()) tool_registry (sp_agent spec) tool Agent_callable ?scopes = Inr g"
    and p: "rt_policy P tool state = (True, why, False)"
    using assms by (auto simp: authorize_tool_def Let_def split: sum.splits)
  from g obtain c where "dget tool_registry tool = Some c" "sp_agent spec \<in> cap_agents c" "cap_mode c = Agent_callable"
    by (auto simp: authorize_def split: option.splits if_splits)
  with registry_entries p show ?thesis by blast
qed

lemmas case_congs = sum.case_cong option.case_cong prod.case_cong if_cong

lemma new_executor_simps [simp]:
  "rt_policy (P\<lparr>rt_execute := ex\<rparr>) = rt_policy P"
  "emit_trace (P\<lparr>rt_execute := ex\<rparr>) = emit_trace P"
  "request_tool (P\<lparr>rt_execute := ex\<rparr>) = request_tool P"
  "report_step (P\<lparr>rt_execute := ex\<rparr>) = report_step P"
  "consult (P\<lparr>rt_execute := ex\<rparr>) = consult P"
  "authorize_tool (P\<lparr>rt_execute := ex\<rparr>) = authorize_tool P"
  "validate_tool_arguments (P\<lparr>rt_execute := ex\<rparr>) = validate_tool_arguments P"
  "start_run (P\<lparr>rt_execute := ex\<rparr>) = start_run P"
  "finish_run S (P\<lparr>rt_execute := ex\<rparr>) = finish_run S P"
  by (simp_all add: fun_eq_iff emit_trace_def request_tool_def report_step_def consult_def authorize_tool_def
      validate_tool_arguments_def start_run_def finish_run_def run_artifact_def validate_artifact_def Let_def
      cong: case_congs)

lemma execute_tool_cong:
  assumes "rt_execute P tool args w = ex tool args w"
  shows "execute_tool (P\<lparr>rt_execute := ex\<rparr>) tool args w = execute_tool P tool args w"
proof -
  have "json_text (P\<lparr>rt_execute := ex\<rparr>) = json_text P" "json_float (P\<lparr>rt_execute := ex\<rparr>) = json_float P"
    by (simp_all add: fun_eq_iff json_text_def json_float_def split: json.split)
  with assms show ?thesis by (simp add: execute_tool_def cong: case_congs)
qed

lemma tool_step_cong:
  assumes "\<And>tool args w. permitted_call P rq tool args \<Longrightarrow> rt_execute P tool args w = ex tool args w"
  shows "tool_step S (P\<lparr>rt_execute := ex\<rparr>) rq i tool raw l = tool_step S P rq i tool raw l"
proof -
  obtain allowed why confirm where a: "authorize_tool P (rn_spec rq) tool (rn_state rq) = (allowed, why, confirm)"
    by (metis prod_cases3)
  show ?thesis
  proof (cases "allowed \<and> \<not> confirm")
    case False
    then show ?thesis by (simp add: tool_step_def Let_def a cong: case_congs)
  next
    case True
    show ?thesis
    proof (cases "validate_tool_arguments P tool raw")
      case None
      then show ?thesis by (simp add: tool_step_def Let_def a cong: case_congs)
    next
      case (Some args)
      then have "permitted_call P rq tool args"
        using authorize_tool_True [of P "rn_spec rq" tool "rn_state rq" why] a True
        by (auto simp: permitted_call_def)
      then have "execute_tool (P\<lparr>rt_execute := ex\<rparr>) tool args w = execute_tool P tool args w" for w
        by (rule execute_tool_cong [OF assms])
      then show ?thesis using Some by (simp add: tool_step_def Let_def a cong: case_congs)
    qed
  qed
qed

lemma run_loop_cong:
  assumes "\<And>tool args w. permitted_call P rq tool args \<Longrightarrow> rt_execute P tool args w = ex tool args w"
  shows "run_loop S (P\<lparr>rt_execute := ex\<rparr>) rq n i l = run_loop S P rq n i l"
proof (induction n arbitrary: i l)
  case (Suc n)
  have "run_step S (P\<lparr>rt_execute := ex\<rparr>) rq i l = run_step S P rq i l"
    by (simp add: run_step_def Let_def tool_step_cong [OF assms] cong: case_congs agent_decision.case_cong)
  with Suc show ?case by (simp cong: verdict.case_cong)
qed simp

text \<open>
  C7: The runtime confines its agent: whatever the model answers, a tool is executed only if the
  registry gives it to this kind of agent for model calls, the state policy allows it without
  confirmation, and its arguments went through the tool's schema. That is: two executors that agree
  on those calls cannot be told apart, so no other call ever reaches an executor.
\<close>

theorem executor_confined:
  assumes "\<forall>tool args w. permitted_call P rq tool args \<longrightarrow> rt_execute P tool args w = ex tool args w"
  shows "execute_agent S (P\<lparr>rt_execute := ex\<rparr>) rq w = execute_agent S P rq w"
proof -
  have "run_loop S (P\<lparr>rt_execute := ex\<rparr>) rq n i l = run_loop S P rq n i l" for n i l
    by (rule run_loop_cong) (use assms in blast)
  then show ?thesis by (simp add: execute_agent_def cong: verdict.case_cong)
qed

section \<open>How often\<close>

text \<open>
  \<open>counts\<close> measures how often the tools were run: an execution adds at most one, everything else the
  runtime calls adds nothing.
\<close>

definition counts :: "('w \<Rightarrow> nat) \<Rightarrow> 'w runtime_ports \<Rightarrow> bool" where
  "counts c P \<longleftrightarrow>
     (\<forall>tool args w. c (snd (rt_execute P tool args w)) \<le> Suc (c w))
   \<and> (\<forall>e w. c (rt_emit P e w) = c w)
   \<and> (\<forall>v h t w. c (snd (rt_decide P v h t w)) = c w \<and> c (snd (rt_fallback P v h t w)) = c w)
   \<and> (\<forall>r w. c (snd (rt_update P r w)) = c w)"

definition call_allowance :: "runtime_settings \<Rightarrow> tool_budget \<Rightarrow> int" where
  "call_allowance S b =
     min (min (st_calls_per_run S - tb_run b) (st_calls_per_task S - tb_task b)) (st_calls_per_trip S - tb_scope b)"

lemma tool_budget_allowance: "tool_budget_exceeded S b n \<longleftrightarrow> call_allowance S b \<le> n"
  by (auto simp: tool_budget_exceeded_def call_allowance_def)

lemma tool_step_count_snoc:
  "tool_step_count (steps @ [s]) = tool_step_count steps + (if ru_tool s \<noteq> None \<and> ru_tool s \<noteq> Some [] then 1 else 0)"
  by (simp add: tool_step_count_def)

lemma execute_tool_world: "snd (execute_tool P tool args w) = snd (rt_execute P tool args w)"
  by (auto simp: execute_tool_def Let_def split: prod.splits sum.splits option.splits)

lemma counts_simps:
  assumes "counts c P"
  shows "c (rt_emit P e w) = c w" "c (snd (execute_tool P tool args w)) \<le> Suc (c w)"
    "c (ls_world (emit_trace P e l)) = c (ls_world l)" "c (ls_world (request_tool P i tool raw l)) = c (ls_world l)" "c (ls_world (report_step P s tool l)) = c (ls_world l)"
    "c (snd (rt_update P r w)) = c w"
  using assms by (simp_all add: counts_def execute_tool_world report_step_def add_step_def request_tool_def)

lemma consult_counts:
  assumes "counts c P" and "consult P rq i l = (r, l')"
  shows "c (ls_world l') = c (ls_world l)"
proof -
  note d = assms(1) [unfolded counts_def]
  show ?thesis
    using assms(2) d
    by (auto simp: consult_def Let_def split: prod.splits sum.splits) (metis snd_conv)+
qed

text \<open>An iteration runs a tool only while calls are left, and records the call.\<close>

definition verdict_state :: "'w verdict \<Rightarrow> 'w run_state" where
  "verdict_state v = (case v of Crash e l \<Rightarrow> l | Stop r l \<Rightarrow> l | Go_on l \<Rightarrow> l)"

definition calls_left :: "runtime_settings \<Rightarrow> runtime_request \<Rightarrow> 'w run_state \<Rightarrow> int" where
  "calls_left S rq l = max 0 (call_allowance S (rn_tool_budget rq) - tool_step_count (ls_steps l))"

lemma registered_not_empty: "c \<in> set capabilities \<Longrightarrow> cap_name c \<noteq> []"
  by (auto simp: capabilities_def read_only_def)

lemma tool_step_calls:
  assumes "counts c P"
  shows "int (c (ls_world (verdict_state (tool_step S P rq i tool raw l))))
      \<le> int (c (ls_world l)) + (if tool_budget_exceeded S (rn_tool_budget rq) (tool_step_count (ls_steps l)) then 0 else 1)"
      (is ?first)
    and "tool_step S P rq i tool raw l = Go_on l' \<Longrightarrow>
      int (c (ls_world l')) + calls_left S rq l' \<le> int (c (ls_world l)) + calls_left S rq l"
proof -
  note simps = counts_simps [OF assms]
  have once: ?first
  proof (cases rule: tool_step_cases [of S rq l i tool raw P])
    case (performed args out w s lw)
    then have "c w \<le> Suc (c (ls_world l))"
      using simps(2) [of tool args "ls_world (request_tool P i tool raw l)"] simps(4) by simp
    with performed simps show ?thesis by (auto simp: verdict_state_def split: sum.splits)
  qed (auto simp: verdict_state_def simps split: sum.splits)
  then show ?first .
  have none: "c (ls_world (verdict_state (tool_step S P rq i [] raw l))) = c (ls_world l)"
  proof (cases rule: tool_step_cases [of S rq l i "[]" raw P])
    case (performed args out w s lw)
    then show ?thesis
      using authorize_tool_True [of P "rn_spec rq" "[]" "rn_state rq"] registered_not_empty by blast
  qed (auto simp: verdict_state_def simps split: sum.splits)
  assume go: "tool_step S P rq i tool raw l = Go_on l'"
  have left: "\<not> tool_budget_exceeded S (rn_tool_budget rq) (tool_step_count (ls_steps l))"
    using go by (cases rule: tool_step_cases [of S rq l i tool raw P]) (auto split: sum.splits)
  obtain s where s: "ls_steps l' = ls_steps l @ [s]" "ru_tool s = Some tool"
    using tool_step_adds(2) [OF go] by (auto simp: one_more_def)
  have "int (c (ls_world l')) \<le> int (c (ls_world l)) + 1"
    using once left by (simp add: go verdict_state_def)
  moreover have "tool = [] \<Longrightarrow> c (ls_world l') = c (ls_world l)"
    using none go by (simp add: verdict_state_def)
  ultimately show "int (c (ls_world l')) + calls_left S rq l' \<le> int (c (ls_world l)) + calls_left S rq l"
    using left s by (simp add: calls_left_def tool_step_count_snoc tool_budget_allowance)
qed

lemma run_step_cases:
  assumes "counts c P"
  obtains (quiet) "c (ls_world (verdict_state (run_step S P rq i l))) = c (ls_world l)"
      "\<And>k. run_step S P rq i l \<noteq> Go_on k"
  | (tool) tool raw k where "run_step S P rq i l = tool_step S P rq i tool raw k" "ls_steps k = ls_steps l"
      "c (ls_world k) = c (ls_world l)"
proof -
  obtain r1 l1 where con: "consult P rq i l = (r1, l1)" by (cases "consult P rq i l")
  have same: "c (ls_world l1) = c (ls_world l)" "ls_steps l1 = ls_steps l"
    using consult_counts [OF assms con] consult_keeps [of P rq i l l1] con by simp_all
  note simps = counts_simps [OF assms] same
  show thesis
  proof (cases r1)
    case (Inl e)
    then show ?thesis using same by (intro quiet) (simp_all add: run_step_def con verdict_state_def)
  next
    case (Inr d)
    let ?l = "count_tokens d l1"
    show ?thesis
    proof (cases "model_budget_exceeded S (rn_spec rq) (ls_in ?l) (ls_out ?l) (run_cost S ?l)")
      case True
      with Inr same show ?thesis by (intro quiet) (simp_all add: run_step_def con Let_def verdict_state_def)
    next
      case False
      show ?thesis
      proof (cases "dr_decision d")
        case (Finish r)
        with Inr False show ?thesis
          by (intro quiet)
             (simp_all add: run_step_def con Let_def verdict_state_def simps split: sum.splits)
      next
        case (Call_tool t a r)
        with Inr False have "run_step S P rq i l = tool_step S P rq i t a
            (emit_trace P \<lparr>re_type = ''decision'', re_index = Some i,
                re_payload = [(''action'', JStr ''call_tool''), (''tool'', JStr t), (''reason'', JStr r)]\<rparr> ?l)"
          by (simp add: run_step_def con Let_def)
        then show ?thesis by (rule tool) (simp_all add: simps)
      qed
    qed
  qed
qed

lemma run_step_calls:
  assumes "counts c P"
  shows "int (c (ls_world (verdict_state (run_step S P rq i l)))) \<le> int (c (ls_world l)) + calls_left S rq l"
    and "run_step S P rq i l = Go_on l' \<Longrightarrow>
      int (c (ls_world l')) + calls_left S rq l' \<le> int (c (ls_world l)) + calls_left S rq l"
proof -
  have one: "(if tool_budget_exceeded S (rn_tool_budget rq) (tool_step_count (ls_steps l)) then 0 else 1) \<le> calls_left S rq l"
    by (simp add: calls_left_def tool_budget_allowance)
  show "int (c (ls_world (verdict_state (run_step S P rq i l)))) \<le> int (c (ls_world l)) + calls_left S rq l"
    using assms
  proof (cases rule: run_step_cases [where S = S and rq = rq and i = i and l = l])
    case quiet
    then show ?thesis by (simp add: calls_left_def)
  next
    case (tool t raw k)
    with tool_step_calls(1) [OF assms, of S rq i t raw k] one show ?thesis by simp
  qed
  assume go: "run_step S P rq i l = Go_on l'"
  show "int (c (ls_world l')) + calls_left S rq l' \<le> int (c (ls_world l)) + calls_left S rq l"
    using assms
  proof (cases rule: run_step_cases [where S = S and rq = rq and i = i and l = l])
    case quiet
    with go show ?thesis by simp
  next
    case (tool t raw k)
    with tool_step_calls(2) [OF assms, of S rq i t raw k l'] go show ?thesis by (simp add: calls_left_def)
  qed
qed

lemma run_loop_calls:
  assumes "counts c P"
  shows "int (c (ls_world (verdict_state (run_loop S P rq n i l)))) \<le> int (c (ls_world l)) + calls_left S rq l"
proof (induction n arbitrary: i l)
  case 0
  then show ?case by (simp add: verdict_state_def calls_left_def)
next
  case (Suc n)
  show ?case
  proof (cases "run_step S P rq i l")
    case (Go_on k)
    with Suc [of "Suc i" k] run_step_calls(2) [OF assms Go_on] show ?thesis by simp
  qed (use run_step_calls(1) [OF assms, of S rq i l] in \<open>simp_all add: verdict_state_def\<close>)
qed

lemma finish_run_counts: "counts c P \<Longrightarrow> c (snd (finish_run S P rq status l)) = c (ls_world l)"
  using counts_simps [of c P]
  by (auto simp: finish_run_def Let_def split: option.splits prod.splits sum.splits) (metis snd_conv)+

text \<open>
  A run, whether it ends with a result or an exception, executes at most as many tools as the
  budgets leave: the least of what remains for the run, the task and the trip, and none when
  nothing is left.
\<close>

theorem tool_calls_within_budget:
  assumes "counts c P"
  shows "int (c (snd (execute_agent S P rq w))) \<le> int (c w) + max 0 (call_allowance S (rn_tool_budget rq))"
proof (cases "rn_input_type rq \<in> set (sp_inputs (rn_spec rq))")
  case False
  then show ?thesis by (simp add: execute_agent_def)
next
  case True
  let ?v = "run_loop S P rq (nat (step_limit S rq)) 0 (start_run P rq w)"
  have start: "c (ls_world (start_run P rq w)) = c w"
    using counts_simps [OF assms] by (simp add: start_run_def)
  have "c (snd (execute_agent S P rq w)) = c (ls_world (verdict_state ?v))"
    using True finish_run_counts [OF assms]
    by (cases ?v) (simp_all add: execute_agent_def verdict_state_def)
  with run_loop_calls [OF assms, of S rq "nat (step_limit S rq)" 0 "start_run P rq w"] start
  show ?thesis by (simp add: calls_left_def tool_step_count_def)
qed

section \<open>Always a result\<close>

definition decision_fits :: "decision_result \<Rightarrow> bool" where
  "decision_fits d \<longleftrightarrow> 0 \<le> dr_input_tokens d \<and> 0 \<le> dr_output_tokens d \<and> 0 \<le> dr_input_price d
     \<and> 0 \<le> dr_output_price d \<and> cp_length (dr_model d) \<le> 100
     \<and> cp_length (decision_reason (dr_decision d)) \<le> 300
     \<and> (case dr_decision d of Finish r \<Rightarrow> True | Call_tool t a r \<Rightarrow> cp_length t \<le> 80)"

text \<open>The model may raise at any time; whoever answers, answers within the limits of the schemas.\<close>

definition ports_fit :: "'w runtime_ports \<Rightarrow> bool" where
  "ports_fit P \<longleftrightarrow>
     (\<forall>v h t w d w'. rt_decide P v h t w = (Inr d, w') \<longrightarrow> decision_fits d)
   \<and> (\<forall>v h t w. \<exists>d w'. rt_fallback P v h t w = (Inr d, w') \<and> decision_fits d)
   \<and> (\<forall>tool state. cp_length (fst (snd (rt_policy P tool state))) \<le> 300)
   \<and> (\<forall>a. rt_validator P a = None) \<and> (\<forall>r w. \<exists>u w'. rt_update P r w = (Inr u, w'))"

definition totals_ok :: "'w run_state \<Rightarrow> bool" where
  "totals_ok l \<longleftrightarrow> 0 \<le> ls_in l \<and> 0 \<le> ls_out l \<and> 0 \<le> ls_in_price l \<and> 0 \<le> ls_out_price l
     \<and> cp_length (ls_model l) \<le> 100"

lemma consult_fits:
  assumes "ports_fit P" and "consult P rq i l = (r, l')"
  obtains d where "r = Inr d" "decision_fits d" "ls_in l' = ls_in l" "ls_out l' = ls_out l"
proof (cases "rt_decide P (rt_context P rq (ls_observation l) (ls_history l)) (ls_history l)
      (sort (remdups (sp_allowed_tools (rn_spec rq)))) (ls_world l)")
  case (Pair o1 w1)
  show ?thesis
  proof (cases o1)
    case (Inr d)
    with assms Pair have "decision_fits d" unfolding ports_fit_def by blast
    with assms(2) Pair Inr show ?thesis by (intro that [of d]) (auto simp: consult_def Let_def)
  next
    case (Inl e)
    let ?l1 = "emit_trace P \<lparr>re_type = ''model_fallback'', re_index = Some i,
                         re_payload = [(''error_code'', JStr (stable_tool_error e))]\<rparr>
                         (l\<lparr>ls_world := w1, ls_fallback := True\<rparr>)"
    obtain d w2 where "rt_fallback P (rt_context P rq (ls_observation l) (ls_history l)) (ls_history l)
      (sort (remdups (sp_allowed_tools (rn_spec rq)))) (ls_world ?l1) = (Inr d, w2)" "decision_fits d"
      using assms(1) unfolding ports_fit_def by blast
    with assms(2) Pair Inl show ?thesis by (intro that [of d]) (auto simp: consult_def Let_def)
  qed
qed

lemma denial_short: "cp_length (denial_reason d) \<le> 300"
  by (cases d) (simp_all add: cp_length_def is_cont_def)

lemma error_code_known: "stable_tool_error e \<in> {''UPSTREAM_TIMEOUT'', ''QUOTA_EXHAUSTED'', ''DATA_EXPIRED'',
    ''INVALID_TOOL_ARGUMENTS'', ''UPSTREAM_ERROR''}"
  unfolding stable_tool_error_def Let_def by (simp split del: if_split split: if_split)

lemma error_code_short: "\<not> 300 < cp_length (stable_tool_error e)"
proof -
  have "list_all (\<lambda>s. \<not> 300 < cp_length s) [''UPSTREAM_TIMEOUT'', ''QUOTA_EXHAUSTED'', ''DATA_EXPIRED'',
      ''INVALID_TOOL_ARGUMENTS'', ''UPSTREAM_ERROR'']"
    by (simp add: cp_length_def is_cont_def)
  with error_code_known [of e] show ?thesis by (auto simp: list_all_iff)
qed

lemma literal_reasons_short:
  "cp_length ''agent_tool_call_budget'' \<le> 300" "cp_length ''requires_user_confirmation'' \<le> 300"
  "cp_length ''invalid_tool_arguments'' \<le> 300" "cp_length ''agent_token_or_cost_budget'' \<le> 300"
  by (simp_all add: cp_length_def is_cont_def)

lemma authorize_reason_short:
  assumes "ports_fit P" and "authorize_tool P spec tool state = (a, why, b)"
  shows "cp_length why \<le> 300"
proof -
  have "cp_length (fst (snd (rt_policy P tool state))) \<le> 300" using assms(1) by (simp add: ports_fit_def)
  with assms(2) denial_short show ?thesis by (auto simp: authorize_tool_def Let_def split: sum.splits)
qed

lemma new_step_fits: "case ru_reason s of None \<Rightarrow> True | Some r \<Rightarrow> cp_length r \<le> 300 \<Longrightarrow>
    case ru_tool s of None \<Rightarrow> True | Some t \<Rightarrow> cp_length t \<le> 80 \<Longrightarrow> new_step s = Inr s"
  by (auto simp: new_step_def split: option.splits)

lemma tool_step_total:
  assumes "ports_fit P" and "cp_length tool \<le> 80"
  shows "\<exists>l'. (tool_step S P rq i tool raw l = Go_on l' \<or> (\<exists>r. tool_step S P rq i tool raw l = Stop r l'))
    \<and> ls_in l' = ls_in l \<and> ls_out l' = ls_out l \<and> ls_model l' = ls_model l
    \<and> ls_in_price l' = ls_in_price l \<and> ls_out_price l' = ls_out_price l"
proof (cases rule: tool_step_cases [of S rq l i tool raw P])
  case (over s)
  then have "new_step s = Inr s" using assms(2) literal_reasons_short by (intro new_step_fits) simp_all
  with over show ?thesis by simp
next
  case (refused s)
  have "cp_length (fst (snd (authorize_tool P (rn_spec rq) tool (rn_state rq)))) \<le> 300"
    using authorize_reason_short [OF assms(1)] by (metis prod.collapse)
  with refused have "new_step s = Inr s" using assms(2) literal_reasons_short by (intro new_step_fits) auto
  with refused show ?thesis by simp
next
  case (performed args out w s lw)
  then have "new_step s = Inr s"
    using assms(2) error_code_short by (intro new_step_fits) (auto simp: not_less)
  with performed show ?thesis by auto
qed

lemma run_step_total:
  assumes "ports_fit P" and "totals_ok l"
  shows "\<exists>l'. (run_step S P rq i l = Go_on l' \<or> (\<exists>r. run_step S P rq i l = Stop r l')) \<and> totals_ok l'"
proof -
  obtain r1 l1 where con: "consult P rq i l = (r1, l1)" by (cases "consult P rq i l")
  obtain d where d: "r1 = Inr d" "decision_fits d" and l1: "ls_in l1 = ls_in l" "ls_out l1 = ls_out l"
    using consult_fits [OF assms(1) con] by blast
  let ?l = "count_tokens d l1"
  have ok: "totals_ok ?l" using assms(2) d(2) l1 by (simp add: totals_ok_def decision_fits_def)
  show ?thesis
  proof (cases "model_budget_exceeded S (rn_spec rq) (ls_in ?l) (ls_out ?l) (run_cost S ?l)")
    case True
    with d(1) have "run_step S P rq i l = Stop Run_budget_exceeded
        (add_step (plain_step i Step_over_budget ''agent_token_or_cost_budget'') ?l)"
      by (simp add: run_step_def con Let_def)
    with ok show ?thesis by (auto simp: totals_ok_def)
  next
    case False
    show ?thesis
    proof (cases "dr_decision d")
      case (Finish r)
      with False d have "run_step S P rq i l = Stop Run_succeeded (add_step (plain_step i Step_finished r)
          (emit_trace P \<lparr>re_type = ''decision'', re_index = Some i,
              re_payload = [(''action'', JStr ''finish''), (''tool'', JNull), (''reason'', JStr r)]\<rparr> ?l))"
        by (simp add: run_step_def con Let_def new_step_def plain_step_def decision_fits_def)
      with ok show ?thesis by (auto simp: totals_ok_def)
    next
      case (Call_tool t a r)
      with False d have step: "run_step S P rq i l = tool_step S P rq i t a
          (emit_trace P \<lparr>re_type = ''decision'', re_index = Some i,
              re_payload = [(''action'', JStr ''call_tool''), (''tool'', JStr t), (''reason'', JStr r)]\<rparr> ?l)"
        by (simp add: run_step_def con Let_def)
      have "cp_length t \<le> 80" using d(2) Call_tool by (simp add: decision_fits_def)
      from tool_step_total [OF assms(1) this, of S rq i a
          "emit_trace P \<lparr>re_type = ''decision'', re_index = Some i,
              re_payload = [(''action'', JStr ''call_tool''), (''tool'', JStr t), (''reason'', JStr r)]\<rparr> ?l"] ok
      show ?thesis unfolding step by (auto simp: totals_ok_def)
    qed
  qed
qed

lemma run_loop_total:
  assumes "ports_fit P" and "totals_ok l"
  shows "\<exists>r l'. run_loop S P rq n i l = Stop r l' \<and> totals_ok l'"
  using assms(2)
proof (induction n arbitrary: i l)
  case (Suc n)
  obtain l' where l': "run_step S P rq i l = Go_on l' \<or> (\<exists>r. run_step S P rq i l = Stop r l')" "totals_ok l'"
    using run_step_total [OF assms(1) Suc.prems] by blast
  with Suc.IH [OF l'(2), of "Suc i"] show ?case by auto
qed auto

lemma execute_total:
  assumes "ports_fit P" and "rn_input_type rq \<in> set (sp_inputs (rn_spec rq))"
    and "0 \<le> st_input_price S" and "0 \<le> st_output_price S"
  shows "\<exists>r w'. execute_agent S P rq w = (Inr r, w')"
proof -
  have "totals_ok (start_run P rq w)" by (simp add: totals_ok_def start_run_def emit_trace_def cp_length_def is_cont_def)
  from run_loop_total [OF assms(1) this, of S rq "nat (step_limit S rq)" 0]
  obtain status l where l: "run_loop S P rq (nat (step_limit S rq)) 0 (start_run P rq w) = Stop status l" "totals_ok l"
    by blast
  have "0 \<le> run_cost S l" using l(2) assms(3,4) by (simp add: run_cost_def estimated_cost_def totals_ok_def)
  moreover have "validate_artifact P (rn_spec rq) (run_artifact P rq status (ls_steps l)) = None"
    using assms(1) by (simp add: validate_artifact_def run_artifact_def ports_fit_def)
  moreover obtain u w' where "rt_update P \<lparr>rx_status = status, rx_steps = ls_steps l,
      rx_artifact = run_artifact P rq status (ls_steps l), rx_events = ls_events l, rx_input_tokens = ls_in l,
      rx_output_tokens = ls_out l, rx_cost = run_cost S l, rx_model = ls_model l, rx_fallback = ls_fallback l,
      rx_shared_state = None\<rparr> (ls_world l) = (Inr u, w')"
    using assms(1) unfolding ports_fit_def by blast
  ultimately have "\<exists>r w'. finish_run S P rq status l = (Inr r, w')"
    using l(2) by (simp add: finish_run_def result_ok_def totals_ok_def Let_def)
  with assms(2) l(1) show ?thesis by (simp add: execute_agent_def)
qed


text \<open>
  C34: The sizes matter: a model that finishes with a reason of more than 300 characters makes the run
  raise a validation error instead of being replaced by the fallback, since the step is built
  outside the guarded call.
\<close>

theorem long_reason_aborts_run:
  assumes "rn_input_type rq \<in> set (sp_inputs (rn_spec rq))" and "1 \<le> step_limit S rq"
    and "\<forall>v h t w. rt_decide P v h t w = (Inr d, w)"
    and "dr_decision d = Finish r" and "300 < cp_length r"
    and "\<not> model_budget_exceeded S (rn_spec rq) (dr_input_tokens d) (dr_output_tokens d)
          (estimated_cost S (dr_input_tokens d) (dr_output_tokens d) (dr_input_price d) (dr_output_price d))"
  shows "\<exists>e. fst (execute_agent S P rq w) = Inl e \<and> se_class e = ''ValidationError''"
proof -
  let ?l = "start_run P rq w"
  obtain n where n: "nat (step_limit S rq) = Suc n" using assms(2) by (cases "nat (step_limit S rq)") auto
  have con: "consult P rq 0 ?l = (Inr d, ?l)" using assms(3) by (simp add: consult_def Let_def)
  have "ls_in ?l = 0" "ls_out ?l = 0" by (simp_all add: start_run_def)
  with assms(4-6) have "\<exists>k. run_step S P rq 0 ?l = Crash (validation_failure ''String should have at most n characters'') k"
    by (simp add: run_step_def con Let_def run_cost_def new_step_def plain_step_def)
  with assms(1) n show ?thesis by (auto simp: execute_agent_def validation_failure_def)
qed

section \<open>The rule-based companion\<close>

definition companion_tools :: "string list" where
  "companion_tools = [''get_weather'', ''get_trip_state'', ''get_current_location'', ''propose_replan'']"

lemma rule_decision_fresh:
  assumes "rule_decision text view history = Call_tool t a r"
  shows "t \<in> set companion_tools \<and> JStr t \<notin> set (map tool_of_item history)"
  using assms unfolding rule_decision_def Let_def companion_tools_def
  by (simp split: if_splits)

lemma tool_of_step_json: "tool_of_item (step_json s) = opt_str (ru_tool s)"
  by (simp add: tool_of_item_def step_json_def obj_get_def)

definition rule_history :: "'w run_state \<Rightarrow> bool" where
  "rule_history l \<longleftrightarrow> ls_history l = map step_json (ls_steps l)
     \<and> (\<exists>ts. map ru_tool (ls_steps l) = map Some ts \<and> distinct ts \<and> set ts \<subseteq> set companion_tools)"

lemma run_step_records:
  assumes "\<forall>v h t w. rt_decide P v h t w = rule_decide text v h t w"
    and "rule_history l" and "run_step S P rq i l = Go_on k"
  shows "rule_history k"
proof -
  let ?d = "rule_decision text (rt_context P rq (ls_observation l) (ls_history l)) (ls_history l)"
  obtain d where con: "consult P rq i l = (Inr d, l)" "dr_decision d = ?d"
    using assms(1) by (auto simp: consult_def rule_decide_def Let_def)
  obtain t a r where call: "?d = Call_tool t a r"
    using assms(3) con by (cases ?d) (auto simp: run_step_def Let_def split: if_splits sum.splits)
  obtain l2 where l2: "ls_steps l2 = ls_steps l" "ls_history l2 = ls_history l" "tool_step S P rq i t a l2 = Go_on k"
  proof -
    from assms(3) con call have "tool_step S P rq i t a
        (emit_trace P \<lparr>re_type = ''decision'', re_index = Some i,
           re_payload = [(''action'', JStr ''call_tool''), (''tool'', JStr t), (''reason'', JStr r)]\<rparr>
          (count_tokens d l)) = Go_on k"
      by (simp add: run_step_def Let_def split: if_splits)
    then show ?thesis by (rule that [rotated 2]) simp_all
  qed
  from tool_step_adds(2) [OF l2(3)] l2 obtain s where
    s: "ls_steps k = ls_steps l @ [s]" "ls_history k = ls_history l @ [step_json s]" "ru_tool s = Some t" by (auto simp: one_more_def)
  obtain ts where ts: "map ru_tool (ls_steps l) = map Some ts" "distinct ts" "set ts \<subseteq> set companion_tools"
    and h: "ls_history l = map step_json (ls_steps l)"
    using assms(2) unfolding rule_history_def by blast
  have "map tool_of_item (ls_history l) = map (opt_str \<circ> ru_tool) (ls_steps l)"
    by (simp add: h tool_of_step_json)
  also have "\<dots> = map JStr ts"
    using ts(1) by (metis (no_types, lifting) comp_apply list.map_comp map_eq_conv opt_str_def option.simps(5))
  finally have "t \<notin> set ts" "t \<in> set companion_tools"
    using rule_decision_fresh [OF call] by auto
  with s ts h have "map ru_tool (ls_steps k) = map Some (ts @ [t])" "distinct (ts @ [t])"
    "set (ts @ [t]) \<subseteq> set companion_tools" "ls_history k = map step_json (ls_steps k)" by simp_all
  then show ?thesis unfolding rule_history_def by blast
qed

lemma run_loop_rule_steps:
  assumes "\<forall>v h t w. rt_decide P v h t w = rule_decide text v h t w"
    and "rule_history l" and "run_loop S P rq n i l = Stop Run_step_limit k"
  shows "rule_history k \<and> length (ls_steps k) = length (ls_steps l) + n"
  using assms(2,3)
proof (induction n arbitrary: i l)
  case (Suc n)
  show ?case
  proof (cases "run_step S P rq i l")
    case (Stop r m)
    with Suc.prems(2) run_step_adds(1) [OF Stop] show ?thesis by (auto simp: ends_with_status_def)
  next
    case (Go_on m)
    with Suc.prems(2) have "run_loop S P rq n (Suc i) m = Stop Run_step_limit k" by simp
    from Suc.IH [OF run_step_records [OF assms(1) Suc.prems(1) Go_on] this] run_step_adds(2) [OF Go_on]
    show ?thesis by (auto simp: one_more_def)
  qed (use Suc.prems(2) in simp)
qed simp

lemma rule_history_short: "rule_history l \<Longrightarrow> length (ls_steps l) \<le> 4"
proof -
  assume "rule_history l"
  then obtain ts where ts: "map ru_tool (ls_steps l) = map Some ts" "distinct ts" "set ts \<subseteq> set companion_tools"
    unfolding rule_history_def by blast
  have "length ts \<le> card (set companion_tools)"
    using ts(2,3) by (metis List.finite_set card_mono distinct_card)
  also have "\<dots> \<le> 4" unfolding companion_tools_def by (rule order_trans [OF card_length]) simp
  finally show ?thesis using ts(1) by (metis length_map)
qed

text \<open>
  Without a model the companion always comes to an end of its own: the rule-based decider never
  asks for the same tool twice, so that a run of at least five steps never stops at the step limit.
\<close>

theorem rule_companion_terminates:
  assumes "\<forall>v h t w. rt_decide P v h t w = rule_decide text v h t w" and "5 \<le> step_limit S rq"
    and "execute_agent S P rq w = (Inr r, w')"
  shows "rx_status r \<noteq> Run_step_limit"
proof
  assume limit: "rx_status r = Run_step_limit"
  obtain l where l: "run_loop S P rq (nat (step_limit S rq)) 0 (start_run P rq w) = Stop Run_step_limit l"
    using execute_agent_Inr [OF assms(3)] limit by metis
  have "rule_history (start_run P rq w)" by (simp add: rule_history_def)
  from run_loop_rule_steps [OF assms(1) this l] rule_history_short [of l] assms(2) show False by simp
qed

section \<open>Examples\<close>

text \<open>A companion on a delay event, with a counter of tool executions for a world.\<close>

definition example_settings :: runtime_settings where
  "example_settings = \<lparr>st_max_steps = 4, st_input_tokens = 6000, st_output_tokens = 800, st_cost = 1 / 20,
     st_calls_per_run = 4, st_calls_per_task = 8, st_calls_per_trip = 40,
     st_input_price = 2 / 5, st_output_price = 8 / 5\<rparr>"

definition companion_spec :: agent_spec where
  "companion_spec = \<lparr>sp_agent = Ag_companion, sp_context_view = ''companion_trip_execution'',
     sp_allowed_tools = names_for tool_registry Ag_companion Agent_callable,
     sp_inputs = [''trip_observation''], sp_output = ''companion_action_report'',
     sp_budget = \<lparr>bu_steps = 4, bu_input_tokens = 6000, bu_output_tokens = 800, bu_cost = 1 / 20\<rparr>\<rparr>"

definition example_request :: "payload \<Rightarrow> runtime_request" where
  "example_request observation = \<lparr>rn_spec = companion_spec, rn_state = ''ACTIVE_TRIP'',
     rn_observation = observation, rn_input_type = ''trip_observation'', rn_task = ''trip-7-state'',
     rn_evidence = [''trip:7''], rn_max_steps = None, rn_tool_budget = \<lparr>tb_run = 0, tb_task = 0, tb_scope = 0\<rparr>\<rparr>"

definition example_ports :: "nat runtime_ports" where
  "example_ports = \<lparr>rt_decide = rule_decide (\<lambda>_. []), rt_fallback = safe_finish, rt_context = default_context,
     rt_policy = allow_registered_tool, rt_arguments = (\<lambda>m p. Some p),
     rt_execute = (\<lambda>tool args w. (Inr [(''done'', JBool True)], Suc w)), rt_emit = (\<lambda>e w. w),
     rt_validator = (\<lambda>a. None), rt_update = (\<lambda>r w. (Inr None, w)), rt_text = (\<lambda>v. []), rt_float = (\<lambda>s. None),
     rt_latency = (\<lambda>i. 3), rt_hash = (\<lambda>p. ''h'')\<rparr>"

definition delay_observation :: payload where
  "delay_observation = [(''event_type'', JStr ''TrafficChanged'')]"

lemma example_rule: "rt_decide example_ports v h t w = rule_decide (\<lambda>_. []) v h t w"
  by (simp add: example_ports_def)

lemma cp_length_le: "cp_length s \<le> length s"
  by (simp add: cp_length_def)

lemma length_utf8 [simp]: "length (utf8 bs) = length bs"
  by (simp add: utf8_def)

lemma rule_reason_short: "cp_length (decision_reason (rule_decision f v h)) \<le> 300"
  unfolding rule_decision_def Let_def
  by (rule order_trans [OF cp_length_le]) (simp add: if_distrib [of decision_reason] if_distrib [of length])

lemma rule_tool_short: "rule_decision f v h = Call_tool t a r \<Longrightarrow> cp_length t \<le> 80"
  using rule_decision_fresh [of f v h t a r]
  by (auto simp: companion_tools_def intro: order_trans [OF cp_length_le])

lemma rule_decide_fits: "rule_decide f v h t w = (Inr d, w') \<Longrightarrow> decision_fits d"
  using rule_reason_short [of f v h] rule_tool_short [of f v h] order_trans [OF cp_length_le, of "''rule-agent-v1''" 100]
  by (auto simp: rule_decide_def decision_fits_def split: agent_decision.splits)

lemma example_fits: "ports_fit example_ports"
  unfolding ports_fit_def
proof (intro conjI allI impI)
  show "decision_fits d" if "rt_decide example_ports v h t w = (Inr d, w')" for v h t w d w'
    using that by (simp add: example_rule rule_decide_fits)
qed (auto simp: example_ports_def safe_finish_def decision_fits_def allow_registered_tool_def cp_length_def is_cont_def)

lemma example_counts: "counts (\<lambda>n. n) example_ports"
  by (simp add: counts_def example_ports_def rule_decide_def safe_finish_def)

abbreviation delay_request :: runtime_request where
  "delay_request \<equiv> example_request delay_observation"

abbreviation patient_settings :: runtime_settings where
  "patient_settings \<equiv> example_settings\<lparr>st_max_steps := 6\<rparr>"

abbreviation patient_request :: runtime_request where
  "patient_request \<equiv> delay_request
     \<lparr>rn_spec := companion_spec\<lparr>sp_budget := sp_budget companion_spec\<lparr>bu_steps := 6\<rparr>\<rparr>\<rparr>"

lemma example_returns:
  "\<exists>r w'. execute_agent example_settings example_ports delay_request w = (Inr r, w')"
  "\<exists>r w'. execute_agent patient_settings example_ports patient_request w = (Inr r, w')"
  by (rule execute_total [OF example_fits]; simp add: example_request_def companion_spec_def example_settings_def)+

theorem run_is_bounded_witness:
  "\<exists>r w'. execute_agent example_settings example_ports delay_request 0 = (Inr r, w') \<and> length (rx_steps r) \<le> 4"
proof -
  obtain r w' where r: "execute_agent example_settings example_ports delay_request 0 = (Inr r, w')"
    using example_returns(1) by blast
  have "step_limit example_settings delay_request = 4"
    by (simp add: step_limit_def example_request_def companion_spec_def example_settings_def)
  with run_is_bounded [OF r] have "length (rx_steps r) \<le> 4" by simp
  with r show ?thesis by blast
qed

definition careful_executor :: "string \<Rightarrow> payload \<Rightarrow> nat \<Rightarrow> (seen_exception + payload) \<times> nat" where
  "careful_executor tool args w =
     (if tool \<in> set companion_tools then rt_execute example_ports tool args w
      else (Inl (value_failure ''never called''), w + 100))"

lemma companion_capabilities:
  "c \<in> set capabilities \<Longrightarrow> Ag_companion \<in> cap_agents c \<Longrightarrow> cap_name c \<in> set companion_tools"
  by (auto simp: capabilities_def read_only_def companion_tools_def)

theorem executor_confined_witness:
  "execute_agent example_settings (example_ports\<lparr>rt_execute := careful_executor\<rparr>) delay_request 0
     = execute_agent example_settings example_ports delay_request 0"
proof (rule executor_confined)
  show "\<forall>tool args w. permitted_call example_ports delay_request tool args
      \<longrightarrow> rt_execute example_ports tool args w = careful_executor tool args w"
    using companion_capabilities
    by (auto simp: permitted_call_def careful_executor_def example_request_def companion_spec_def)
qed

theorem tool_calls_within_budget_witness:
  "snd (execute_agent example_settings example_ports delay_request 0) \<le> 4"
  using tool_calls_within_budget [OF example_counts, of example_settings delay_request 0]
  by (simp add: call_allowance_def example_settings_def example_request_def)


theorem rule_companion_terminates_witness:
  "\<exists>r w'. execute_agent patient_settings example_ports patient_request 0 = (Inr r, w')
     \<and> rx_status r \<noteq> Run_step_limit"
proof -
  obtain r w' where r: "execute_agent patient_settings example_ports patient_request 0 = (Inr r, w')"
    using example_returns(2) by blast
  have "5 \<le> step_limit patient_settings patient_request"
    by (simp add: step_limit_def example_request_def companion_spec_def example_settings_def)
  with rule_companion_terminates [OF _ this r, of "\<lambda>_. []"] r show ?thesis by (auto simp: example_rule)
qed

definition verbose_decision :: decision_result where
  "verbose_decision = \<lparr>dr_decision = Finish (replicate 301 (CHR ''a'')), dr_input_tokens = 10, dr_output_tokens = 10,
     dr_model = ''m'', dr_input_price = 0, dr_output_price = 0\<rparr>"

theorem long_reason_aborts_run_witness:
  "\<exists>e. fst (execute_agent example_settings (example_ports\<lparr>rt_decide := \<lambda>v h t w. (Inr verbose_decision, w)\<rparr>)
     delay_request 0) = Inl e \<and> se_class e = ''ValidationError''"
proof (rule long_reason_aborts_run [where d = verbose_decision and r = "replicate 301 (CHR ''a'')"])
  show "300 < cp_length (replicate 301 (CHR ''a''))" by (simp add: cp_length_def is_cont_def)
  show "\<not> model_budget_exceeded example_settings (rn_spec delay_request) (dr_input_tokens verbose_decision)
     (dr_output_tokens verbose_decision) (estimated_cost example_settings (dr_input_tokens verbose_decision)
        (dr_output_tokens verbose_decision) (dr_input_price verbose_decision) (dr_output_price verbose_decision))"
    by (simp add: model_budget_exceeded_def estimated_cost_def verbose_decision_def example_settings_def
        example_request_def companion_spec_def)
qed (simp_all add: example_request_def companion_spec_def step_limit_def example_settings_def verbose_decision_def)

end
