(* ===== verification/Event_Worker.thy ===== *)
theory Event_Worker
  imports Store_Contracts
begin

text \<open>
  \<open>worker.py\<close>: the processing of one trip event by any number of workers that share the runtime
  store and the database. A worker takes the lock of the trip, claims the event with the fencing
  number of its lock token, and every later commit of its session is guarded by that number
  (\<open>_install_worker_fence_guard\<close>). The steps of \<open>process_trip_event\<close> between two accesses to shared
  state are the actions here, and workers interleave them in any order; a worker may also die
  between any two of them. What the session computes in between (agent run, replanning) only
  reaches the database through a guarded commit.
\<close>

section \<open>The event and its workers\<close>

datatype job_status = Job_waiting | Job_processing | Job_processed

text \<open>The columns \<open>status\<close> and \<open>worker_fencing_token\<close> of the event's row.\<close>

record job_row =
  jr_status :: job_status
  jr_fence :: nat

datatype stage = Began | Loaded | Owner_checked | Fenced_in | Ended | Dead

text \<open>One call of \<open>process_trip_event\<close>: its token, the flag \<open>lease_lost\<close>, and how far it got.\<close>

record activation =
  av_token :: string
  av_fence :: nat
  av_lost :: bool
  av_stage :: stage
  av_attempt :: int

datatype entry = Claimed nat | Committed nat | Processed nat

record work_world =
  ww_store :: store
  ww_job :: job_row
  ww_active :: "nat \<Rightarrow> activation option"
  ww_log :: "entry list"

definition trip_events_queue :: string where
  "trip_events_queue = ''mapgo:trip-events''"

definition trip_lock :: "int \<Rightarrow> string" where
  "trip_lock trip = ''agent-run:trip:'' @ show_int trip"

section \<open>The steps of a worker\<close>

definition set_stage :: "nat \<Rightarrow> stage \<Rightarrow> work_world \<Rightarrow> work_world" where
  "set_stage a st w =
     (case ww_active w a of None \<Rightarrow> w
      | Some v \<Rightarrow> w\<lparr>ww_active := (ww_active w)(a \<mapsto> v\<lparr>av_stage := st\<rparr>)\<rparr>)"

text \<open>The \<open>finally\<close> clause: the lease task ends and the lock is released with the own token.\<close>

definition leave :: "int \<Rightarrow> nat \<Rightarrow> activation \<Rightarrow> work_world \<Rightarrow> work_world" where
  "leave trip a v w =
     set_stage a Ended (w\<lparr>ww_store := snd (release_lock (trip_lock trip) (av_token v) (ww_store w))\<rparr>)"

text \<open>The handler of every exception: the event goes to the retry queue, then \<open>finally\<close>.\<close>

definition give_up :: "int \<Rightarrow> payload \<Rightarrow> rat \<Rightarrow> nat \<Rightarrow> activation \<Rightarrow> work_world \<Rightarrow> work_world" where
  "give_up trip p wall a v w =
     leave trip a v
       (w\<lparr>ww_store := snd (enqueue_retry trip_events_queue p (av_attempt v + 1) 5 None wall (ww_store w))\<rparr>)"

definition begin_work ::
  "int \<Rightarrow> payload \<Rightarrow> lock_env \<Rightarrow> rat \<Rightarrow> int \<Rightarrow> nat \<Rightarrow> work_world \<Rightarrow> work_world" where
  "begin_work trip p e wall attempt a w =
     (case acquire_call e (trip_lock trip) (ww_store w) of
        (None, s) \<Rightarrow>
          w\<lparr>ww_store := snd (enqueue_retry trip_events_queue p (attempt + 1) 8 None wall s)\<rparr>
      | (Some token, s) \<Rightarrow>
          (case lock_fencing_token token of
             Inl _ \<Rightarrow> w\<lparr>ww_store := s\<rparr>
           | Inr f \<Rightarrow> w\<lparr>ww_store := s,
               ww_active := (ww_active w)(a \<mapsto> \<lparr>av_token = token, av_fence = nat f, av_lost = False,
                 av_stage = Began, av_attempt = attempt\<rparr>)\<rparr>))"

text \<open>\<open>_maintain_lock_lease\<close>: one renewal; a refusal sets the flag for good.\<close>

definition renew_lease :: "int \<Rightarrow> lock_env \<Rightarrow> nat \<Rightarrow> activation \<Rightarrow> work_world \<Rightarrow> work_world" where
  "renew_lease trip e a v w =
     (case renew_call e (trip_lock trip) (av_token v) (ww_store w) of
        (True, s) \<Rightarrow> w\<lparr>ww_store := s\<rparr>
      | (False, s) \<Rightarrow> w\<lparr>ww_store := s, ww_active := (ww_active w)(a \<mapsto> v\<lparr>av_lost := True\<rparr>)\<rparr>)"

definition load_event :: "int \<Rightarrow> nat \<Rightarrow> activation \<Rightarrow> work_world \<Rightarrow> work_world" where
  "load_event trip a v w =
     (if jr_status (ww_job w) = Job_processed then leave trip a v w else set_stage a Loaded w)"

definition check_owner :: "int \<Rightarrow> payload \<Rightarrow> rat \<Rightarrow> rat \<Rightarrow> nat \<Rightarrow> activation \<Rightarrow> work_world \<Rightarrow> work_world" where
  "check_owner trip p now wall a v w =
     (if av_lost v \<or> \<not> is_lock_owner (trip_lock trip) (av_token v) now (ww_store w)
      then give_up trip p wall a v w else set_stage a Owner_checked w)"

text \<open>\<open>_claim_worker_fence\<close>: one conditional update, committed before the guard is installed.\<close>

definition claim_fence :: "int \<Rightarrow> nat \<Rightarrow> activation \<Rightarrow> work_world \<Rightarrow> work_world" where
  "claim_fence trip a v w =
     (if jr_status (ww_job w) \<noteq> Job_processed \<and> jr_fence (ww_job w) < av_fence v
      then set_stage a Fenced_in
             (w\<lparr>ww_job := \<lparr>jr_status = Job_processing, jr_fence = av_fence v\<rparr>,
                ww_log := ww_log w @ [Claimed (av_fence v)]\<rparr>)
      else leave trip a v w)"

text \<open>The guard that runs before every commit of the session.\<close>

definition commit_refused :: "activation \<Rightarrow> work_world \<Rightarrow> bool" where
  "commit_refused v w \<longleftrightarrow> av_lost v \<or> jr_fence (ww_job w) \<noteq> av_fence v"

definition commit_work :: "int \<Rightarrow> payload \<Rightarrow> rat \<Rightarrow> nat \<Rightarrow> activation \<Rightarrow> work_world \<Rightarrow> work_world" where
  "commit_work trip p wall a v w =
     (if commit_refused v w then give_up trip p wall a v w
      else w\<lparr>ww_log := ww_log w @ [Committed (av_fence v)]\<rparr>)"

definition finish_work :: "int \<Rightarrow> payload \<Rightarrow> rat \<Rightarrow> nat \<Rightarrow> activation \<Rightarrow> work_world \<Rightarrow> work_world" where
  "finish_work trip p wall a v w =
     (if commit_refused v w then give_up trip p wall a v w
      else leave trip a v
             (w\<lparr>ww_job := (ww_job w)\<lparr>jr_status := Job_processed\<rparr>,
                ww_log := ww_log w @ [Processed (av_fence v)]\<rparr>))"

section \<open>Interleavings\<close>

text \<open>
  \<open>By_others\<close> is any operation of the store by somebody else, on this lock or another one.
\<close>

datatype work_action =
    Begin nat lock_env rat int
  | Lease nat lock_env
  | Load nat
  | Check nat rat rat
  | Claim nat
  | Commit nat rat
  | Fail nat rat
  | Finish_event nat rat
  | Die nat
  | By_others store_op

fun work_step :: "(rat \<Rightarrow> string) \<Rightarrow> int \<Rightarrow> payload \<Rightarrow> work_action \<Rightarrow> work_world \<Rightarrow> work_world" where
  "work_step fr trip p (Begin a e wall attempt) w =
     (if ww_active w a = None then begin_work trip p e wall attempt a w else w)"
| "work_step fr trip p (Lease a e) w =
     (case ww_active w a of None \<Rightarrow> w
      | Some v \<Rightarrow> if av_stage v \<in> {Ended, Dead} \<or> av_lost v then w else renew_lease trip e a v w)"
| "work_step fr trip p (Load a) w =
     (case ww_active w a of None \<Rightarrow> w | Some v \<Rightarrow> if av_stage v = Began then load_event trip a v w else w)"
| "work_step fr trip p (Check a now wall) w =
     (case ww_active w a of None \<Rightarrow> w
      | Some v \<Rightarrow> if av_stage v = Loaded then check_owner trip p now wall a v w else w)"
| "work_step fr trip p (Claim a) w =
     (case ww_active w a of None \<Rightarrow> w
      | Some v \<Rightarrow> if av_stage v = Owner_checked then claim_fence trip a v w else w)"
| "work_step fr trip p (Commit a wall) w =
     (case ww_active w a of None \<Rightarrow> w
      | Some v \<Rightarrow> if av_stage v = Fenced_in then commit_work trip p wall a v w else w)"
| "work_step fr trip p (Fail a wall) w =
     (case ww_active w a of None \<Rightarrow> w
      | Some v \<Rightarrow> if av_stage v \<in> {Ended, Dead} then w else give_up trip p wall a v w)"
| "work_step fr trip p (Finish_event a wall) w =
     (case ww_active w a of None \<Rightarrow> w
      | Some v \<Rightarrow> if av_stage v = Fenced_in then finish_work trip p wall a v w else w)"
| "work_step fr trip p (Die a) w =
     (case ww_active w a of None \<Rightarrow> w
      | Some v \<Rightarrow> if av_stage v \<in> {Ended, Dead} then w else set_stage a Dead w)"
| "work_step fr trip p (By_others c) w = w\<lparr>ww_store := snd (store_step fr c (ww_store w))\<rparr>"

text \<open>Every fresh identifier is not empty, as for any run of the store.\<close>

fun action_ok :: "work_action \<Rightarrow> bool" where
  "action_ok (Begin a e wall attempt) = lock_env_ok e"
| "action_ok (By_others (Acquire e n)) = lock_env_ok e"
| "action_ok _ = True"

definition fresh_world :: "store \<Rightarrow> work_world" where
  "fresh_world s = \<lparr>ww_store = s, ww_job = \<lparr>jr_status = Job_waiting, jr_fence = 0\<rparr>,
     ww_active = (\<lambda>_. None), ww_log = []\<rparr>"

inductive working ::
  "(rat \<Rightarrow> string) \<Rightarrow> int \<Rightarrow> payload \<Rightarrow> work_world \<Rightarrow> bool" for fr trip p where
  start: "working fr trip p (fresh_world s)"
| step: "working fr trip p w \<Longrightarrow> action_ok x \<Longrightarrow> working fr trip p (work_step fr trip p x w)"

inductive_cases working_cases: "working fr trip p w"

section \<open>The abstract contract\<close>

text \<open>
  Exclusive processing, as seen in the log alone: claims have ascending numbers, only the latest
  claimant commits, and after \<open>Processed\<close> nothing happens.
\<close>

record contract =
  ct_owner :: nat
  ct_done :: bool

inductive contract_step :: "contract \<Rightarrow> entry \<Rightarrow> contract \<Rightarrow> bool" where
  claimed: "\<not> ct_done c \<Longrightarrow> ct_owner c < f \<Longrightarrow> contract_step c (Claimed f) (c\<lparr>ct_owner := f\<rparr>)"
| committed: "\<not> ct_done c \<Longrightarrow> 0 < ct_owner c \<Longrightarrow> contract_step c (Committed (ct_owner c)) c"
| processed: "\<not> ct_done c \<Longrightarrow> 0 < ct_owner c \<Longrightarrow> contract_step c (Processed (ct_owner c)) (c\<lparr>ct_done := True\<rparr>)"

end
