(* ===== verification/Event_Worker_Properties.thy ===== *)
theory Event_Worker_Properties
  imports Event_Worker
begin

text \<open>
  Workers that share an event refine exclusive processing, whatever the interleaving, the crashes and
  the loss of leases: this rests on the fencing numbers of the lock (\<open>rl\<close>) and on the guard of the
  commits. A worker that comes after a crash can always finish the event.
\<close>

section \<open>Frames\<close>

lemma fence_frames [simp]:
  "rs_lock_fences (snd (release_lock n t s)) = rs_lock_fences s"
  "rs_lock_fences (snd (enqueue_retry q p i m d wall s)) = rs_lock_fences s"
proof -
  show "rs_lock_fences (snd (release_lock n t s)) = rs_lock_fences s"
    using rl.release_only [of "(0, None, [], 0)" n t s] by (metis prod.collapse release_call.simps)
  show "rs_lock_fences (snd (enqueue_retry q p i m d wall s)) = rs_lock_fences s"
    using data_step_locks(2) [of "\<lambda>_. []" "Retry q p i m d wall" s] by simp
qed

lemma set_stage_simps [simp]:
  "ww_store (set_stage a st w) = ww_store w" "ww_job (set_stage a st w) = ww_job w"
  "ww_log (set_stage a st w) = ww_log w"
  by (simp_all add: set_stage_def split: option.split)

lemma leave_simps [simp]:
  "rs_lock_fences (ww_store (leave trip a v w)) = rs_lock_fences (ww_store w)"
  "ww_job (leave trip a v w) = ww_job w" "ww_log (leave trip a v w) = ww_log w"
  by (simp_all add: leave_def)

lemma give_up_simps [simp]:
  "rs_lock_fences (ww_store (give_up trip p wall a v w)) = rs_lock_fences (ww_store w)"
  "ww_job (give_up trip p wall a v w) = ww_job w" "ww_log (give_up trip p wall a v w) = ww_log w"
  by (simp_all add: give_up_def)

lemma active_leave: "ww_active w a = Some v \<Longrightarrow>
    ww_active (leave trip a v w) = (ww_active w)(a \<mapsto> v\<lparr>av_stage := Ended\<rparr>)"
  by (simp add: leave_def set_stage_def)

lemma active_give_up: "ww_active w a = Some v \<Longrightarrow>
    ww_active (give_up trip p wall a v w) = (ww_active w)(a \<mapsto> v\<lparr>av_stage := Ended\<rparr>)"
  by (simp add: give_up_def leave_def set_stage_def)

lemma granted_fence:
  assumes "acquire_call e n s = (Some t, s')" and "lock_env_ok e"
  shows "(\<exists>i. lock_fencing_token t = Inr i \<and> nat i = Suc (rs_lock_fences s n))
    \<and> rs_lock_fences s' = (rs_lock_fences s)(n := Suc (rs_lock_fences s n))"
proof -
  from rl.grant [OF assms(2,1)] have g: "token_fence t = Some (Suc (rs_lock_fences s n))"
    and f: "rs_lock_fences s' = (rs_lock_fences s)(n := Suc (rs_lock_fences s n))" by auto
  obtain i where i: "lock_fencing_token t = Inr i" "nat i = Suc (rs_lock_fences s n)"
    using g by (auto simp: token_fence_def split: sum.splits)
  with f show ?thesis by blast
qed

section \<open>The invariant\<close>

definition fences_ok :: "int \<Rightarrow> work_world \<Rightarrow> bool" where
  "fences_ok trip w \<longleftrightarrow>
     jr_fence (ww_job w) \<le> rs_lock_fences (ww_store w) (trip_lock trip)
   \<and> (\<forall>a v. ww_active w a = Some v \<longrightarrow> av_fence v \<le> rs_lock_fences (ww_store w) (trip_lock trip))
   \<and> (\<forall>a v. ww_active w a = Some v \<longrightarrow> 0 < av_fence v)
   \<and> (\<forall>a b v u. ww_active w a = Some v \<longrightarrow> ww_active w b = Some u \<longrightarrow> av_fence v = av_fence u \<longrightarrow> a = b)
   \<and> (\<forall>a v. ww_active w a = Some v \<longrightarrow> av_stage v = Fenced_in \<longrightarrow> jr_status (ww_job w) = Job_processed
        \<longrightarrow> av_fence v \<noteq> jr_fence (ww_job w))"

text \<open>A step that only moves one worker to another stage, or its flag, and keeps the event.\<close>

lemma fences_ok_move:
  assumes "fences_ok trip w" and "ww_active w a = Some v"
    and "ww_active w' = (ww_active w)(a \<mapsto> u)" and "av_fence u = av_fence v"
    and "av_stage u = Fenced_in \<longrightarrow> av_stage v = Fenced_in" and "ww_job w' = ww_job w"
    and "rs_lock_fences (ww_store w') = rs_lock_fences (ww_store w)"
  shows "fences_ok trip w'"
  using assms unfolding fences_ok_def by (auto split: if_splits)

lemma fences_ok_frame:
  assumes "fences_ok trip w" and "ww_active w' = ww_active w" and "ww_job w' = ww_job w"
    and "rs_lock_fences (ww_store w) (trip_lock trip) \<le> rs_lock_fences (ww_store w') (trip_lock trip)"
  shows "fences_ok trip w'"
  using assms unfolding fences_ok_def by (auto intro: order_trans)

lemma fences_ok_begin:
  assumes "fences_ok trip w" and "ww_active w a = None" and "lock_env_ok e"
  shows "fences_ok trip (begin_work trip p e wall attempt a w)"
proof (cases "acquire_call e (trip_lock trip) (ww_store w)")
  case (Pair r s)
  show ?thesis
  proof (cases r)
    case None
    have "rs_lock_fences s = rs_lock_fences (ww_store w)" using rl.deny Pair None by blast
    with Pair None show ?thesis
      by (intro fences_ok_frame [OF assms(1)]) (simp_all add: begin_work_def)
  next
    case (Some t)
    note g = granted_fence [OF Pair [unfolded Some] assms(3)]
    let ?F = "rs_lock_fences (ww_store w) (trip_lock trip)"
    have w': "begin_work trip p e wall attempt a w = w\<lparr>ww_store := s, ww_active := (ww_active w)(a \<mapsto>
        \<lparr>av_token = t, av_fence = Suc ?F, av_lost = False, av_stage = Began, av_attempt = attempt\<rparr>)\<rparr>"
      using Pair Some g by (auto simp: begin_work_def)
    have bound: "av_fence v \<le> ?F" if "ww_active w b = Some v" for b v
      using assms(1) that by (simp add: fences_ok_def)
    show ?thesis
      unfolding w' fences_ok_def
    proof (intro conjI allI impI)
      fix b c u v
      assume "ww_active (w\<lparr>ww_store := s, ww_active := (ww_active w)(a \<mapsto>
          \<lparr>av_token = t, av_fence = Suc ?F, av_lost = False, av_stage = Began, av_attempt = attempt\<rparr>)\<rparr>) b = Some u"
        "ww_active (w\<lparr>ww_store := s, ww_active := (ww_active w)(a \<mapsto>
          \<lparr>av_token = t, av_fence = Suc ?F, av_lost = False, av_stage = Began, av_attempt = attempt\<rparr>)\<rparr>) c = Some v"
        "av_fence u = av_fence v"
      then show "b = c"
        using assms(1) unfolding fences_ok_def
        by (auto split: if_splits dest: bound)
    qed (use assms(1) g bound in \<open>auto simp: fences_ok_def split: if_splits intro: le_SucI\<close>)
  qed
qed

lemma fences_ok_claim:
  assumes "fences_ok trip w" and "ww_active w a = Some v"
  shows "fences_ok trip (claim_fence trip a v w)"
proof (cases "jr_status (ww_job w) \<noteq> Job_processed \<and> jr_fence (ww_job w) < av_fence v")
  case True
  let ?w = "w\<lparr>ww_job := \<lparr>jr_status = Job_processing, jr_fence = av_fence v\<rparr>,
      ww_log := ww_log w @ [Claimed (av_fence v)], ww_active := (ww_active w)(a \<mapsto> v\<lparr>av_stage := Fenced_in\<rparr>)\<rparr>"
  have w': "claim_fence trip a v w = ?w"
    using True assms(2) by (simp add: claim_fence_def set_stage_def)
  have same: "av_fence u = av_fence u' " if "ww_active ?w b = Some u" "ww_active w b = Some u'" for b u u'
    using that assms(2) by (auto split: if_splits)
  have old: "\<exists>u'. ww_active w b = Some u'" if "ww_active ?w b = Some u" for b u
    using that assms(2) by (auto split: if_splits)
  show ?thesis
    unfolding w' fences_ok_def
  proof (intro conjI allI impI)
    show "jr_fence (ww_job ?w) \<le> rs_lock_fences (ww_store ?w) (trip_lock trip)"
      using assms by (simp add: fences_ok_def)
  next
    fix b u assume u: "ww_active ?w b = Some u"
    obtain u' where u': "ww_active w b = Some u'" using old [OF u] by blast
    show "av_fence u \<le> rs_lock_fences (ww_store ?w) (trip_lock trip)"
      using assms(1) u' same [OF u u'] by (simp add: fences_ok_def)
    show "0 < av_fence u" using assms(1) u' same [OF u u'] by (simp add: fences_ok_def)
  next
    fix b c u t assume *: "ww_active ?w b = Some u" "ww_active ?w c = Some t" "av_fence u = av_fence t"
    obtain u' t' where u': "ww_active w b = Some u'" "ww_active w c = Some t'" using old *(1,2) by blast
    with * same have "av_fence u' = av_fence t'" by metis
    with assms(1) u' show "b = c" unfolding fences_ok_def by blast
  qed simp
next
  case False
  then have "claim_fence trip a v w = leave trip a v w" by (auto simp: claim_fence_def)
  then show ?thesis by (simp add: fences_ok_move [OF assms active_leave [OF assms(2)]])
qed

lemma fences_ok_finish:
  assumes "fences_ok trip w" and "ww_active w a = Some v"
  shows "fences_ok trip (finish_work trip p wall a v w)"
proof (cases "commit_refused v w")
  case True
  then show ?thesis
    by (simp add: finish_work_def fences_ok_move [OF assms active_give_up [OF assms(2)]])
next
  case False
  then have own: "jr_fence (ww_job w) = av_fence v" by (simp add: commit_refused_def)
  let ?w = "w\<lparr>ww_job := (ww_job w)\<lparr>jr_status := Job_processed\<rparr>, ww_log := ww_log w @ [Processed (av_fence v)]\<rparr>"
  have others: "av_fence u \<noteq> jr_fence (ww_job w)" if "ww_active w b = Some u" "b \<noteq> a" for b u
    using assms own that unfolding fences_ok_def by metis
  have w': "finish_work trip p wall a v w = leave trip a v ?w" using False by (simp add: finish_work_def)
  have active: "ww_active (leave trip a v ?w) = ww_active (leave trip a v w)"
    using active_leave [of ?w a v trip] active_leave [OF assms(2)] assms(2) by simp
  have kept: "fences_ok trip (leave trip a v w)"
    by (rule fences_ok_move [OF assms active_leave [OF assms(2)]]) simp_all
  show ?thesis
    unfolding w' fences_ok_def
  proof (intro conjI allI impI)
    fix b u assume u: "ww_active (leave trip a v ?w) b = Some u" "av_stage u = Fenced_in"
    then have "b \<noteq> a" "ww_active w b = Some u"
      using assms(2) by (auto simp: active active_leave [OF assms(2)] split: if_splits)
    with others show "av_fence u \<noteq> jr_fence (ww_job (leave trip a v ?w))" by simp
  qed (use kept in \<open>auto simp: fences_ok_def active\<close>)
qed

lemma fences_ok_step:
  assumes "fences_ok trip w" and "action_ok x"
  shows "fences_ok trip (work_step fr trip p x w)"
proof (cases x)
  case (Begin a e wall attempt)
  with assms fences_ok_begin show ?thesis by simp
next
  case (Lease a e)
  show ?thesis
  proof (cases "ww_active w a")
    case (Some v)
    obtain b s where r: "renew_call e (trip_lock trip) (av_token v) (ww_store w) = (b, s)" by fastforce
    have *: "rs_lock_fences s = rs_lock_fences (ww_store w)" using rl.renew_keeps [OF r] by simp
    have "fences_ok trip (renew_lease trip e a v w)"
    proof (cases b)
      case True
      with r * show ?thesis by (intro fences_ok_frame [OF assms(1)]) (simp_all add: renew_lease_def)
    next
      case False
      with r * show ?thesis
        by (intro fences_ok_move [OF assms(1) Some, of _ "v\<lparr>av_lost := True\<rparr>"]) (simp_all add: renew_lease_def)
    qed
    with Some Lease assms(1) show ?thesis by simp
  qed (use Lease assms(1) in simp)
next
  case (Load a)
  show ?thesis
  proof (cases "ww_active w a")
    case (Some v)
    with Load assms(1) show ?thesis
      by (auto simp: load_event_def intro!: fences_ok_move [OF assms(1) Some active_leave [OF Some]]
          fences_ok_move [OF assms(1) Some, of _ "v\<lparr>av_stage := Loaded\<rparr>"])
        (simp_all add: set_stage_def)
  qed (use Load assms(1) in simp)
next
  case (Check a now wall)
  show ?thesis
  proof (cases "ww_active w a")
    case (Some v)
    with Check assms(1) show ?thesis
      by (auto simp: check_owner_def intro!: fences_ok_move [OF assms(1) Some active_give_up [OF Some]]
          fences_ok_move [OF assms(1) Some, of _ "v\<lparr>av_stage := Owner_checked\<rparr>"])
        (simp_all add: set_stage_def)
  qed (use Check assms(1) in simp)
next
  case (Claim a)
  show ?thesis
  proof (cases "ww_active w a")
    case (Some v)
    have "fences_ok trip (claim_fence trip a v w)" by (rule fences_ok_claim [OF assms(1) Some])
    with Claim Some assms(1) show ?thesis by simp
  qed (use Claim assms(1) in simp)
next
  case (Commit a wall)
  show ?thesis
  proof (cases "ww_active w a")
    case (Some v)
    have "fences_ok trip (give_up trip p wall a v w)"
      by (simp add: fences_ok_move [OF assms(1) Some active_give_up [OF Some]])
    moreover have "fences_ok trip (w\<lparr>ww_log := ww_log w @ [Committed (av_fence v)]\<rparr>)"
      by (rule fences_ok_frame [OF assms(1)]) simp_all
    ultimately show ?thesis using Commit Some assms(1) by (simp add: commit_work_def)
  qed (use Commit assms(1) in simp)
next
  case (Fail a wall)
  show ?thesis
  proof (cases "ww_active w a")
    case (Some v)
    with Fail assms(1) show ?thesis
      by (auto intro!: fences_ok_move [OF assms(1) Some active_give_up [OF Some]])
  qed (use Fail assms(1) in simp)
next
  case (Finish_event a wall)
  show ?thesis
  proof (cases "ww_active w a")
    case (Some v)
    have "fences_ok trip (finish_work trip p wall a v w)" by (rule fences_ok_finish [OF assms(1) Some])
    with Finish_event Some assms(1) show ?thesis by simp
  qed (use Finish_event assms(1) in simp)
next
  case (Die a)
  show ?thesis
  proof (cases "ww_active w a")
    case (Some v)
    with Die assms(1) show ?thesis
      by (auto simp: set_stage_def intro!: fences_ok_move [OF assms(1) Some, of _ "v\<lparr>av_stage := Dead\<rparr>"])
  qed (use Die assms(1) in simp)
next
  case (By_others c)
  have "rl.call_ok c" using assms(2) By_others by (cases c) auto
  then have "rs_lock_fences (ww_store w) (trip_lock trip)
      \<le> rs_lock_fences (snd (store_step fr c (ww_store w))) (trip_lock trip)"
    using rl.step_issued_mono [of c fr "ww_store w" _ _ "trip_lock trip"]
    by (metis prod.collapse store_step_is_lock_step)
  with By_others assms(1) show ?thesis by (auto intro: fences_ok_frame)
qed

lemma working_fences_ok: "working fr trip p w \<Longrightarrow> fences_ok trip w"
proof (induction rule: working.induct)
  case (start s)
  show ?case by (simp add: fresh_world_def fences_ok_def)
qed (rule fences_ok_step)

section \<open>Refinement\<close>

definition contract_of :: "work_world \<Rightarrow> contract" where
  "contract_of w = \<lparr>ct_owner = jr_fence (ww_job w), ct_done = (jr_status (ww_job w) = Job_processed)\<rparr>"

lemma refines_contract:
  assumes "working fr trip p w" and "action_ok x"
  shows "(ww_log (work_step fr trip p x w) = ww_log w \<and> contract_of (work_step fr trip p x w) = contract_of w)
    \<or> (\<exists>e. ww_log (work_step fr trip p x w) = ww_log w @ [e]
         \<and> contract_step (contract_of w) e (contract_of (work_step fr trip p x w)))"
proof -
  note ok = working_fences_ok [OF assms(1)]
  have open_job: "jr_status (ww_job w) \<noteq> Job_processed \<and> 0 < av_fence v"
    if "ww_active w a = Some v" "av_stage v = Fenced_in" "\<not> commit_refused v w" for a v
    using ok that unfolding fences_ok_def commit_refused_def by metis
  show ?thesis
  proof (cases x)
    case (Begin a e wall attempt)
    then show ?thesis
      by (auto simp: begin_work_def contract_of_def split: prod.splits option.splits sum.splits)
  next
    case (Lease a e)
    then show ?thesis
      by (auto simp: renew_lease_def contract_of_def split: option.splits prod.splits bool.splits)
  next
    case (Load a)
    then show ?thesis by (auto simp: load_event_def contract_of_def split: option.splits)
  next
    case (Check a now wall)
    then show ?thesis by (auto simp: check_owner_def contract_of_def split: option.splits)
  next
    case (Claim a)
    then show ?thesis
      using contract_step.claimed [of "contract_of w"]
      by (auto simp: claim_fence_def contract_of_def split: option.splits)
  next
    case (Commit a wall)
    then show ?thesis
      using contract_step.committed [of "contract_of w"] open_job
      by (auto simp: commit_work_def contract_of_def commit_refused_def split: option.splits)
  next
    case (Fail a wall)
    then show ?thesis by (auto simp: contract_of_def split: option.splits)
  next
    case (Finish_event a wall)
    then show ?thesis
      using contract_step.processed [of "contract_of w"] open_job
      by (auto simp: finish_work_def contract_of_def commit_refused_def split: option.splits)
  next
    case (Die a)
    then show ?thesis by (auto simp: contract_of_def split: option.splits)
  next
    case (By_others c)
    then show ?thesis by (simp add: contract_of_def)
  qed
qed

text \<open>
  C5: Any number of workers refines exclusive processing: every action of every worker, of the lease
  tasks and of the other users of the store either leaves the event and its log alone or is a step
  of the contract, in which numbers of claims ascend, only the latest claimant commits, and nothing
  follows the completion.
\<close>

theorem workers_refine_contract:
  assumes "working fr trip p w" and "action_ok x"
  shows "(ww_log (work_step fr trip p x w) = ww_log w \<and> contract_of (work_step fr trip p x w) = contract_of w)
    \<or> (\<exists>e. ww_log (work_step fr trip p x w) = ww_log w @ [e]
         \<and> contract_step (contract_of w) e (contract_of (work_step fr trip p x w)))"
  using assms by (rule refines_contract)

section \<open>What the log shows\<close>

inductive contract_run :: "contract \<Rightarrow> entry list \<Rightarrow> contract \<Rightarrow> bool" for c0 where
  idle: "contract_run c0 [] c0"
| more: "contract_run c0 es c \<Longrightarrow> contract_step c e c' \<Longrightarrow> contract_run c0 (es @ [e]) c'"

definition unclaimed :: contract where
  "unclaimed = \<lparr>ct_owner = 0, ct_done = False\<rparr>"

lemma refinement_step:
  assumes "working fr trip p w" and "action_ok x" and "contract_run unclaimed (ww_log w) (contract_of w)"
  shows "contract_run unclaimed (ww_log (work_step fr trip p x w)) (contract_of (work_step fr trip p x w))"
proof -
  have "(ww_log (work_step fr trip p x w) = ww_log w \<and> contract_of (work_step fr trip p x w) = contract_of w)
    \<or> (\<exists>e. ww_log (work_step fr trip p x w) = ww_log w @ [e]
         \<and> contract_step (contract_of w) e (contract_of (work_step fr trip p x w)))"
    by (rule refines_contract [OF assms(1,2)])
  with assms(3) show ?thesis by (auto intro: contract_run.more)
qed

lemma working_contract_run: "working fr trip p w \<Longrightarrow> contract_run unclaimed (ww_log w) (contract_of w)"
proof (induction rule: working.induct)
  case (start s)
  show ?case by (simp add: fresh_world_def contract_of_def unclaimed_def contract_run.idle [unfolded unclaimed_def])
qed (rule refinement_step)

fun claims :: "entry list \<Rightarrow> nat list" where
  "claims [] = []"
| "claims (Claimed f # es) = f # claims es"
| "claims (Committed f # es) = claims es"
| "claims (Processed f # es) = claims es"

lemma claims_append [simp]: "claims (es @ fs) = claims es @ claims fs"
  by (induction es rule: claims.induct) simp_all

text \<open>An entry of the log, given what was logged before and after it.\<close>

definition entry_ok :: "entry list \<Rightarrow> entry \<Rightarrow> entry list \<Rightarrow> bool" where
  "entry_ok before e later =
     (case e of
        Claimed f \<Rightarrow> list_all (\<lambda>g. g < f) (claims before)
      | Committed f \<Rightarrow> claims before \<noteq> [] \<and> last (claims before) = f
      | Processed f \<Rightarrow> claims before \<noteq> [] \<and> last (claims before) = f \<and> later = [])"

definition log_summary :: "contract \<Rightarrow> entry list \<Rightarrow> bool" where
  "log_summary c es \<longleftrightarrow>
     (\<forall>before e later. es = before @ e # later \<longrightarrow> entry_ok before e later)
   \<and> (if claims es = [] then ct_owner c = 0 else ct_owner c = last (claims es))
   \<and> list_all (\<lambda>g. g \<le> ct_owner c) (claims es)
   \<and> (\<not> ct_done c \<longrightarrow> list_all (\<lambda>e. case e of Processed f \<Rightarrow> False | _ \<Rightarrow> True) es)"

lemma contract_run_summary: "contract_run unclaimed es c \<Longrightarrow> log_summary c es"
proof (induction rule: contract_run.induct)
  case idle
  show ?case by (simp add: log_summary_def unclaimed_def)
next
  case (more es c e c')
  have open_c: "\<not> ct_done c" using more.hyps(2) by (auto elim: contract_step.cases)
  have new: "entry_ok es e []"
    using more.hyps(2) more.IH
    by (cases rule: contract_step.cases)
       (auto simp: entry_ok_def log_summary_def list_all_iff split: if_splits)
  have old: "entry_ok before d (later @ [e])" if "es = before @ d # later" for before d later
  proof -
    have "entry_ok before d later" "case d of Processed f \<Rightarrow> False | _ \<Rightarrow> True"
      using more.IH that open_c by (auto simp: log_summary_def)
    then show ?thesis by (auto simp: entry_ok_def split: entry.splits)
  qed
  have "entry_ok before d later" if "es @ [e] = before @ d # later" for before d later
    using that new old by (cases later rule: rev_cases) auto
  moreover have "(if claims (es @ [e]) = [] then ct_owner c' = 0 else ct_owner c' = last (claims (es @ [e])))
      \<and> list_all (\<lambda>g. g \<le> ct_owner c') (claims (es @ [e]))"
    using more.hyps(2) more.IH
    by (cases rule: contract_step.cases) (auto simp: log_summary_def list_all_iff split: if_splits)
  moreover have "\<not> ct_done c' \<longrightarrow> list_all (\<lambda>e. case e of Processed f \<Rightarrow> False | _ \<Rightarrow> True) (es @ [e])"
    using more.hyps(2) more.IH open_c
    by (cases rule: contract_step.cases) (auto simp: log_summary_def)
  ultimately show ?case by (simp add: log_summary_def)
qed

text \<open>
  C6: Whatever workers do and whenever they die, the event is completed at most once and nothing is
  committed after that; every commit is by the claimant that holds the greatest number so far, so a
  worker that lost its lease to another one commits nothing more.
\<close>

theorem event_processed_once:
  assumes "working fr trip p w" and "ww_log w = before @ e # later"
  shows "case e of
      Claimed f \<Rightarrow> list_all (\<lambda>g. g < f) (claims before)
    | Committed f \<Rightarrow> claims before \<noteq> [] \<and> last (claims before) = f
    | Processed f \<Rightarrow> claims before \<noteq> [] \<and> last (claims before) = f \<and> later = []"
  using contract_run_summary [OF working_contract_run [OF assms(1)]] assms(2)
  unfolding log_summary_def entry_ok_def by blast

section \<open>Progress\<close>

definition full_pass :: "nat \<Rightarrow> lock_env \<Rightarrow> rat \<Rightarrow> int \<Rightarrow> work_action list" where
  "full_pass a e wall attempt =
     [Begin a e wall attempt, Load a, Check a (snd (snd (snd e))) wall, Claim a, Commit a wall, Finish_event a wall]"

lemma owner_after_acquire:
  assumes "acquire_call (ttl, tok, fresh, now) n s = (Some t, s')" and "0 < ttl"
  shows "is_lock_owner n t now s'"
  using assms by (auto simp: acquire_lock_def is_lock_owner_def Let_def split: if_splits)

lemma progress:
  assumes "working fr trip p w" and "jr_status (ww_job w) \<noteq> Job_processed" and "ww_active w a = None"
    and "lock_env_ok e" and "0 < fst e" and "fst (acquire_call e (trip_lock trip) (ww_store w)) \<noteq> None"
  shows "jr_status (ww_job (fold (work_step fr trip p) (full_pass a e wall attempt) w)) = Job_processed"
proof -
  obtain ttl tok fresh now where e: "e = (ttl, tok, fresh, now)" by (cases e)
  obtain t s where acq: "acquire_call e (trip_lock trip) (ww_store w) = (Some t, s)"
    using assms(6) by (cases "acquire_call e (trip_lock trip) (ww_store w)") auto
  obtain i where i: "lock_fencing_token t = Inr i" "nat i = Suc (rs_lock_fences (ww_store w) (trip_lock trip))"
    using granted_fence [OF acq assms(4)] by blast
  have low: "jr_fence (ww_job w) < nat i"
    using working_fences_ok [OF assms(1)] i(2) by (simp add: fences_ok_def)
  have owner: "is_lock_owner (trip_lock trip) t now s"
    using owner_after_acquire acq assms(5) unfolding e by simp
  have b: "work_step fr trip p (Begin a e wall attempt) w = w\<lparr>ww_store := s, ww_active := (ww_active w)(a \<mapsto>
      \<lparr>av_token = t, av_fence = nat i, av_lost = False, av_stage = Began, av_attempt = attempt\<rparr>)\<rparr>"
    using assms(3) acq i(1) by (simp add: begin_work_def)
  show ?thesis
    unfolding full_pass_def fold_simps comp_def b using assms(2) low owner
    by (simp add: e load_event_def set_stage_def check_owner_def claim_fence_def commit_work_def
        commit_refused_def finish_work_def leave_def)
qed

text \<open>
  C29: A dead worker never blocks the event for good: in any reachable state, once the lock can be had,
  a new worker that gets it and is not disturbed completes the event, whatever earlier workers left
  behind.
\<close>

theorem later_worker_completes:
  assumes "working fr trip p w" and "jr_status (ww_job w) \<noteq> Job_processed" and "ww_active w a = None"
    and "lock_env_ok e" and "0 < fst e" and "fst (acquire_call e (trip_lock trip) (ww_store w)) \<noteq> None"
  shows "jr_status (ww_job (fold (work_step fr trip p) (full_pass a e wall attempt) w)) = Job_processed"
  using assms by (rule progress)

section \<open>Example: a worker dies after its claim\<close>

definition work_store :: store where
  "work_store = (case new_store 10 1000 10 of Inr s \<Rightarrow> s)"

abbreviation example_step :: "work_action \<Rightarrow> work_world \<Rightarrow> work_world" where
  "example_step \<equiv> work_step (\<lambda>_. []) 7 []"

definition first_worker :: "work_action list" where
  "first_worker = [Begin 0 (30, None, ''a'', 0) 0 0, Load 0, Check 0 1 1, Claim 0, Die 0]"

definition abandoned_world :: work_world where
  "abandoned_world = fold example_step first_worker (fresh_world work_store)"

definition second_worker :: "work_action list" where
  "second_worker = full_pass 1 (30, None, ''b'', 40) 40 1"

lemma working_fold:
  "working fr trip p w \<Longrightarrow> list_all action_ok xs \<Longrightarrow> working fr trip p (fold (work_step fr trip p) xs w)"
  by (induction xs arbitrary: w) (auto intro: working.step)

lemma abandoned_working: "working (\<lambda>_. []) 7 [] abandoned_world"
  unfolding abandoned_world_def
  by (rule working_fold [OF working.start]) (simp add: first_worker_def)

lemma abandoned_facts:
  "ww_log abandoned_world = [Claimed 1] \<and> jr_status (ww_job abandoned_world) = Job_processing
     \<and> ww_active abandoned_world 1 = None
     \<and> fst (acquire_call (30, None, ''b'', 40) (trip_lock 7) (ww_store abandoned_world)) \<noteq> None"
  by code_simp

lemma completed_log:
  "ww_log (fold example_step second_worker abandoned_world) = [Claimed 1, Claimed 2, Committed 2] @ Processed 2 # []"
  by code_simp

theorem workers_refine_contract_witness:
  "(\<exists>e. contract_step (contract_of (fresh_world work_store)) e
        (contract_of (example_step (Begin 0 (30, None, ''a'', 0) 0 0) (fresh_world work_store))))
   \<or> contract_of (example_step (Begin 0 (30, None, ''a'', 0) 0 0) (fresh_world work_store))
       = contract_of (fresh_world work_store)"
  using workers_refine_contract [OF working.start, of "Begin 0 (30, None, ''a'', 0) 0 0"] by (metis action_ok.simps(1) lock_env_ok.simps list.distinct(1))

theorem event_processed_once_witness:
  "working (\<lambda>_. []) 7 [] (fold example_step second_worker abandoned_world)
   \<and> last (claims [Claimed 1, Claimed 2, Committed 2]) = 2"
proof -
  have w: "working (\<lambda>_. []) 7 [] (fold example_step second_worker abandoned_world)"
    by (rule working_fold [OF abandoned_working]) (simp add: second_worker_def full_pass_def)
  from event_processed_once [OF w completed_log] w show ?thesis by simp
qed

theorem later_worker_completes_witness:
  "jr_status (ww_job (fold example_step second_worker abandoned_world)) = Job_processed"
  unfolding second_worker_def
  by (rule later_worker_completes [OF abandoned_working]) (use abandoned_facts in auto)

end
