(* ===== verification/Task_Graph.thy ===== *)
theory Task_Graph
  imports Agent_Runtime Replanning
begin

text \<open>
  The task graph of a planning workflow: its schema and validator (\<open>AgentPlanStep\<close> and
  \<open>AgentExecutionPlan\<close> of \<open>schemas/agent_artifacts.py\<close>), the graph that the supervisor builds from
  the intent and its recovery decisions (\<open>services/agents/supervisor_agent.py\<close>), and the rounds in
  which the orchestrator executes it (\<open>services/agent_orchestrator.py\<close>). The stages themselves are
  a parameter here: what one round of stages, started together, gives.
\<close>

section \<open>Steps and plans\<close>

datatype node_status =
    Nd_pending | Nd_running | Nd_retrying | Nd_succeeded | Nd_failed | Nd_blocked | Nd_skipped

datatype execution_kind = Kind_agent | Kind_stage

record plan_step =
  gs_id :: string
  gs_agent :: agent_type
  gs_kind :: execution_kind
  gs_responsibility :: string
  gs_status :: node_status
  gs_depends :: "string list"
  gs_input :: string
  gs_output :: string
  gs_refs :: "string list"
  gs_schema :: "string option"
  gs_budget :: "agent_budget option"
  gs_attempts :: int
  gs_version :: int
  gs_required :: bool
  gs_trigger :: "string option"

datatype plan_kind = Standard_trip | Safety_sensitive_trip

record execution_plan =
  xp_kind :: plan_kind
  xp_steps :: "plan_step list"
  xp_rationale :: "string list"
  xp_skipped :: "string list"

text \<open>\<open>validate_task_graph\<close>: what it raises, if it does.\<close>

datatype graph_error = Duplicate_step string | Unknown_dependency string

fun check_graph :: "string list \<Rightarrow> plan_step list \<Rightarrow> graph_error option" where
  "check_graph seen [] = None"
| "check_graph seen (s # ss) =
     (if gs_id s \<in> set seen then Some (Duplicate_step (gs_id s))
      else if \<not> set (gs_depends s) \<subseteq> set seen then Some (Unknown_dependency (gs_id s))
      else check_graph (seen @ [gs_id s]) ss)"

definition text_within :: "nat \<Rightarrow> string \<Rightarrow> bool" where
  "text_within n s \<longleftrightarrow> 1 \<le> cp_length s \<and> cp_length s \<le> n"

definition step_fields_ok :: "plan_step \<Rightarrow> bool" where
  "step_fields_ok s \<longleftrightarrow>
     text_within 80 (gs_id s) \<and> text_within 120 (gs_responsibility s) \<and> length (gs_depends s) \<le> 10
   \<and> text_within 80 (gs_input s) \<and> text_within 80 (gs_output s) \<and> length (gs_refs s) \<le> 20
   \<and> (case gs_schema s of None \<Rightarrow> True | Some t \<Rightarrow> cp_length t \<le> 120)
   \<and> 0 \<le> gs_attempts s \<and> gs_attempts s \<le> 10 \<and> 1 \<le> gs_version s
   \<and> (case gs_trigger s of None \<Rightarrow> True | Some t \<Rightarrow> cp_length t \<le> 300)"

definition plan_ok :: "execution_plan \<Rightarrow> bool" where
  "plan_ok p \<longleftrightarrow>
     1 \<le> length (xp_steps p) \<and> length (xp_steps p) \<le> 10
   \<and> list_all step_fields_ok (xp_steps p) \<and> check_graph [] (xp_steps p) = None
   \<and> length (xp_rationale p) \<le> 10 \<and> length (xp_skipped p) \<le> 10"

section \<open>The supervisor's graph\<close>

datatype workflow_mode = Mode_off | Mode_shadow | Mode_enforce

fun mode_value :: "workflow_mode \<Rightarrow> string" where
  "mode_value Mode_off = ''off''"
| "mode_value Mode_shadow = ''shadow''"
| "mode_value Mode_enforce = ''enforce''"

text \<open>
  \<open>PlanningIntent\<close> as the workflow reads it: the members of \<open>plan_intent\<close>, the rest of the party
  profile and the field and reason of every uncertain constraint.
\<close>

record workflow_intent = plan_intent +
  wi_elderly :: int
  wi_children :: int
  wi_uncertain :: "(string \<times> string) list"

definition safety_reasons :: "'a workflow_intent_scheme \<Rightarrow> string list" where
  "safety_reasons i =
     only_if (0 < wi_elderly i) ''elderly_party''
   @ only_if (0 < hc_wheelchair_users (in_hard i) \<or> hc_accessible (in_hard i)) ''accessibility_required''
   @ only_if (pp_minimize_walking (in_preferences i) \<or> hc_max_walking (in_hard i) \<noteq> None) ''walking_sensitive''
   @ only_if (pp_style (in_preferences i) = Relaxed) ''relaxed_travel_style''"

definition weather_tokens :: "string list" where
  "weather_tokens = [''weather'', ''rain'', ''storm'', ''precipitation'',
     utf8 [229, 164, 169, 230, 176, 148], utf8 [228, 184, 139, 233, 155, 168], utf8 [233, 155, 168]]"

text \<open>\<open>fold_case\<close> is \<open>str.casefold\<close>.\<close>

definition weather_required :: "(string \<Rightarrow> string) \<Rightarrow> 'a workflow_intent_scheme \<Rightarrow> bool" where
  "weather_required fold_case i \<longleftrightarrow>
     list_ex (\<lambda>(f, r). list_ex (\<lambda>t. contains t (fold_case (f @ r))) weather_tokens) (wi_uncertain i)"

definition comma_join :: "string list \<Rightarrow> string" where
  "comma_join xs = (case xs of [] \<Rightarrow> [] | y # ys \<Rightarrow> y @ concat (map (\<lambda>z. CHR '','' # z) ys))"

definition node ::
  "string \<Rightarrow> agent_type \<Rightarrow> execution_kind \<Rightarrow> string \<Rightarrow> string list \<Rightarrow> string \<Rightarrow> string \<Rightarrow> string
     \<Rightarrow> int \<times> int \<Rightarrow> string \<Rightarrow> plan_step" where
  "node i a k duty deps inp out schema tokens trigger =
     \<lparr>gs_id = i, gs_agent = a, gs_kind = k, gs_responsibility = duty, gs_status = Nd_pending,
      gs_depends = deps, gs_input = inp, gs_output = out, gs_refs = [], gs_schema = Some schema,
      gs_budget = Some \<lparr>bu_steps = 1, bu_input_tokens = fst tokens, bu_output_tokens = snd tokens,
                        bu_cost = 3 / 100\<rparr>,
      gs_attempts = 0, gs_version = 1, gs_required = True, gs_trigger = Some trigger\<rparr>"

definition plan_for :: "string list \<Rightarrow> bool \<Rightarrow> workflow_mode \<Rightarrow> execution_plan" where
  "plan_for reasons weather mode =
     (let safe = (reasons \<noteq> []);
          critic = (mode \<noteq> Mode_off)
      in \<lparr>xp_kind = (if safe then Safety_sensitive_trip else Standard_trip),
          xp_steps =
            [node ''intent'' Ag_intent Kind_agent ''parse_intent_and_constraints'' []
               ''planning_request'' ''intent_artifact'' ''PlanningIntent'' (4000, 800) ''always_required'',
             node ''search'' Ag_search Kind_agent ''recall_provider_poi_candidates'' [''intent'']
               ''intent_artifact'' ''search_artifact'' ''CandidateSet'' (2000, 800) ''verified_poi_required'']
            @ only_if weather
               (node ''weather'' Ag_safety Kind_stage ''query_weather_risk_for_time_windows'' [''intent'']
                  ''intent_artifact'' ''weather_evidence'' ''WeatherEvidence'' (1000, 400)
                  ''weather_constraint_detected'')
            @ only_if safe
               (node ''safety_check'' Ag_safety Kind_agent ''check_party_accessibility_and_walking_risk''
                  ([''intent'', ''search''] @ only_if weather ''weather'')
                  ''search_artifact'' ''safety_report'' ''SafetyCheckReport'' (2000, 800) (comma_join reasons))
            @ [node ''planner'' Ag_planner Kind_agent ''solve_route_with_hard_constraints''
                 ([''search''] @ only_if safe ''safety_check'' @ only_if (weather \<and> \<not> safe) ''weather'')
                 (if safe then ''safety_report'' else ''search_artifact'') ''plan_candidate'' ''RouteSolution''
                 (2000, 800) ''candidate_route_required'']
            @ only_if critic
               (node ''critic'' Ag_critic Kind_agent ''review_plan_evidence_and_preferences'' [''planner'']
                  ''plan_candidate'' ''review_report'' ''ReviewReport'' (4000, 800)
                  (''critic_mode:'' @ mode_value mode))
            @ [node ''final_answer'' Ag_supervisor Kind_agent ''assemble_final_answer''
                 (if critic then [''critic''] else [''planner''])
                 ''plan_candidate'' ''final_answer'' ''AIPlanResult'' (1000, 400) ''always_required''],
          xp_rationale = (if safe then reasons else [''standard_trip_without_extra_safety_gate'']),
          xp_skipped = only_if (\<not> critic) ''critic'' @ only_if (\<not> safe) ''safety_check''
            @ only_if (\<not> weather) ''weather''\<rparr>)"

definition build_execution_plan ::
  "(string \<Rightarrow> string) \<Rightarrow> 'a workflow_intent_scheme \<Rightarrow> workflow_mode \<Rightarrow> execution_plan" where
  "build_execution_plan fold_case i mode = plan_for (safety_reasons i) (weather_required fold_case i) mode"

section \<open>Recovery decisions\<close>

datatype recovery_action = Rc_retry | Rc_cached | Rc_unavailable | Rc_clarify | Rc_fail

record recovery_decision =
  rv_stage :: string
  rv_action :: recovery_action
  rv_attempt :: int
  rv_max_attempts :: int
  rv_error :: string
  rv_reason :: string
  rv_timeout :: "rat option"
  rv_source :: "string option"

definition recovery_ok :: "recovery_decision \<Rightarrow> bool" where
  "recovery_ok d \<longleftrightarrow>
     text_within 80 (rv_stage d) \<and> 1 \<le> rv_attempt d \<and> rv_attempt d \<le> 10
   \<and> 1 \<le> rv_max_attempts d \<and> rv_max_attempts d \<le> 10 \<and> text_within 120 (rv_error d)
   \<and> text_within 500 (rv_reason d)
   \<and> (case rv_timeout d of None \<Rightarrow> True | Some t \<Rightarrow> 0 < t \<and> t \<le> 120)
   \<and> (case rv_source d of None \<Rightarrow> True | Some s \<Rightarrow> cp_length s \<le> 80)"

definition recovery_choice :: "string \<Rightarrow> int \<Rightarrow> int \<Rightarrow> bool \<Rightarrow> recovery_action \<times> string" where
  "recovery_choice stage attempt max_attempts available =
     (if stage \<in> {''search'', ''poi_search''} \<and> attempt < max_attempts
      then (Rc_retry, ''transient search failure; bounded retry remains'')
      else if stage \<in> {''search'', ''poi_search''} \<and> available
      then (Rc_cached, ''retry budget exhausted; using provider-verified cached POIs'')
      else if stage \<in> {''search'', ''poi_search''}
      then (Rc_unavailable, ''retry budget exhausted and no verified cache is available'')
      else if available then (Rc_cached, ''using an available deterministic fallback'')
      else (Rc_clarify, ''no safe automatic recovery is available''))"

definition recover_decision ::
  "string \<Rightarrow> string \<Rightarrow> int \<Rightarrow> int \<Rightarrow> rat option \<Rightarrow> bool \<Rightarrow> string option \<Rightarrow> recovery_decision" where
  "recover_decision stage error attempt max_attempts timeout available source =
     (case recovery_choice stage attempt max_attempts available of (action, reason) \<Rightarrow>
       \<lparr>rv_stage = stage, rv_action = action, rv_attempt = attempt, rv_max_attempts = max_attempts,
        rv_error = error, rv_reason = reason, rv_timeout = timeout,
        rv_source = (if available then source else None)\<rparr>)"

section \<open>The status of a node\<close>

definition find_step :: "string \<Rightarrow> execution_plan \<Rightarrow> plan_step option" where
  "find_step i p = List.find (\<lambda>s. gs_id s = i) (xp_steps p)"

fun update_first :: "('a \<Rightarrow> bool) \<Rightarrow> ('a \<Rightarrow> 'a) \<Rightarrow> 'a list \<Rightarrow> 'a list" where
  "update_first P f [] = []"
| "update_first P f (x # xs) = (if P x then f x # xs else x # update_first P f xs)"

text \<open>\<open>_set_plan_status\<close>: a step that is not in the graph is ignored.\<close>

definition set_plan_status :: "string \<Rightarrow> node_status \<Rightarrow> bool \<Rightarrow> execution_plan \<Rightarrow> execution_plan" where
  "set_plan_status i st begins p =
     p\<lparr>xp_steps := update_first (\<lambda>s. gs_id s = i)
        (\<lambda>s. s\<lparr>gs_status := st, gs_attempts := gs_attempts s + (if begins then 1 else 0)\<rparr>) (xp_steps p)\<rparr>"

definition safety_required :: "execution_plan option \<Rightarrow> bool" where
  "safety_required p \<longleftrightarrow>
     (case p of None \<Rightarrow> False | Some q \<Rightarrow> list_ex (\<lambda>s. gs_id s = ''safety_check'') (xp_steps q))"

section \<open>Executing the graph\<close>

definition protocol_failure :: "string \<Rightarrow> seen_exception" where
  "protocol_failure msg =
     \<lparr>se_text = msg, se_class = ''AgentProtocolError'', se_is_timeout = False, se_is_validation = False\<rparr>"

definition outside_subgraph :: "string list" where
  "outside_subgraph = [''intent'', ''critic'', ''final_answer'']"

definition subgraph :: "execution_plan \<Rightarrow> plan_step list" where
  "subgraph p = filter (\<lambda>s. gs_id s \<notin> set outside_subgraph) (xp_steps p)"

definition reset_subgraph :: "execution_plan \<Rightarrow> execution_plan" where
  "reset_subgraph p =
     p\<lparr>xp_steps := map (\<lambda>s. if gs_id s \<in> set outside_subgraph then s
         else s\<lparr>gs_status := if gs_attempts s \<noteq> 0 then Nd_retrying else Nd_pending\<rparr>) (xp_steps p)\<rparr>"

definition ready_steps :: "execution_plan \<Rightarrow> string list \<Rightarrow> string list \<Rightarrow> string list" where
  "ready_steps p waiting finished =
     map gs_id (filter (\<lambda>s. gs_id s \<in> set waiting \<and> set (gs_depends s) \<subseteq> set finished) (subgraph p))"

definition set_all :: "string list \<Rightarrow> node_status \<Rightarrow> bool \<Rightarrow> execution_plan \<Rightarrow> execution_plan" where
  "set_all ids st begins p = fold (\<lambda>i. set_plan_status i st begins) ids p"

text \<open>
  The loop over the results of a round: failures mark their node, the first one is kept; the
  outputs of the others are added.
\<close>

fun settle ::
  "(string \<Rightarrow> seen_exception + 'o) \<Rightarrow> string list \<Rightarrow> execution_plan \<times> (string, 'o) dict \<times> seen_exception option
     \<Rightarrow> execution_plan \<times> (string, 'o) dict \<times> seen_exception option" where
  "settle results [] acc = acc"
| "settle results (i # ids) (p, outs, failure) =
     (case results i of
        Inl e \<Rightarrow> settle results ids
                  (set_plan_status i Nd_failed False p, outs, if failure = None then Some e else failure)
      | Inr o_val \<Rightarrow> settle results ids (set_plan_status i Nd_succeeded False p, dset i o_val outs, failure))"

text \<open>
  One round: \<open>gather\<close> is what \<open>asyncio.gather\<close> of the ready stages gives, each its output or the
  exception it raised, and what they did to the world; \<open>save\<close> is a checkpoint.
\<close>

type_synonym ('o, 'w) gather =
  "execution_plan \<Rightarrow> string list \<Rightarrow> (string, 'o) dict \<Rightarrow> 'w \<Rightarrow> (string \<Rightarrow> seen_exception + 'o) \<times> 'w"

function run_rounds ::
  "('o, 'w) gather \<Rightarrow> (execution_plan \<Rightarrow> 'w \<Rightarrow> 'w) \<Rightarrow> string list \<Rightarrow> string list \<Rightarrow> (string, 'o) dict
     \<Rightarrow> execution_plan \<Rightarrow> 'w \<Rightarrow> (seen_exception + (string, 'o) dict) \<times> execution_plan \<times> 'w" where
  "run_rounds gather save waiting finished outs p w =
     (if waiting = [] then (Inr outs, p, w)
      else
        let ready = ready_steps p waiting finished
        in if ready = []
           then (Inl (protocol_failure ''Supervisor task graph cannot make progress''),
                 set_all waiting Nd_blocked False p, w)
           else
             let p1 = set_all ready Nd_running True p;
                 w1 = save p1 w;
                 (results, w2) = gather p1 ready outs w1;
                 (p2, outs2, failure) = settle results ready (p1, outs, None);
                 waiting2 = filter (\<lambda>i. i \<notin> set ready) waiting
             in (case failure of
                   Some e \<Rightarrow> (let p3 = set_all waiting2 Nd_blocked False p2 in (Inl e, p3, save p3 w2))
                 | None \<Rightarrow> run_rounds gather save waiting2 (finished @ ready) outs2 p2 (save p2 w2)))"
  by pat_completeness auto

lemma ready_steps_waiting: "set (ready_steps p waiting finished) \<subseteq> set waiting"
  by (auto simp: ready_steps_def)

lemma ready_progress:
  assumes "ready_steps p waiting finished \<noteq> []"
  shows "length (filter (\<lambda>i. i \<notin> set (ready_steps p waiting finished)) waiting) < length waiting"
proof -
  obtain i where "i \<in> set (ready_steps p waiting finished)"
    using assms by (meson last_in_set)
  then show ?thesis
    using ready_steps_waiting [of p waiting finished]
    by (auto intro!: length_filter_less [of i])
qed

termination run_rounds
  by (relation "measure (\<lambda>(gather, save, waiting, finished, outs, p, w). length waiting)")
    (auto intro: ready_progress)

declare run_rounds.simps [simp del]

definition execute_planning_stages ::
  "('o \<Rightarrow> 'r option) \<Rightarrow> ('o, 'w) gather \<Rightarrow> (execution_plan \<Rightarrow> 'w \<Rightarrow> 'w) \<Rightarrow> 'o \<Rightarrow> execution_plan \<Rightarrow> 'w
     \<Rightarrow> (seen_exception + 'r) \<times> execution_plan \<times> 'w" where
  "execute_planning_stages is_plan gather save intent p w =
     (let ids = map gs_id (xp_steps p)
      in if \<not> (''search'' \<in> set ids \<and> ''planner'' \<in> set ids)
         then (Inl (protocol_failure ''Supervisor task graph is missing required planning stages''), p, w)
         else
           let p1 = reset_subgraph p;
               (outcome, p2, w2) = run_rounds gather save (map gs_id (subgraph p1)) [''intent'']
                   [(''intent'', intent)] p1 (save p1 w)
           in case outcome of
                Inl e \<Rightarrow> (Inl e, p2, w2)
              | Inr outs \<Rightarrow>
                  (case Option.bind (dget outs ''planner'') is_plan of
                     None \<Rightarrow> (Inl (protocol_failure ''Supervisor task graph did not produce a planner result''), p2, w2)
                   | Some r \<Rightarrow> (Inr r, p2, w2)))"

end
