(* ===== verification/Task_Graph_Properties.thy ===== *)
theory Task_Graph_Properties
  imports Task_Graph
begin

text \<open>
  The supervisor's graph is valid whatever the intent, and its execution: every round starts only
  stages whose dependencies have finished, no stage starts twice, and the rounds never get stuck.
\<close>

section \<open>The graph that is built\<close>

definition reason_names :: "string list" where
  "reason_names = [''elderly_party'', ''accessibility_required'', ''walking_sensitive'', ''relaxed_travel_style'']"

lemma safety_reasons_subseq: "safety_reasons i \<in> set (subseqs reason_names)"
  unfolding safety_reasons_def reason_names_def only_if_def by simp

lemma cp_length_comma_join:
  "cp_length (comma_join xs) \<le> sum_list (map cp_length xs) + length xs"
proof -
  have tail: "cp_length (concat (map (\<lambda>z. CHR '','' # z) ys)) \<le> sum_list (map cp_length ys) + length ys" for ys
    by (induction ys) (auto simp: cp_length_def is_cont_def)
  show ?thesis
    using tail by (cases xs) (auto simp: comma_join_def cp_length_def is_cont_def intro: le_SucI)
qed

lemma reasons_short:
  assumes "rs \<in> set (subseqs reason_names)"
  shows "cp_length (comma_join rs) \<le> 300" "length rs \<le> 4"
  using assms cp_length_comma_join [of rs]
  by (auto simp: reason_names_def cp_length_def is_cont_def)

lemma check_graph_plan_for: "check_graph [] (xp_steps (plan_for rs w m)) = None"
  by (cases "rs = []"; cases w; cases "m = Mode_off")
    (simp_all add: plan_for_def only_if_def node_def)

lemma plan_for_ok:
  assumes "rs \<in> set (subseqs reason_names)"
  shows "plan_ok (plan_for rs w m)"
proof -
  have "list_all step_fields_ok (xp_steps (plan_for rs w m))"
    using reasons_short [OF assms]
    by (cases m)
      (simp_all add: plan_for_def only_if_def node_def step_fields_ok_def text_within_def cp_length_def is_cont_def)
  then show ?thesis
    using reasons_short [OF assms] check_graph_plan_for [of rs w m]
    by (auto simp: plan_ok_def plan_for_def only_if_def)
qed

lemma build_ok: "plan_ok (build_execution_plan fold_case i mode)"
  unfolding build_execution_plan_def by (rule plan_for_ok [OF safety_reasons_subseq])

section \<open>Statuses\<close>

definition skeleton :: "execution_plan \<Rightarrow> (string \<times> string list) list" where
  "skeleton p = map (\<lambda>s. (gs_id s, gs_depends s)) (xp_steps p)"

definition set_step :: "node_status \<Rightarrow> bool \<Rightarrow> plan_step \<Rightarrow> plan_step" where
  "set_step st begins s = s\<lparr>gs_status := st, gs_attempts := gs_attempts s + (if begins then 1 else 0)\<rparr>"

lemma set_step_simps [simp]:
  "gs_id (set_step st b s) = gs_id s" "gs_depends (set_step st b s) = gs_depends s"
  "gs_status (set_step st b s) = st"
  "gs_attempts (set_step st b s) = gs_attempts s + (if b then 1 else 0)"
  by (simp_all add: set_step_def)

lemma set_plan_status_alt:
  "set_plan_status i st b p = p\<lparr>xp_steps := update_first (\<lambda>s. gs_id s = i) (set_step st b) (xp_steps p)\<rparr>"
  by (simp add: set_plan_status_def set_step_def [abs_def])

lemma map_update_first: "(\<And>x. g (f x) = g x) \<Longrightarrow> map g (update_first P f xs) = map g xs"
  by (induction xs) auto

lemma find_update_first:
  "List.find (\<lambda>s. gs_id s = j) (update_first (\<lambda>s. gs_id s = i) (set_step st b) xs)
     = (if j = i then map_option (set_step st b) (List.find (\<lambda>s. gs_id s = i) xs)
        else List.find (\<lambda>s. gs_id s = j) xs)"
  by (induction xs) auto

lemma skeleton_set_plan_status [simp]: "skeleton (set_plan_status i st b p) = skeleton p"
  by (simp add: skeleton_def set_plan_status_alt map_update_first)

lemma find_set_plan_status:
  "find_step j (set_plan_status i st b p)
     = (if j = i then map_option (set_step st b) (find_step i p) else find_step j p)"
  by (simp add: find_step_def set_plan_status_alt find_update_first)

lemma skeleton_set_all [simp]: "skeleton (set_all ids st b p) = skeleton p"
  unfolding set_all_def by (induction ids arbitrary: p) auto

lemma find_set_all:
  "distinct ids \<Longrightarrow> find_step j (set_all ids st b p)
     = (if j \<in> set ids then map_option (set_step st b) (find_step j p) else find_step j p)"
  unfolding set_all_def by (induction ids arbitrary: p) (auto simp: find_set_plan_status)

lemma skeleton_settle:
  "settle results ids (p, outs, f) = (p2, outs2, f2) \<Longrightarrow> skeleton p2 = skeleton p"
  by (induction ids arbitrary: p outs f) (auto split: sum.splits)

definition outcome_status :: "'e + 'o \<Rightarrow> node_status" where
  "outcome_status r = (case r of Inl _ \<Rightarrow> Nd_failed | Inr _ \<Rightarrow> Nd_succeeded)"

lemma find_settle:
  "settle results ids (p, outs, f) = (p2, outs2, f2) \<Longrightarrow> distinct ids \<Longrightarrow>
   find_step j p2 = (if j \<in> set ids then map_option (set_step (outcome_status (results j)) False) (find_step j p)
                     else find_step j p)"
  by (induction ids arbitrary: p outs f)
    (auto simp: find_set_plan_status outcome_status_def split: sum.splits)

lemma outs_settle_other:
  "settle results ids (p, outs, f) = (p2, outs2, f2) \<Longrightarrow> i \<notin> set ids \<Longrightarrow> dget outs2 i = dget outs i"
  by (induction ids arbitrary: p outs f) (auto split: sum.splits)

lemma failure_settle:
  "settle results ids (p, outs, f) = (p2, outs2, f2) \<Longrightarrow>
   f2 = None \<longleftrightarrow> f = None \<and> (\<forall>i \<in> set ids. \<exists>v. results i = Inr v)"
  by (induction ids arbitrary: p outs f) (auto split: sum.splits if_splits)

lemma failure_settle_from:
  "settle results ids (p, outs, None) = (p2, outs2, Some e) \<Longrightarrow> \<exists>i \<in> set ids. results i = Inl e"
proof -
  have "settle results ids (p, outs, f) = (p2, outs2, Some e) \<Longrightarrow> f \<noteq> Some e \<Longrightarrow>
     (\<exists>i \<in> set ids. results i = Inl e)" for f
    by (induction ids arbitrary: p outs f) (auto split: sum.splits if_splits)
  then show "settle results ids (p, outs, None) = (p2, outs2, Some e) \<Longrightarrow> \<exists>i \<in> set ids. results i = Inl e"
    by blast
qed

lemma output_settle:
  "settle results ids (p, outs, f) = (p2, outs2, f2) \<Longrightarrow> distinct ids \<Longrightarrow> i \<in> set ids \<Longrightarrow> results i = Inr v \<Longrightarrow>
   dget outs2 i = Some v"
  by (induction ids arbitrary: p outs f) (auto split: sum.splits dest: outs_settle_other)

lemma ready_skeleton:
  "ready_steps p waiting finished =
     map fst (filter (\<lambda>(i, deps). i \<in> set waiting \<and> set deps \<subseteq> set finished)
       (filter (\<lambda>(i, deps). i \<notin> set outside_subgraph) (skeleton p)))"
  unfolding ready_steps_def subgraph_def skeleton_def
  by (induction "xp_steps p") (auto simp: filter_map comp_def split_def)

section \<open>Progress\<close>

definition late_nodes :: "string set" where
  "late_nodes = {''critic'', ''final_answer''}"

text \<open>No planning stage waits for the critic or the final answer.\<close>

definition stages_closed :: "execution_plan \<Rightarrow> bool" where
  "stages_closed p \<longleftrightarrow> (\<forall>s \<in> set (subgraph p). set (gs_depends s) \<inter> late_nodes = {})"

lemma in_subgraph_iff: "s \<in> set (subgraph p) \<longleftrightarrow> s \<in> set (xp_steps p) \<and> gs_id s \<notin> set outside_subgraph"
  by (auto simp: subgraph_def)

lemma graph_progress:
  assumes "check_graph seen ss = None" "set seen \<subseteq> set finished \<union> late_nodes" "''intent'' \<in> set finished"
    and "\<forall>s \<in> set ss. gs_id s \<notin> set outside_subgraph \<longrightarrow>
          (gs_id s \<in> set waiting \<or> gs_id s \<in> set finished) \<and> set (gs_depends s) \<inter> late_nodes = {}"
    and "\<exists>s \<in> set ss. gs_id s \<notin> set outside_subgraph \<and> gs_id s \<in> set waiting"
  shows "\<exists>s \<in> set ss. gs_id s \<notin> set outside_subgraph \<and> gs_id s \<in> set waiting \<and> set (gs_depends s) \<subseteq> set finished"
  using assms
proof (induction seen ss rule: check_graph.induct)
  case (2 seen s ss)
  have deps: "set (gs_depends s) \<subseteq> set seen" and rest: "check_graph (seen @ [gs_id s]) ss = None"
    and new: "gs_id s \<notin> set seen"
    using "2.prems"(1) by (auto split: if_splits)
  show ?case
  proof (cases "gs_id s \<notin> set outside_subgraph \<and> gs_id s \<in> set waiting")
    case True
    then have "set (gs_depends s) \<inter> late_nodes = {}" using "2.prems"(4) by auto
    then show ?thesis using True deps "2.prems"(2) by auto
  next
    case False
    then have "gs_id s \<in> set finished \<union> late_nodes"
      using "2.prems"(3,4) by (auto simp: outside_subgraph_def late_nodes_def)
    then have "\<exists>t \<in> set ss. gs_id t \<notin> set outside_subgraph \<and> gs_id t \<in> set waiting \<and> set (gs_depends t) \<subseteq> set finished"
      using "2.prems" False new deps rest by (intro "2.IH") auto
    then show ?thesis by auto
  qed
qed simp

lemma check_graph_skeleton:
  "map (\<lambda>s. (gs_id s, gs_depends s)) ss = map (\<lambda>s. (gs_id s, gs_depends s)) ts \<Longrightarrow>
   check_graph seen ss = check_graph seen ts"
proof (induction ss arbitrary: seen ts)
  case (Cons s ss)
  then obtain t ts' where "ts = t # ts'" by (cases ts) auto
  then show ?case using Cons by simp
qed simp

lemma map_filter_skeleton:
  "map gs_id (filter (\<lambda>s. P (gs_id s)) ss) = map fst (filter (\<lambda>(i, deps). P i) (map (\<lambda>s. (gs_id s, gs_depends s)) ss))"
  by (induction ss) auto

lemma skeleton_subgraph:
  assumes "skeleton q = skeleton p"
  shows "map gs_id (subgraph q) = map gs_id (subgraph p)" "stages_closed q = stages_closed p"
    "check_graph seen (xp_steps q) = check_graph seen (xp_steps p)"
proof -
  have closed: "stages_closed r \<longleftrightarrow> (\<forall>(i, deps) \<in> set (skeleton r). i \<in> set outside_subgraph \<or> set deps \<inter> late_nodes = {})" for r
    unfolding stages_closed_def skeleton_def by (auto simp: in_subgraph_iff)
  show "map gs_id (subgraph q) = map gs_id (subgraph p)"
    using assms unfolding subgraph_def skeleton_def
    by (subst (1 2) map_filter_skeleton [of "\<lambda>i. i \<notin> set outside_subgraph"]) simp
  show "stages_closed q = stages_closed p" using assms by (simp only: closed)
  show "check_graph seen (xp_steps q) = check_graph seen (xp_steps p)"
    using assms unfolding skeleton_def by (rule check_graph_skeleton)
qed

lemma check_graph_distinct:
  "check_graph seen ss = None \<Longrightarrow> distinct (map gs_id ss) \<and> set seen \<inter> set (map gs_id ss) = {}"
  by (induction seen ss rule: check_graph.induct) (auto split: if_splits)

text \<open>What holds at the head of the loop.\<close>

definition at_loop_head :: "string list \<Rightarrow> string list \<Rightarrow> execution_plan \<Rightarrow> bool" where
  "at_loop_head waiting finished p \<longleftrightarrow>
     check_graph [] (xp_steps p) = None \<and> stages_closed p \<and> distinct waiting
   \<and> set waiting \<subseteq> set (map gs_id (subgraph p)) \<and> ''intent'' \<in> set finished
   \<and> set (map gs_id (subgraph p)) \<subseteq> set waiting \<union> set finished"

lemma loop_head_ready:
  assumes "at_loop_head waiting finished p" "waiting \<noteq> []"
  shows "ready_steps p waiting finished \<noteq> []"
proof -
  have "\<exists>s \<in> set (xp_steps p). gs_id s \<notin> set outside_subgraph \<and> gs_id s \<in> set waiting \<and> set (gs_depends s) \<subseteq> set finished"
  proof (rule graph_progress)
    show "check_graph [] (xp_steps p) = None" using assms by (simp add: at_loop_head_def)
    have "hd waiting \<in> set waiting" using assms(2) by simp
    moreover from this have "hd waiting \<in> set (map gs_id (subgraph p))" using assms(1) by (auto simp: at_loop_head_def)
    ultimately show "\<exists>s \<in> set (xp_steps p). gs_id s \<notin> set outside_subgraph \<and> gs_id s \<in> set waiting"
      by (auto simp: in_subgraph_iff)
    show "\<forall>s \<in> set (xp_steps p). gs_id s \<notin> set outside_subgraph \<longrightarrow>
        (gs_id s \<in> set waiting \<or> gs_id s \<in> set finished) \<and> set (gs_depends s) \<inter> late_nodes = {}"
    proof (intro ballI impI)
      fix s assume "s \<in> set (xp_steps p)" "gs_id s \<notin> set outside_subgraph"
      then have "s \<in> set (subgraph p)" by (simp add: in_subgraph_iff)
      moreover from this have "gs_id s \<in> set (map gs_id (subgraph p))" by simp
      ultimately show "(gs_id s \<in> set waiting \<or> gs_id s \<in> set finished) \<and> set (gs_depends s) \<inter> late_nodes = {}"
        using assms(1) unfolding at_loop_head_def stages_closed_def by blast
    qed
  qed (use assms in \<open>auto simp: at_loop_head_def\<close>)
  then show ?thesis by (auto simp: ready_steps_def in_subgraph_iff filter_empty_conv)
qed

lemma ready_distinct: "distinct (map gs_id (xp_steps p)) \<Longrightarrow> distinct (ready_steps p waiting finished)"
  unfolding ready_steps_def subgraph_def
  by (induction "xp_steps p") (auto simp: distinct_map_filter)

lemma loop_head_next:
  assumes "at_loop_head waiting finished p" "skeleton q = skeleton p"
    "ready = ready_steps p waiting finished"
  shows "at_loop_head (filter (\<lambda>i. i \<notin> set ready) waiting) (finished @ ready) q"
  using assms skeleton_subgraph [OF assms(2)] by (auto simp: at_loop_head_def)

lemma loop_head_distinct: "at_loop_head waiting finished p \<Longrightarrow> distinct (ready_steps p waiting finished)"
  using check_graph_distinct [of "[]" "xp_steps p"] by (auto simp: at_loop_head_def intro: ready_distinct)

section \<open>The rounds\<close>

definition raised :: "('o, 'w) gather \<Rightarrow> seen_exception \<Rightarrow> bool" where
  "raised gather e \<longleftrightarrow> (\<exists>q ids outs w i. i \<in> set ids \<and> fst (gather q ids outs w) i = Inl e)"

definition produced :: "('o, 'w) gather \<Rightarrow> string \<Rightarrow> 'o \<Rightarrow> bool" where
  "produced gather i v \<longleftrightarrow> (\<exists>q ids outs w. i \<in> set ids \<and> fst (gather q ids outs w) i = Inr v)"

definition step_done :: "execution_plan \<Rightarrow> execution_plan \<Rightarrow> string \<Rightarrow> bool" where
  "step_done p q i \<longleftrightarrow> find_step i q = map_option (set_step Nd_succeeded True) (find_step i p)"

lemma set_step_twice [simp]: "set_step st False (set_step st' b s) = set_step st b s"
  by (simp add: set_step_def)

text \<open>
  One round from a loop head: either it goes on from a later loop head, its stages done, or it
  ends with an exception that a stage raised and no stage left running.
\<close>

lemma round_step:
  assumes head: "at_loop_head waiting finished p" "waiting \<noteq> []"
  defines "ready \<equiv> ready_steps p waiting finished"
  defines "waiting2 \<equiv> filter (\<lambda>i. i \<notin> set ready) waiting"
  obtains (goes_on) outs2 p2 w2 where
      "run_rounds gather save waiting finished outs p w
         = run_rounds gather save waiting2 (finished @ ready) outs2 p2 (save p2 w2)"
      "at_loop_head waiting2 (finished @ ready) p2" "skeleton p2 = skeleton p"
      "length waiting2 < length waiting"
      "\<And>i. i \<in> set ready \<Longrightarrow> step_done p p2 i \<and> (\<exists>v. dget outs2 i = Some v \<and> produced gather i v)"
      "\<And>i. i \<notin> set ready \<Longrightarrow> find_step i p2 = find_step i p \<and> dget outs2 i = dget outs i"
      "\<exists>q. w2 = snd (gather q ready outs (save q w))"
  | (fails) e p2 w2 where
      "run_rounds gather save waiting finished outs p w = (Inl e, p2, w2)" "raised gather e"
      "\<exists>i \<in> set ready. \<forall>s. find_step i p2 = Some s \<longrightarrow> gs_status s = Nd_failed"
      "\<And>i s. i \<in> set waiting \<Longrightarrow> find_step i p2 = Some s \<Longrightarrow> gs_status s \<in> {Nd_succeeded, Nd_failed, Nd_blocked}"
      "\<And>i. i \<notin> set waiting \<Longrightarrow> find_step i p2 = find_step i p" "skeleton p2 = skeleton p"
      "\<exists>q q'. w2 = save q' (snd (gather q ready outs (save q w)))"
proof -
  have ready: "ready \<noteq> []" "distinct ready" "set ready \<subseteq> set waiting"
    using loop_head_ready [OF head] loop_head_distinct [OF head(1)] ready_steps_waiting
    by (auto simp: ready_def)
  define p1 where "p1 = set_all ready Nd_running True p"
  obtain results w2 where g: "gather p1 ready outs (save p1 w) = (results, w2)" by fastforce
  obtain p2 outs2 failure where s: "settle results ready (p1, outs, None) = (p2, outs2, failure)"
    by (metis prod_cases3)
  have run: "run_rounds gather save waiting finished outs p w =
      (case failure of
         Some e \<Rightarrow> (Inl e, set_all waiting2 Nd_blocked False p2, save (set_all waiting2 Nd_blocked False p2) w2)
       | None \<Rightarrow> run_rounds gather save waiting2 (finished @ ready) outs2 p2 (save p2 w2))"
    using head(2) ready(1) g s
    by (subst run_rounds.simps) (simp add: ready_def [symmetric] waiting2_def p1_def Let_def split: option.split)
  have skel: "skeleton p2 = skeleton p" using skeleton_settle [OF s] by (simp add: p1_def)
  have find2: "find_step i p2 = (if i \<in> set ready
      then map_option (set_step (outcome_status (results i)) True) (find_step i p) else find_step i p)" for i
    using find_settle [OF s ready(2)] ready(2)
    by (auto simp: p1_def find_set_all option.map_comp comp_def)
  show thesis
  proof (cases failure)
    case None
    have ok: "\<exists>v. results i = Inr v" if "i \<in> set ready" for i
      using failure_settle [OF s] None that by simp
    show thesis
    proof (rule goes_on [where ?outs2.0 = outs2 and ?p2.0 = p2 and ?w2.0 = w2])
      show "at_loop_head waiting2 (finished @ ready) p2"
        unfolding waiting2_def by (rule loop_head_next [OF head(1) skel meta_eq_to_obj_eq [OF ready_def]])
      show "length waiting2 < length waiting"
        unfolding waiting2_def ready_def by (rule ready_progress) (use ready(1) in \<open>simp add: ready_def\<close>)
      fix i
      show "step_done p p2 i \<and> (\<exists>v. dget outs2 i = Some v \<and> produced gather i v)" if i: "i \<in> set ready"
      proof -
        obtain v where v: "results i = Inr v" using ok [OF i] by blast
        then have "step_done p p2 i" using i find2 [of i] by (simp add: step_done_def outcome_status_def)
        moreover have "dget outs2 i = Some v" by (rule output_settle [OF s ready(2) i v])
        moreover have "produced gather i v" using g i v unfolding produced_def by (metis fst_conv)
        ultimately show ?thesis by blast
      qed
      show "find_step i p2 = find_step i p \<and> dget outs2 i = dget outs i" if "i \<notin> set ready"
        using that find2 [of i] outs_settle_other [OF s, of i] by auto
      show "\<exists>q. w2 = snd (gather q ready outs (save q w))" using g by (intro exI [of _ p1]) simp
    qed (use run None skel in auto)
  next
    case (Some e)
    obtain i where i: "i \<in> set ready" "results i = Inl e"
      using failure_settle_from [of results ready p1 outs p2 outs2 e] s Some by auto
    let ?p3 = "set_all waiting2 Nd_blocked False p2"
    have dist2: "distinct waiting2" using head(1) by (simp add: waiting2_def at_loop_head_def)
    have find3: "find_step j ?p3 = (if j \<in> set waiting2 then map_option (set_step Nd_blocked False) (find_step j p)
        else find_step j p2)" for j
      using find2 [of j] dist2 by (auto simp: find_set_all waiting2_def)
    have gone: "j \<notin> set waiting2" if "j \<in> set ready" for j
      using that by (simp add: waiting2_def)
    have split: "j \<in> set waiting2 \<or> j \<in> set ready" if "j \<in> set waiting" for j
      using that by (auto simp: waiting2_def)
    have other: "j \<notin> set waiting2 \<and> j \<notin> set ready" if "j \<notin> set waiting" for j
      using that ready(3) by (auto simp: waiting2_def)
    show thesis
    proof (rule fails [where e = e and ?p2.0 = ?p3 and ?w2.0 = "save ?p3 w2"])
      show "raised gather e" using g i unfolding raised_def by (metis fst_conv)
      show "\<exists>i \<in> set ready. \<forall>s. find_step i ?p3 = Some s \<longrightarrow> gs_status s = Nd_failed"
        using i gone [of i] by (intro bexI [of _ i]) (auto simp: find3 find2 outcome_status_def)
      fix j
      show "gs_status s \<in> {Nd_succeeded, Nd_failed, Nd_blocked}"
        if "j \<in> set waiting" "find_step j ?p3 = Some s" for s
        using that split [of j] by (auto simp: find3 find2 outcome_status_def split: if_splits sum.splits)
      show "find_step j ?p3 = find_step j p" if "j \<notin> set waiting"
        using other [OF that] by (simp add: find3 find2)
      show "\<exists>q q'. save ?p3 w2 = save q' (snd (gather q ready outs (save q w)))"
        using g by (intro exI [of _ p1] exI [of _ ?p3]) simp
    qed (use run Some skel in auto)
  qed
qed

lemma run_rounds_spec:
  assumes "at_loop_head waiting finished p"
  shows "(\<exists>outs' p' w'. run_rounds gather save waiting finished outs p w = (Inr outs', p', w')
            \<and> skeleton p' = skeleton p
            \<and> (\<forall>i \<in> set waiting. step_done p p' i \<and> (\<exists>v. dget outs' i = Some v \<and> produced gather i v))
            \<and> (\<forall>i. i \<notin> set waiting \<longrightarrow> find_step i p' = find_step i p \<and> dget outs' i = dget outs i))
       \<or> (\<exists>e p' w'. run_rounds gather save waiting finished outs p w = (Inl e, p', w') \<and> raised gather e
            \<and> skeleton p' = skeleton p
            \<and> (\<exists>i \<in> set waiting. \<forall>s. find_step i p' = Some s \<longrightarrow> gs_status s = Nd_failed)
            \<and> (\<forall>i \<in> set waiting. \<forall>s. find_step i p' = Some s \<longrightarrow> gs_status s \<in> {Nd_succeeded, Nd_failed, Nd_blocked})
            \<and> (\<forall>i. i \<notin> set waiting \<longrightarrow> find_step i p' = find_step i p))"
    (is "?ok waiting finished outs p w \<or> ?bad waiting finished outs p w")
  using assms
proof (induction "length waiting" arbitrary: waiting finished outs p w rule: less_induct)
  case less
  show ?case
  proof (cases "waiting = []")
    case True
    then show ?thesis by (subst (1 2) run_rounds.simps) simp
  next
    case False
    let ?ready = "ready_steps p waiting finished"
    let ?waiting2 = "filter (\<lambda>i. i \<notin> set ?ready) waiting"
    show ?thesis
      using less.prems False
    proof (cases rule: round_step [where gather = gather and save = save and outs = outs and w = w])
      case (goes_on outs2 p2 w2)
      note IH = less.hyps [OF goes_on(4,2), of outs2 "save p2 w2"]
      note out = goes_on(5,6)
      show ?thesis
        using IH
      proof
        assume "?ok ?waiting2 (finished @ ?ready) outs2 p2 (save p2 w2)"
        then obtain outs' p' w' where r: "run_rounds gather save ?waiting2 (finished @ ?ready) outs2 p2 (save p2 w2) = (Inr outs', p', w')"
          "skeleton p' = skeleton p2"
          "\<And>i. i \<in> set ?waiting2 \<Longrightarrow> step_done p2 p' i \<and> (\<exists>v. dget outs' i = Some v \<and> produced gather i v)"
          "\<And>i. i \<notin> set ?waiting2 \<Longrightarrow> find_step i p' = find_step i p2 \<and> dget outs' i = dget outs2 i"
          by blast
        have each: "step_done p p' i \<and> (\<exists>v. dget outs' i = Some v \<and> produced gather i v)" if "i \<in> set waiting" for i
        proof (cases "i \<in> set ?ready")
          case True
          then show ?thesis using r(4) [of i] out(1) [of i] by (simp add: step_done_def)
        next
          case no: False
          then show ?thesis using r(3) [of i] out(2) [of i] that by (simp add: step_done_def)
        qed
        have "?ok waiting finished outs p w"
        proof (intro exI [of _ outs'] exI [of _ p'] exI [of _ w'] conjI ballI allI impI)
          show "run_rounds gather save waiting finished outs p w = (Inr outs', p', w')"
            using goes_on(1) r(1) by simp
          show "skeleton p' = skeleton p" using r(2) goes_on(3) by simp
          fix i
          show "step_done p p' i" "\<exists>v. dget outs' i = Some v \<and> produced gather i v" if "i \<in> set waiting"
            using each [OF that] by blast+
          show "find_step i p' = find_step i p" "dget outs' i = dget outs i" if "i \<notin> set waiting"
            using that r(4) [of i] out(2) [of i] ready_steps_waiting [of p waiting finished] by auto
        qed
        then show ?thesis ..
      next
        assume "?bad ?waiting2 (finished @ ?ready) outs2 p2 (save p2 w2)"
        then obtain e p' w' where r: "run_rounds gather save ?waiting2 (finished @ ?ready) outs2 p2 (save p2 w2) = (Inl e, p', w')"
          "raised gather e" "skeleton p' = skeleton p2"
          "\<exists>i \<in> set ?waiting2. \<forall>s. find_step i p' = Some s \<longrightarrow> gs_status s = Nd_failed"
          "\<And>i s. i \<in> set ?waiting2 \<Longrightarrow> find_step i p' = Some s \<Longrightarrow> gs_status s \<in> {Nd_succeeded, Nd_failed, Nd_blocked}"
          "\<And>i. i \<notin> set ?waiting2 \<Longrightarrow> find_step i p' = find_step i p2"
          by blast
        have each: "gs_status s \<in> {Nd_succeeded, Nd_failed, Nd_blocked}"
          if "i \<in> set waiting" "find_step i p' = Some s" for i s
        proof (cases "i \<in> set ?ready")
          case True
          then show ?thesis using r(6) [of i] out(1) [of i] that by (cases "find_step i p") (auto simp: step_done_def)
        next
          case no: False
          then show ?thesis using r(5) [of i s] that by simp
        qed
        have "?bad waiting finished outs p w"
        proof (intro exI [of _ e] exI [of _ p'] exI [of _ w'] conjI ballI allI impI)
          show "run_rounds gather save waiting finished outs p w = (Inl e, p', w')"
            using goes_on(1) r(1) by simp
          show "raised gather e" by (rule r(2))
          show "skeleton p' = skeleton p" using r(3) goes_on(3) by simp
          show "\<exists>i \<in> set waiting. \<forall>s. find_step i p' = Some s \<longrightarrow> gs_status s = Nd_failed"
            using r(4) by auto
          show "gs_status s \<in> {Nd_succeeded, Nd_failed, Nd_blocked}"
            if "i \<in> set waiting" "find_step i p' = Some s" for i s by (rule each [OF that])
          show "find_step i p' = find_step i p" if "i \<notin> set waiting" for i
            using that r(6) [of i] out(2) [of i] ready_steps_waiting [of p waiting finished] by auto
        qed
        then show ?thesis ..
      qed
    next
      case (fails e p2 w2)
      have "\<exists>i \<in> set waiting. \<forall>s. find_step i p2 = Some s \<longrightarrow> gs_status s = Nd_failed"
        using fails(3) ready_steps_waiting [of p waiting finished] by blast
      then have "?bad waiting finished outs p w" using fails by blast
      then show ?thesis ..
    qed
  qed
qed

section \<open>The execution of a plan\<close>

lemma skeleton_reset [simp]: "skeleton (reset_subgraph p) = skeleton p"
  by (simp add: skeleton_def reset_subgraph_def comp_def)

lemma find_reset:
  "find_step i (reset_subgraph p) =
     (if i \<in> set outside_subgraph then find_step i p
      else map_option (\<lambda>s. s\<lparr>gs_status := if gs_attempts s \<noteq> 0 then Nd_retrying else Nd_pending\<rparr>) (find_step i p))"
proof -
  have "List.find (\<lambda>s. gs_id s = i) (map (\<lambda>s. if gs_id s \<in> set outside_subgraph then s else g s) xs) =
      (if i \<in> set outside_subgraph then List.find (\<lambda>s. gs_id s = i) xs
       else map_option g (List.find (\<lambda>s. gs_id s = i) xs))"
    if "\<And>s. gs_id (g s) = gs_id s" for g :: "plan_step \<Rightarrow> plan_step" and xs
    using that by (induction xs) auto
  then show ?thesis unfolding find_step_def reset_subgraph_def by simp
qed

lemma start_head:
  assumes "check_graph [] (xp_steps p) = None" "stages_closed p"
  shows "at_loop_head (map gs_id (subgraph (reset_subgraph p))) [''intent''] (reset_subgraph p)"
proof -
  note skel = skeleton_subgraph [OF skeleton_reset [of p]]
  have "distinct (map gs_id (xp_steps p))"
    using check_graph_distinct [of "[]" "xp_steps p"] assms(1) by simp
  then have "distinct (map gs_id (subgraph p))"
    by (simp add: subgraph_def distinct_map_filter)
  then show ?thesis
    using assms by (auto simp add: at_loop_head_def skel simp del: set_map)
qed

lemma planner_in_subgraph:
  assumes "i \<in> set (map gs_id (xp_steps p))" "i \<notin> set outside_subgraph"
  shows "i \<in> set (map gs_id (subgraph p))"
  using assms by (auto simp: subgraph_def)

text \<open>The result of an execution, whatever the stages do.\<close>

lemma execution_cases:
  assumes "check_graph [] (xp_steps p) = None" "stages_closed p" "{''search'', ''planner''} \<subseteq> set (map gs_id (xp_steps p))"
  obtains (finished) v p' w' where
      "execute_planning_stages is_plan gather save intent p w =
         (case is_plan v of
            None \<Rightarrow> (Inl (protocol_failure ''Supervisor task graph did not produce a planner result''), p', w')
          | Some r \<Rightarrow> (Inr r, p', w'))"
      "produced gather ''planner'' v"
      "\<And>i. i \<in> set (map gs_id (subgraph p)) \<Longrightarrow> step_done (reset_subgraph p) p' i"
      "\<And>i. i \<in> set outside_subgraph \<Longrightarrow> find_step i p' = find_step i p"
  | (failed) e p' w' where
      "execute_planning_stages is_plan gather save intent p w = (Inl e, p', w')" "raised gather e"
      "\<exists>i \<in> set (map gs_id (subgraph p)). \<forall>s. find_step i p' = Some s \<longrightarrow> gs_status s = Nd_failed"
      "\<And>i s. i \<in> set (map gs_id (subgraph p)) \<Longrightarrow> find_step i p' = Some s \<Longrightarrow>
         gs_status s \<in> {Nd_succeeded, Nd_failed, Nd_blocked}"
      "\<And>i. i \<in> set outside_subgraph \<Longrightarrow> find_step i p' = find_step i p" "skeleton p' = skeleton p"
proof -
  let ?p = "reset_subgraph p"
  let ?ids = "map gs_id (subgraph p)"
  have ids: "map gs_id (subgraph ?p) = ?ids" by (rule skeleton_subgraph(1) [OF skeleton_reset])
  have head: "at_loop_head ?ids [''intent''] ?p" using start_head [OF assms(1,2)] unfolding ids .
  have planner: "''planner'' \<in> set ?ids"
    using assms(3) by (intro planner_in_subgraph) (auto simp: outside_subgraph_def)
  have out: "i \<notin> set ?ids" if "i \<in> set outside_subgraph" for i
    using that by (auto simp: subgraph_def)
  have guard: "''search'' \<in> set (map gs_id (xp_steps p)) \<and> ''planner'' \<in> set (map gs_id (xp_steps p))"
    using assms(3) by blast
  show thesis
    using run_rounds_spec [OF head, of gather save "[(''intent'', intent)]" "save ?p w"]
  proof (elim disjE exE conjE)
    fix outs' p' w'
    assume run: "run_rounds gather save ?ids [''intent''] [(''intent'', intent)] ?p (save ?p w) = (Inr outs', p', w')"
      and done_all: "\<forall>i \<in> set ?ids. step_done ?p p' i \<and> (\<exists>v. dget outs' i = Some v \<and> produced gather i v)"
      and rest: "\<forall>i. i \<notin> set ?ids \<longrightarrow> find_step i p' = find_step i ?p \<and> dget outs' i = dget [(''intent'', intent)] i"
    obtain v where v: "dget outs' ''planner'' = Some v" "produced gather ''planner'' v"
      using done_all planner by blast
    show thesis
    proof (rule finished)
      show "execute_planning_stages is_plan gather save intent p w =
         (case is_plan v of
            None \<Rightarrow> (Inl (protocol_failure ''Supervisor task graph did not produce a planner result''), p', w')
          | Some r \<Rightarrow> (Inr r, p', w'))"
        using run guard v by (simp add: execute_planning_stages_def ids Let_def split: option.split)
    qed (use v done_all rest out find_reset [of _ p] in auto)
  next
    fix e p' w'
    assume run: "run_rounds gather save ?ids [''intent''] [(''intent'', intent)] ?p (save ?p w) = (Inl e, p', w')"
      and raised: "raised gather e"
      and bad: "\<exists>i \<in> set ?ids. \<forall>s. find_step i p' = Some s \<longrightarrow> gs_status s = Nd_failed"
      and each: "\<forall>i \<in> set ?ids. \<forall>s. find_step i p' = Some s \<longrightarrow> gs_status s \<in> {Nd_succeeded, Nd_failed, Nd_blocked}"
      and rest: "\<forall>i. i \<notin> set ?ids \<longrightarrow> find_step i p' = find_step i ?p"
      and skel: "skeleton p' = skeleton ?p"
    show thesis
    proof (rule failed [OF _ raised bad])
      show "execute_planning_stages is_plan gather save intent p w = (Inl e, p', w')"
        using run guard by (simp add: execute_planning_stages_def ids Let_def)
    qed (use each rest out find_reset [of _ p] skel in auto)
  qed
qed

section \<open>The order of the stages\<close>

text \<open>A gather that also writes down what it starts, and what it has outputs of.\<close>

definition logged :: "('o, 'w) gather \<Rightarrow> ('o, (string list \<times> string list) list \<times> 'w) gather" where
  "logged gather p ids outs lw =
     (case gather p ids outs (snd lw) of (r, w) \<Rightarrow> (r, (fst lw @ [(ids, dkeys outs)], w)))"

definition logged_save :: "(execution_plan \<Rightarrow> 'w \<Rightarrow> 'w) \<Rightarrow> execution_plan \<Rightarrow> 'l \<times> 'w \<Rightarrow> 'l \<times> 'w" where
  "logged_save save p lw = (fst lw, save p (snd lw))"

lemma logged_simps [simp]:
  "fst (snd (logged gather p ids outs lw)) = fst lw @ [(ids, dkeys outs)]"
  "fst (logged_save save p lw) = fst lw"
  by (auto simp: logged_def logged_save_def split: prod.split)

definition starts_ok :: "execution_plan \<Rightarrow> string list \<Rightarrow> (string list \<times> string list) list \<Rightarrow> bool" where
  "starts_ok p waiting starts \<longleftrightarrow>
     distinct (concat (map fst starts)) \<and> set (concat (map fst starts)) \<subseteq> set waiting
   \<and> (\<forall>(ids, keys) \<in> set starts. \<forall>s \<in> set (xp_steps p). gs_id s \<in> set ids \<longrightarrow> set (gs_depends s) \<subseteq> set keys)"

lemma starts_ok_skeleton: "skeleton q = skeleton p \<Longrightarrow> starts_ok q waiting starts = starts_ok p waiting starts"
proof -
  have "(\<forall>s \<in> set (xp_steps r). gs_id s \<in> A \<longrightarrow> set (gs_depends s) \<subseteq> B) \<longleftrightarrow>
      (\<forall>(i, deps) \<in> set (skeleton r). i \<in> A \<longrightarrow> set deps \<subseteq> B)" for r A B
    by (auto simp: skeleton_def)
  then show "skeleton q = skeleton p \<Longrightarrow> starts_ok q waiting starts = starts_ok p waiting starts"
    by (simp add: starts_ok_def)
qed

lemma ready_deps:
  assumes "check_graph [] (xp_steps p) = None" "s \<in> set (xp_steps p)" "gs_id s \<in> set (ready_steps p waiting finished)"
  shows "set (gs_depends s) \<subseteq> set finished"
proof -
  obtain t where t: "t \<in> set (xp_steps p)" "gs_id t = gs_id s" "set (gs_depends t) \<subseteq> set finished"
    using assms(3) by (auto simp: ready_steps_def in_subgraph_iff)
  have "distinct (map gs_id (xp_steps p))"
    using check_graph_distinct [OF assms(1)] by simp
  then have "t = s" using t(1,2) assms(2) by (auto simp: distinct_map dest: inj_onD)
  then show ?thesis using t(3) by simp
qed

lemma rounds_log:
  assumes "at_loop_head waiting finished p" "\<forall>i \<in> set finished. dget outs i \<noteq> None"
  shows "\<exists>starts. fst (snd (snd (run_rounds (logged gather) (logged_save save) waiting finished outs p lw))) = fst lw @ starts
     \<and> starts_ok p waiting starts"
  using assms
proof (induction "length waiting" arbitrary: waiting finished outs p lw rule: less_induct)
  case less
  have first: "starts_ok p waiting [(ready_steps p waiting finished, dkeys outs)]"
  proof -
    have "set (gs_depends s) \<subseteq> set (dkeys outs)"
      if "s \<in> set (xp_steps p)" "gs_id s \<in> set (ready_steps p waiting finished)" for s
    proof -
      have "set (gs_depends s) \<subseteq> set finished"
        using ready_deps [OF _ that] less.prems(1) by (simp add: at_loop_head_def)
      then show ?thesis using less.prems(2) by (auto simp: dget_None_iff simp del: set_map)
    qed
    then show ?thesis
      using loop_head_distinct [OF less.prems(1)] ready_steps_waiting [of p waiting finished]
      by (auto simp: starts_ok_def simp del: set_map)
  qed
  show ?case
  proof (cases "waiting = []")
    case True
    then show ?thesis by (subst run_rounds.simps) (simp add: starts_ok_def)
  next
    case False
    show ?thesis
      using less.prems(1) False
    proof (cases rule: round_step [where gather = "logged gather" and save = "logged_save save" and outs = outs and w = lw])
      case (goes_on outs2 p2 w2)
      let ?ready = "ready_steps p waiting finished"
      let ?waiting2 = "filter (\<lambda>i. i \<notin> set ?ready) waiting"
      have keys: "\<forall>i \<in> set (finished @ ?ready). dget outs2 i \<noteq> None"
      proof
        fix i assume "i \<in> set (finished @ ?ready)"
        then show "dget outs2 i \<noteq> None"
          using goes_on(5) [of i] goes_on(6) [of i] less.prems(2) by (cases "i \<in> set ?ready") auto
      qed
      obtain starts where l: "fst (snd (snd (run_rounds (logged gather) (logged_save save) ?waiting2 (finished @ ?ready)
            outs2 p2 (logged_save save p2 w2)))) = fst (logged_save save p2 w2) @ starts" "starts_ok p2 ?waiting2 starts"
        using less.hyps [OF goes_on(4,2) keys] by blast
      have w2: "fst w2 = fst lw @ [(?ready, dkeys outs)]" using goes_on(7) by auto
      have "starts_ok p ?waiting2 starts" using l(2) starts_ok_skeleton [OF goes_on(3)] by simp
      then have "starts_ok p waiting ((?ready, dkeys outs) # starts)"
        using first by (auto simp: starts_ok_def)
      then show ?thesis
        using goes_on(1) l(1) w2 by (intro exI [of _ "(?ready, dkeys outs) # starts"]) simp
    next
      case (fails e p2 w2)
      then have "fst w2 = fst lw @ [(ready_steps p waiting finished, dkeys outs)]" by auto
      then show ?thesis
        using fails(1) first by (intro exI [of _ "[(ready_steps p waiting finished, dkeys outs)]"]) simp
    qed
  qed
qed

section \<open>Properties\<close>

lemma plan_for_closed:
  "stages_closed (plan_for rs w m)" "{''search'', ''planner''} \<subseteq> set (map gs_id (xp_steps (plan_for rs w m)))"
  by (cases "rs = []"; cases w; cases "m = Mode_off";
      simp add: plan_for_def only_if_def node_def stages_closed_def subgraph_def outside_subgraph_def late_nodes_def)+

text \<open>
  C22: The task graph the supervisor builds is well formed for every intent and mode: its fields are
  within the schema, no step repeats, every dependency names an earlier step, it contains the
  search and the planner, and no planning stage depends on the critic or the final answer.
\<close>

theorem supervisor_graph_valid:
  "plan_ok (build_execution_plan fold_case i mode)
   \<and> {''search'', ''planner''} \<subseteq> set (map gs_id (xp_steps (build_execution_plan fold_case i mode)))
   \<and> stages_closed (build_execution_plan fold_case i mode)"
  using build_ok plan_for_closed unfolding build_execution_plan_def by blast

text \<open>
  C21: The execution of a well-formed graph ends, whatever its stages do, in one of two ways: with
  the output of the planner, every planning stage done in exactly one more attempt; or with an
  exception that a stage raised, one stage failed and each other one succeeded, failed or blocked.
  It never reports that the graph cannot make progress.
\<close>

theorem planning_stages_settle:
  assumes "check_graph [] (xp_steps p) = None" "stages_closed p"
    "{''search'', ''planner''} \<subseteq> set (map gs_id (xp_steps p))"
    and "\<forall>v. produced gather ''planner'' v \<longrightarrow> is_plan v \<noteq> None"
  shows "\<exists>r p' w'. execute_planning_stages is_plan gather save intent p w = (r, p', w') \<and>
     (case r of
        Inr x \<Rightarrow> (\<exists>v. produced gather ''planner'' v \<and> is_plan v = Some x) \<and>
          (\<forall>i \<in> set (map gs_id (subgraph p)). \<exists>s. find_step i p = Some s \<and>
             map_option gs_status (find_step i p') = Some Nd_succeeded \<and>
             map_option gs_attempts (find_step i p') = Some (gs_attempts s + 1))
      | Inl e \<Rightarrow> raised gather e \<and>
          (\<exists>i \<in> set (map gs_id (subgraph p)). map_option gs_status (find_step i p') = Some Nd_failed) \<and>
          (\<forall>i \<in> set (map gs_id (subgraph p)).
             map_option gs_status (find_step i p') \<in> {Some Nd_succeeded, Some Nd_failed, Some Nd_blocked}))"
    (is "\<exists>r p' w'. _ = (r, p', w') \<and> ?settled r p'")
proof -
  have known: "\<exists>s. find_step i q = Some s" if "i \<in> set (map gs_id (subgraph p))" "skeleton q = skeleton p" for i q
  proof -
    have "i \<in> set (map gs_id (subgraph q))"
      using that skeleton_subgraph(1) [OF that(2)] by simp
    then have "i \<in> set (map gs_id (xp_steps q))" by (auto simp: subgraph_def)
    then show ?thesis unfolding find_step_def by (cases "List.find (\<lambda>s. gs_id s = i) (xp_steps q)") (auto simp: find_None_iff)
  qed
  have inside: "i \<notin> set outside_subgraph" if "i \<in> set (map gs_id (subgraph p))" for i
    using that by (auto simp: subgraph_def)
  show ?thesis
    using assms(1,2,3)
  proof (cases rule: execution_cases [where is_plan = is_plan and gather = gather and save = save and intent = intent and w = w])
    case (finished v p' w')
    obtain x where x: "is_plan v = Some x" using assms(4) finished(2) by blast
    have "\<exists>s. find_step i p = Some s \<and> map_option gs_status (find_step i p') = Some Nd_succeeded \<and>
        map_option gs_attempts (find_step i p') = Some (gs_attempts s + 1)"
      if i: "i \<in> set (map gs_id (subgraph p))" for i
    proof -
      obtain s where s: "find_step i p = Some s" using known [OF i refl] by blast
      then have "find_step i p' = Some (set_step Nd_succeeded True
          (s\<lparr>gs_status := if gs_attempts s \<noteq> 0 then Nd_retrying else Nd_pending\<rparr>))"
        using finished(3) [OF i] inside [OF i] by (simp add: step_done_def find_reset)
      then show ?thesis using s by simp
    qed
    then have "?settled (Inr x) p'" using finished(2) x by (simp del: set_map) blast
    moreover have "execute_planning_stages is_plan gather save intent p w = (Inr x, p', w')"
      using finished(1) x by simp
    ultimately show ?thesis by blast
  next
    case (failed e p' w')
    have "\<exists>s. find_step i p' = Some s" if "i \<in> set (map gs_id (subgraph p))" for i
      by (rule known [OF that failed(6)])
    then have each: "map_option gs_status (find_step i p') \<in> {Some Nd_succeeded, Some Nd_failed, Some Nd_blocked}"
      if "i \<in> set (map gs_id (subgraph p))" for i
      using failed(4) [OF that] that by fastforce
    obtain i where i: "i \<in> set (map gs_id (subgraph p))" "\<forall>s. find_step i p' = Some s \<longrightarrow> gs_status s = Nd_failed"
      using failed(3) by blast
    then have "map_option gs_status (find_step i p') = Some Nd_failed"
      using known [OF i(1) failed(6)] by auto
    then have "?settled (Inl e) p'" using failed(2) i(1) each by (simp del: set_map) blast
    then show ?thesis using failed(1) by blast
  qed
qed

text \<open>
  In any execution of a well-formed graph no stage is started twice, and when a stage is
  started, the output of every step it depends on is already there.
\<close>

theorem stages_start_in_order:
  assumes "check_graph [] (xp_steps p) = None" "stages_closed p"
  shows "let starts = fst (snd (snd (execute_planning_stages is_plan (logged gather) (logged_save save) intent p ([], w))))
    in distinct (concat (map fst starts))
    \<and> set (concat (map fst starts)) \<subseteq> set (map gs_id (subgraph p))
    \<and> (\<forall>(ids, keys) \<in> set starts. \<forall>s \<in> set (xp_steps p). gs_id s \<in> set ids \<longrightarrow> set (gs_depends s) \<subseteq> set keys)"
proof -
  let ?p = "reset_subgraph p"
  have ids: "map gs_id (subgraph ?p) = map gs_id (subgraph p)" by (rule skeleton_subgraph(1) [OF skeleton_reset])
  obtain L where L: "fst (snd (snd (run_rounds (logged gather) (logged_save save) (map gs_id (subgraph p)) [''intent'']
        [(''intent'', intent)] ?p (logged_save save ?p ([], w))))) = L" "starts_ok ?p (map gs_id (subgraph p)) L"
    using rounds_log [OF start_head [OF assms(1,2)], of "[(''intent'', intent)]" gather save "logged_save save ?p ([], w)"]
    unfolding ids by auto
  define starts where "starts = fst (snd (snd (execute_planning_stages is_plan (logged gather) (logged_save save) intent p ([], w))))"
  have "starts = L \<or> starts = []"
    using L(1) unfolding starts_def execute_planning_stages_def ids Let_def
    by (auto split: prod.split sum.split option.split)
  then have "starts_ok ?p (map gs_id (subgraph p)) starts" using L(2) by (auto simp: starts_ok_def)
  then show ?thesis
    unfolding starts_ok_skeleton [OF skeleton_reset] starts_def [symmetric] Let_def by (simp add: starts_ok_def)
qed

theorem planning_stages_settle_witness:
  "\<exists>r p' w'. execute_planning_stages Some (\<lambda>q ids outs w. (\<lambda>i. if i = ''weather'' then Inl (protocol_failure ''late'') else Inr (), w))
      (\<lambda>q w. w) () (plan_for [''elderly_party''] True Mode_enforce) () = (r, p', w')"
proof -
  let ?p = "plan_for [''elderly_party''] True Mode_enforce"
  let ?g = "\<lambda>q ids outs (w :: unit). (\<lambda>i. if i = ''weather'' then Inl (protocol_failure ''late'') else Inr (), w)"
  have "\<forall>v. produced ?g ''planner'' v \<longrightarrow> Some v \<noteq> None" by simp
  from planning_stages_settle [OF check_graph_plan_for [of "[''elderly_party'']" True Mode_enforce]
      plan_for_closed [of "[''elderly_party'']" True Mode_enforce] this, of "\<lambda>q w. w" "()" "()"]
  show ?thesis by blast
qed

theorem stages_start_in_order_witness:
  "distinct (concat (map fst (fst (snd (snd (execute_planning_stages Some
     (logged (\<lambda>q ids outs (w :: unit). (\<lambda>i. Inr (), w))) (logged_save (\<lambda>q w. w)) ()
     (plan_for [''elderly_party''] True Mode_enforce) ([], ())))))))"
  by (rule stages_start_in_order [OF check_graph_plan_for plan_for_closed(1), unfolded Let_def, THEN conjunct1])

end
