(* ===== verification/Workflow_Checkpoints.thy ===== *)
theory Workflow_Checkpoints
  imports Task_Graph
begin

text \<open>
  \<open>services/agent_workflow_state.py\<close>: the durable rows of a workflow and of its task graph, written
  at the boundaries of execution, resumption from them after a crash or a failure, and the graph of
  in-trip replanning that is executed over them (\<open>services/dynamic_replanning.py\<close>). The database
  is the two tables and the snapshots of the shared state; each method is one transaction.
\<close>

section \<open>The trace and the rows\<close>

datatype execution_mode = Ex_sync | Ex_distributed

record step_trace =
  sx_key :: "string option"
  sx_output :: string
  sx_payload :: payload

record stage_trace =
  sg_key :: string
  sg_output :: string
  sg_summary :: payload

record workflow_trace =
  tc_mode :: workflow_mode
  tc_execution :: execution_mode
  tc_task :: string
  tc_status :: string
  tc_steps :: "step_trace list"
  tc_stages :: "stage_trace list"
  tc_plan :: "execution_plan option"
  tc_shared :: "state_audit option"
  tc_handoffs :: int
  tc_retries :: int
  tc_cost :: rat
  tc_workflow :: "int option"

record run_entry =
  wr_id :: int
  wr_user :: int
  wr_planning_run :: "int option"
  wr_trip :: "int option"
  wr_trigger :: string
  wr_mode :: workflow_mode
  wr_execution :: execution_mode
  wr_status :: string
  wr_handoffs :: int
  wr_retries :: int
  wr_cost :: rat
  wr_completed :: "instant option"

text \<open>\<open>tk_summary\<close> is \<open>None\<close> for the column of a row that is not flushed yet.\<close>

record task_row =
  tk_run :: int
  tk_key :: string
  tk_role :: agent_type
  tk_kind :: execution_kind
  tk_status :: node_status
  tk_depends :: "string list"
  tk_attempts :: int
  tk_output :: string
  tk_budget :: "agent_budget option"
  tk_summary :: "string option"
  tk_version :: int
  tk_updated :: instant

record workflow_db =
  wd_runs :: "run_entry list"
  wd_tasks :: "task_row list"
  wd_snapshots :: "(int, state_audit) dict"

definition terminal_statuses :: "string list" where
  "terminal_statuses = [''succeeded'', ''success'', ''failed'', ''blocked'', ''infeasible'',
     ''need_clarification'', ''needs_clarification'']"

section \<open>Writing a checkpoint\<close>

definition stage_of :: "workflow_trace \<Rightarrow> string \<Rightarrow> stage_trace option" where
  "stage_of tc k = List.find (\<lambda>g. sg_key g = k) (rev (tc_stages tc))"

definition step_of :: "workflow_trace \<Rightarrow> string \<Rightarrow> step_trace option" where
  "step_of tc k = List.find (\<lambda>x. sx_key x = Some k) (rev (tc_steps tc))"

definition new_task :: "int \<Rightarrow> plan_step \<Rightarrow> task_row" where
  "new_task run s =
     \<lparr>tk_run = run, tk_key = gs_id s, tk_role = gs_agent s, tk_kind = Kind_agent, tk_status = Nd_pending,
      tk_depends = [], tk_attempts = 0, tk_output = gs_output s, tk_budget = None, tk_summary = None,
      tk_version = 1, tk_updated = 0\<rparr>"

text \<open>\<open>_apply_task\<close>; \<open>fr\<close> is the text of a float in \<open>json.dumps\<close>.\<close>

definition apply_task :: "(rat \<Rightarrow> string) \<Rightarrow> instant \<Rightarrow> workflow_trace \<Rightarrow> plan_step \<Rightarrow> task_row \<Rightarrow> task_row" where
  "apply_task fr now tc s t =
     (let stage = stage_of tc (gs_id s);
          agent = step_of tc (gs_id s);
          summary = (case stage of Some g \<Rightarrow> sg_summary g
                     | None \<Rightarrow> (case agent of Some x \<Rightarrow> sx_payload x | None \<Rightarrow> []))
      in t\<lparr>tk_role := gs_agent s, tk_kind := gs_kind s, tk_status := gs_status s, tk_depends := gs_depends s,
           tk_attempts := gs_attempts s,
           tk_output := (case stage of Some g \<Rightarrow> sg_output g
                         | None \<Rightarrow> (case agent of Some x \<Rightarrow> sx_output x | None \<Rightarrow> gs_output s)),
           tk_budget := gs_budget s,
           tk_summary := (if stage \<noteq> None \<or> agent \<noteq> None \<or> tk_summary t \<in> {None, Some []}
              then Some (cp_take 4000 (dumps fr '', '' '': '' (minimize (JObj summary)))) else tk_summary t),
           tk_version := gs_version s, tk_updated := now\<rparr>)"

definition own_task :: "int \<Rightarrow> string \<Rightarrow> task_row \<Rightarrow> bool" where
  "own_task run k t \<longleftrightarrow> tk_run t = run \<and> tk_key t = k"

definition write_task :: "(rat \<Rightarrow> string) \<Rightarrow> instant \<Rightarrow> int \<Rightarrow> workflow_trace \<Rightarrow> plan_step \<Rightarrow> task_row list \<Rightarrow> task_row list" where
  "write_task fr now run tc s rows =
     (if list_ex (own_task run (gs_id s)) rows
      then update_first (own_task run (gs_id s)) (apply_task fr now tc s) rows
      else rows @ [apply_task fr now tc s (new_task run s)])"

definition write_run :: "instant \<Rightarrow> workflow_trace \<Rightarrow> run_entry \<Rightarrow> run_entry" where
  "write_run now tc r =
     r\<lparr>wr_status := tc_status tc, wr_mode := tc_mode tc, wr_execution := tc_execution tc,
       wr_handoffs := tc_handoffs tc, wr_retries := tc_retries tc, wr_cost := tc_cost tc,
       wr_completed := (if tc_status tc \<in> set terminal_statuses then Some now else None)\<rparr>"

definition checkpoint :: "(rat \<Rightarrow> string) \<Rightarrow> instant \<Rightarrow> int \<Rightarrow> workflow_trace \<Rightarrow> workflow_db \<Rightarrow> workflow_db" where
  "checkpoint fr now run tc db =
     db\<lparr>wd_runs := update_first (\<lambda>r. wr_id r = run) (write_run now tc) (wd_runs db),
        wd_tasks := (case tc_plan tc of None \<Rightarrow> wd_tasks db
          | Some p \<Rightarrow> fold (write_task fr now run tc) (xp_steps p) (wd_tasks db)),
        wd_snapshots := (case tc_shared tc of None \<Rightarrow> wd_snapshots db
          | Some a \<Rightarrow> dset run a (wd_snapshots db))\<rparr>"

section \<open>Start, failure, resumption\<close>

definition start_workflow ::
  "int \<Rightarrow> int \<Rightarrow> string \<Rightarrow> int option \<Rightarrow> int option \<Rightarrow> workflow_trace \<Rightarrow> workflow_db \<Rightarrow> workflow_trace \<times> workflow_db" where
  "start_workflow new_id user trigger run trip tc db =
     (tc\<lparr>tc_workflow := Some new_id\<rparr>,
      db\<lparr>wd_runs := wd_runs db @ [\<lparr>wr_id = new_id, wr_user = user, wr_planning_run = run, wr_trip = trip,
           wr_trigger = trigger, wr_mode = tc_mode tc, wr_execution = tc_execution tc,
           wr_status = ''running'', wr_handoffs = 0, wr_retries = 0, wr_cost = 0, wr_completed = None\<rparr>]\<rparr>)"

definition fail_step :: "plan_step \<Rightarrow> plan_step" where
  "fail_step s =
     (if gs_status s \<in> {Nd_running, Nd_retrying} then s\<lparr>gs_status := Nd_failed\<rparr>
      else if gs_status s = Nd_pending then s\<lparr>gs_status := Nd_blocked\<rparr> else s)"

definition fail_trace :: "workflow_trace \<Rightarrow> workflow_trace" where
  "fail_trace tc =
     tc\<lparr>tc_status := ''failed'',
        tc_plan := map_option (\<lambda>p. p\<lparr>xp_steps := map fail_step (xp_steps p)\<rparr>) (tc_plan tc)\<rparr>"

definition error_summary :: "(rat \<Rightarrow> string) \<Rightarrow> string \<Rightarrow> string" where
  "error_summary fr reason = dumps fr '', '' '': '' (JObj [(''error_code'', JStr reason)])"

definition fail_workflow ::
  "(rat \<Rightarrow> string) \<Rightarrow> instant \<Rightarrow> int \<Rightarrow> string \<Rightarrow> workflow_trace \<Rightarrow> workflow_db \<Rightarrow> workflow_trace \<times> workflow_db" where
  "fail_workflow fr now run reason tc db =
     (let tc1 = fail_trace tc;
          db1 = checkpoint fr now run tc1 db
      in (tc1, db1\<lparr>wd_tasks := map (\<lambda>t. if tk_run t = run \<and> tk_status t = Nd_failed
              then t\<lparr>tk_summary := Some (error_summary fr reason)\<rparr> else t) (wd_tasks db1)\<rparr>))"

text \<open>The newest run of the same user, trip and trigger that is running or failed.\<close>

definition resumable :: "int \<Rightarrow> int \<Rightarrow> string \<Rightarrow> run_entry \<Rightarrow> bool" where
  "resumable user trip trigger r \<longleftrightarrow>
     wr_user r = user \<and> wr_trip r = Some trip \<and> wr_trigger r = trigger \<and> wr_status r \<in> {''running'', ''failed''}"

definition newest :: "run_entry list \<Rightarrow> run_entry option" where
  "newest rs = (case rs of [] \<Rightarrow> None | _ \<Rightarrow> List.find (\<lambda>r. \<forall>q \<in> set rs. wr_id q \<le> wr_id r) rs)"

definition unfinished :: "node_status \<Rightarrow> bool" where
  "unfinished st \<longleftrightarrow> st \<in> {Nd_pending, Nd_running, Nd_retrying, Nd_failed, Nd_blocked}"

definition load_step :: "int \<Rightarrow> task_row list \<Rightarrow> plan_step \<Rightarrow> plan_step" where
  "load_step run rows s =
     (case List.find (own_task run (gs_id s)) rows of
        None \<Rightarrow> s
      | Some t \<Rightarrow> s\<lparr>gs_status := tk_status t, gs_attempts := tk_attempts t\<rparr>)"

text \<open>The loop over the steps: \<open>resume_from\<close> is the first unfinished one.\<close>

fun resume_steps :: "int \<Rightarrow> task_row list \<Rightarrow> string option \<Rightarrow> plan_step list \<Rightarrow> string option \<times> plan_step list" where
  "resume_steps run rows from [] = (from, [])"
| "resume_steps run rows from (s # ss) =
     (let t = load_step run rows s
      in if from = None \<and> unfinished (gs_status t)
         then (case resume_steps run rows (Some (gs_id s)) ss of (f, ts) \<Rightarrow> (f, t\<lparr>gs_status := Nd_retrying\<rparr> # ts))
         else case resume_steps run rows from ss of (f, ts) \<Rightarrow>
           (f, (if from \<noteq> None \<and> gs_status t \<in> {Nd_blocked, Nd_failed, Nd_retrying}
                then t\<lparr>gs_status := Nd_pending\<rparr> else t) # ts))"

definition resume_or_start ::
  "(rat \<Rightarrow> string) \<Rightarrow> instant \<Rightarrow> int \<Rightarrow> int \<Rightarrow> string \<Rightarrow> int \<Rightarrow> int \<Rightarrow> workflow_trace \<Rightarrow> workflow_db
     \<Rightarrow> ((int \<times> string option) res \<times> workflow_trace) \<times> workflow_db" where
  "resume_or_start fr now new_id user trigger run trip tc db =
     (case newest (filter (resumable user trip trigger) (wd_runs db)) of
        None \<Rightarrow>
          (case start_workflow new_id user trigger (Some run) (Some trip) tc db of
             (tc1, db1) \<Rightarrow> ((Inr (new_id, None), tc1), db1))
      | Some w \<Rightarrow>
          (case tc_plan tc of
             None \<Rightarrow> ((Inl (RuntimeError ''cannot resume a workflow without a task graph''), tc), db)
           | Some p \<Rightarrow>
               (let (from, steps) = resume_steps (wr_id w) (wd_tasks db) None (xp_steps p);
                    tc1 = tc\<lparr>tc_plan := Some (p\<lparr>xp_steps := steps\<rparr>), tc_workflow := Some (wr_id w),
                             tc_status := ''running''\<rparr>;
                    db1 = db\<lparr>wd_runs := update_first (\<lambda>r. wr_id r = wr_id w)
                              (\<lambda>r. r\<lparr>wr_status := ''running'', wr_completed := None\<rparr>) (wd_runs db)\<rparr>
                in ((Inr (wr_id w, from), tc1), checkpoint fr now (wr_id w) tc1 db1))))"

section \<open>The graph of in-trip replanning\<close>

definition dynamic_node ::
  "string \<Rightarrow> agent_type \<Rightarrow> execution_kind \<Rightarrow> string \<Rightarrow> string list \<Rightarrow> string \<Rightarrow> string \<Rightarrow> string \<Rightarrow> int \<times> int \<Rightarrow> plan_step" where
  "dynamic_node i a k duty deps inp out schema tokens =
     (node i a k duty deps inp out schema tokens [])
       \<lparr>gs_trigger := None,
        gs_budget := Some \<lparr>bu_steps = 1, bu_input_tokens = fst tokens, bu_output_tokens = snd tokens, bu_cost = 0\<rparr>\<rparr>"

definition dynamic_plan :: execution_plan where
  "dynamic_plan =
     \<lparr>xp_kind = Safety_sensitive_trip,
      xp_steps =
        [dynamic_node ''event_ingest'' Ag_companion Kind_stage ''accept_trip_event_from_companion'' []
           ''trip_observation'' ''trip_event_artifact'' ''TripEventArtifact'' (4000, 800),
         dynamic_node ''supervisor_dispatch'' Ag_supervisor Kind_stage ''route_event_to_replanner'' [''event_ingest'']
           ''trip_event_artifact'' ''trip_event_artifact'' ''TripEventArtifact'' (4000, 800),
         dynamic_node ''replanner'' Ag_replanner Kind_agent ''select_bounded_recovery_strategy'' [''supervisor_dispatch'']
           ''trip_event_artifact'' ''replan_directive'' ''ReplanDirective'' (1000, 400),
         dynamic_node ''deterministic_replan'' Ag_planner Kind_stage ''recompute_patch_with_provider_and_constraints''
           [''replanner''] ''replan_directive'' ''plan_patch_candidate'' ''PlanPatchArtifact'' (4000, 800),
         dynamic_node ''deterministic_review'' Ag_critic Kind_stage ''validate_patch_risk_and_hard_constraints''
           [''deterministic_replan''] ''plan_patch_candidate'' ''dynamic_patch_review'' ''DynamicPatchReview'' (4000, 800),
         dynamic_node ''final_answer'' Ag_supervisor Kind_stage ''assemble_patch_proposal'' [''deterministic_review'']
           ''dynamic_patch_review'' ''plan_patch_proposal'' ''PlanPatchArtifact'' (4000, 800)],
      xp_rationale = [''dynamic_event_recovery''], xp_skipped = []\<rparr>"

text \<open>\<open>_transition\<close>: a succeeded step is left alone; otherwise the change is checkpointed.\<close>

definition transition ::
  "(rat \<Rightarrow> string) \<Rightarrow> instant \<Rightarrow> int \<Rightarrow> string \<Rightarrow> node_status \<Rightarrow> bool \<Rightarrow> workflow_trace \<Rightarrow> workflow_db
     \<Rightarrow> unit res \<times> workflow_trace \<times> workflow_db" where
  "transition fr now run i st begins tc db =
     (case tc_plan tc of
        None \<Rightarrow> (Inl (RuntimeError ''dynamic workflow DAG is missing''), tc, db)
      | Some p \<Rightarrow>
          (case find_step i p of
             None \<Rightarrow> (Inl (RuntimeError ''coroutine raised StopIteration''), tc, db)
           | Some s \<Rightarrow>
               if gs_status s = Nd_succeeded then (Inr (), tc, db)
               else let tc1 = tc\<lparr>tc_plan := Some (set_plan_status i st begins p)\<rparr>
                    in (Inr (), tc1, checkpoint fr now run tc1 db)))"

text \<open>
  One attempt of \<open>run\<close>: every node begins, works and ends in turn. \<open>work i\<close> is what the work of node
  \<open>i\<close> gives: the exception it raises, if it does, and what it adds to the trace (\<open>_step\<close>, \<open>_stage\<close>,
  and one handoff per message);
  \<open>crash\<close> is the node in which the process dies, if it does; \<open>blocked\<close> is the verdict of the review.
\<close>

record node_trace =
  nt_steps :: "step_trace list"
  nt_stages :: "stage_trace list"
  nt_messages :: nat
  nt_cost :: rat

type_synonym node_work = "string \<Rightarrow> seen_exception option \<times> node_trace"

datatype ending = Finished | Raised seen_exception | Died

definition trace_work :: "node_trace \<Rightarrow> workflow_trace \<Rightarrow> workflow_trace" where
  "trace_work nt tc =
     tc\<lparr>tc_steps := tc_steps tc @ nt_steps nt, tc_stages := tc_stages tc @ nt_stages nt,
        tc_handoffs := tc_handoffs tc + int (nt_messages nt), tc_cost := tc_cost tc + nt_cost nt\<rparr>"

fun run_nodes ::
  "(rat \<Rightarrow> string) \<Rightarrow> instant \<Rightarrow> int \<Rightarrow> node_work \<Rightarrow> string option \<Rightarrow> bool
     \<Rightarrow> string list \<Rightarrow> workflow_trace \<Rightarrow> workflow_db \<Rightarrow> ending \<times> workflow_trace \<times> workflow_db" where
  "run_nodes fr now run work crash blocked [] tc db = (Finished, tc, db)"
| "run_nodes fr now run work crash blocked (i # ids) tc db =
     (case transition fr now run i Nd_running True tc db of (_, tc1, db1) \<Rightarrow>
        if crash = Some i then (Died, tc1, db1)
        else case work i of
               (Some e, nt) \<Rightarrow> (Raised e, trace_work nt tc1, db1)
             | (None, nt) \<Rightarrow>
                 (case transition fr now run i
                         (if i = ''deterministic_review'' \<and> blocked then Nd_blocked else Nd_succeeded) False
                         (trace_work nt tc1) db1 of
                    (_, tc2, db2) \<Rightarrow> run_nodes fr now run work crash blocked ids tc2 db2))"

definition dynamic_attempt ::
  "(rat \<Rightarrow> string) \<Rightarrow> instant \<Rightarrow> int \<Rightarrow> node_work \<Rightarrow> string option \<Rightarrow> bool
     \<Rightarrow> workflow_trace \<Rightarrow> workflow_db \<Rightarrow> ending \<times> workflow_trace \<times> workflow_db" where
  "dynamic_attempt fr now run work crash blocked tc db =
     (case run_nodes fr now run work crash blocked (map gs_id (xp_steps dynamic_plan)) tc db of
        (Died, tc1, db1) \<Rightarrow> (Died, tc1, db1)
      | (Raised e, tc1, db1) \<Rightarrow>
          (case fail_workflow fr now run (stable_tool_error e) tc1 db1 of (tc2, db2) \<Rightarrow> (Raised e, tc2, db2))
      | (Finished, tc1, db1) \<Rightarrow>
          (let tc2 = tc1\<lparr>tc_status := if blocked then ''blocked'' else ''succeeded''\<rparr>
           in (Finished, tc2, checkpoint fr now run tc2 db1)))"

end
