(* ===== verification/Workflow_Checkpoint_Properties.thy ===== *)
theory Workflow_Checkpoint_Properties
  imports Workflow_Checkpoints Task_Graph_Properties
begin

text \<open>
  The durable rows follow the trace, a resumed workflow continues where the rows say it stopped,
  and a node that succeeded is never counted again by a later attempt.
\<close>

section \<open>Rows and steps\<close>

definition row_of :: "int \<Rightarrow> string \<Rightarrow> workflow_db \<Rightarrow> task_row option" where
  "row_of run k db = List.find (own_task run k) (wd_tasks db)"

definition row_shows :: "int \<Rightarrow> plan_step \<Rightarrow> workflow_db \<Rightarrow> bool" where
  "row_shows run s db \<longleftrightarrow>
     (\<exists>t. row_of run (gs_id s) db = Some t \<and> tk_status t = gs_status s \<and> tk_attempts t = gs_attempts s)"

lemma own_apply_task [simp]: "own_task run k (apply_task fr now tc s t) = own_task run k t"
  by (simp add: own_task_def apply_task_def Let_def)

lemma apply_task_simps [simp]:
  "tk_status (apply_task fr now tc s t) = gs_status s"
  "tk_attempts (apply_task fr now tc s t) = gs_attempts s"
  by (simp_all add: apply_task_def Let_def)

lemma own_new_task: "own_task run k (new_task r s) \<longleftrightarrow> r = run \<and> gs_id s = k"
  by (simp add: own_task_def new_task_def)

lemma own_task_unique: "own_task run k t \<Longrightarrow> own_task r j t \<longleftrightarrow> r = run \<and> j = k"
  by (auto simp: own_task_def)

lemma find_snoc: "List.find P (xs @ [x]) = (case List.find P xs of None \<Rightarrow> if P x then Some x else None | Some y \<Rightarrow> Some y)"
  by (induction xs) auto

lemma find_update_other:
  "(\<And>x. Q x \<Longrightarrow> \<not> P x) \<Longrightarrow> (\<And>x. P (f x) = P x) \<Longrightarrow> List.find P (update_first Q f xs) = List.find P xs"
  by (induction xs) auto

lemma find_update_same:
  "(\<And>x. P (f x) = P x) \<Longrightarrow> list_ex P xs \<Longrightarrow> List.find P (update_first P f xs) = map_option f (List.find P xs)"
  by (induction xs) auto

lemma find_write_task:
  "List.find (own_task r k) (write_task fr now run tc s rows) =
     (if r = run \<and> k = gs_id s
      then Some (apply_task fr now tc s (case List.find (own_task run k) rows of None \<Rightarrow> new_task run s | Some t \<Rightarrow> t))
      else List.find (own_task r k) rows)"
proof (cases "r = run \<and> k = gs_id s")
  case True
  have ex: "list_ex (own_task run (gs_id s)) rows \<longleftrightarrow> List.find (own_task run (gs_id s)) rows \<noteq> None"
    by (auto simp: find_None_iff list_ex_iff)
  show ?thesis
    using True ex
    by (auto simp: write_task_def find_update_same find_snoc own_new_task split: option.split)
next
  case False
  have "List.find (own_task r k) (update_first (own_task run (gs_id s)) (apply_task fr now tc s) rows)
      = List.find (own_task r k) rows"
    by (rule find_update_other) (use False own_task_unique in auto)
  then show ?thesis
    using False by (auto simp: write_task_def find_snoc own_new_task split: option.split)
qed


lemma checkpoint_shows:
  assumes "tc_plan tc = Some p" "distinct (map gs_id (xp_steps p))" "s \<in> set (xp_steps p)"
  shows "row_shows run s (checkpoint fr now run tc db)"
proof -
  have keep: "List.find (own_task run k) (fold (write_task fr now run tc) ss rows) = List.find (own_task run k) rows"
    if "k \<notin> gs_id ` set ss" for k ss rows
    using that by (induction ss arbitrary: rows) (auto simp: find_write_task)
  have "\<exists>t. List.find (own_task run (gs_id s)) (fold (write_task fr now run tc) ss rows) = Some t
      \<and> tk_status t = gs_status s \<and> tk_attempts t = gs_attempts s"
    if "distinct (map gs_id ss)" "s \<in> set ss" for ss rows
    using that
  proof (induction ss arbitrary: rows)
    case (Cons a ss)
    then show ?case by (cases "a = s") (auto simp: keep find_write_task)
  qed simp
  then show ?thesis using assms by (simp add: row_shows_def row_of_def checkpoint_def)
qed

section \<open>Resumption\<close>

lemma load_shown:
  assumes "row_shows run s db" "gs_id q = gs_id s"
  shows "load_step run (wd_tasks db) q = q\<lparr>gs_status := gs_status s, gs_attempts := gs_attempts s\<rparr>"
  using assms by (auto simp: row_shows_def row_of_def load_step_def)

definition resumed :: "string option \<Rightarrow> plan_step \<Rightarrow> plan_step \<Rightarrow> bool" where
  "resumed from s t \<longleftrightarrow>
     gs_id t = gs_id s \<and> gs_attempts t = gs_attempts s
   \<and> (\<not> unfinished (gs_status s) \<longrightarrow> gs_status t = gs_status s)
   \<and> (unfinished (gs_status s) \<longrightarrow> gs_status t \<in> {Nd_retrying, Nd_pending} \<or> gs_status t = gs_status s \<and> gs_status s = Nd_running)
   \<and> (from = Some (gs_id s) \<longrightarrow> gs_status t = Nd_retrying)"

lemma resume_steps_later:
  assumes "\<forall>s \<in> set ss. row_shows run s db" "map gs_id qs = map gs_id ss" "k \<notin> gs_id ` set ss"
  shows "\<exists>ts. resume_steps run (wd_tasks db) (Some k) qs = (Some k, ts) \<and> list_all2 (resumed (Some k)) ss ts"
  using assms
proof (induction ss arbitrary: qs)
  case (Cons s ss)
  then obtain q qs' where q: "qs = q # qs'" "gs_id q = gs_id s" "map gs_id qs' = map gs_id ss" by (cases qs) auto
  obtain ts where ts: "resume_steps run (wd_tasks db) (Some k) qs' = (Some k, ts)" "list_all2 (resumed (Some k)) ss ts"
    using Cons.IH [of qs'] Cons.prems q by auto
  have load: "load_step run (wd_tasks db) q = q\<lparr>gs_status := gs_status s, gs_attempts := gs_attempts s\<rparr>"
    using load_shown [of run s db q] Cons.prems(1) q(2) by simp
  have "resumed (Some k) s (let t = q\<lparr>gs_status := gs_status s, gs_attempts := gs_attempts s\<rparr>
      in if gs_status t \<in> {Nd_blocked, Nd_failed, Nd_retrying} then t\<lparr>gs_status := Nd_pending\<rparr> else t)"
    using q(2) Cons.prems(3) by (cases "gs_status s") (auto simp: resumed_def unfinished_def Let_def)
  then show ?case
    using ts load q(1) by (simp add: Let_def)
qed simp

lemma find_Some_in: "List.find P xs = Some x \<Longrightarrow> x \<in> set xs \<and> P x"
  by (induction xs) (auto split: if_splits)

lemma resume_steps_shown:
  assumes "\<forall>s \<in> set ss. row_shows run s db" "map gs_id qs = map gs_id ss" "distinct (map gs_id ss)"
  shows "\<exists>ts. resume_steps run (wd_tasks db) None qs =
      (map_option gs_id (List.find (\<lambda>s. unfinished (gs_status s)) ss), ts)
    \<and> list_all2 (resumed (map_option gs_id (List.find (\<lambda>s. unfinished (gs_status s)) ss))) ss ts"
  using assms
proof (induction ss arbitrary: qs)
  case (Cons s ss)
  then obtain q qs' where q: "qs = q # qs'" "gs_id q = gs_id s" "map gs_id qs' = map gs_id ss" by (cases qs) auto
  have load: "load_step run (wd_tasks db) q = q\<lparr>gs_status := gs_status s, gs_attempts := gs_attempts s\<rparr>"
    using load_shown [of run s db q] Cons.prems(1) q(2) by simp
  show ?case
  proof (cases "unfinished (gs_status s)")
    case True
    obtain ts where "resume_steps run (wd_tasks db) (Some (gs_id s)) qs' = (Some (gs_id s), ts)"
      "list_all2 (resumed (Some (gs_id s))) ss ts"
      using resume_steps_later [of ss run db qs' "gs_id s"] Cons.prems q by auto
    moreover have "resumed (Some (gs_id s)) s (q\<lparr>gs_attempts := gs_attempts s, gs_status := Nd_retrying\<rparr>)"
      using q(2) True by (simp add: resumed_def)
    ultimately show ?thesis using True load q(1,2) by (simp add: Let_def)
  next
    case False
    obtain ts where "resume_steps run (wd_tasks db) None qs' =
        (map_option gs_id (List.find (\<lambda>s. unfinished (gs_status s)) ss), ts)"
      "list_all2 (resumed (map_option gs_id (List.find (\<lambda>s. unfinished (gs_status s)) ss))) ss ts"
      using Cons.IH [of qs'] Cons.prems q by auto
    moreover have "map_option gs_id (List.find (\<lambda>s. unfinished (gs_status s)) ss) \<noteq> Some (gs_id s)"
      using Cons.prems(3) by (auto dest!: find_Some_in intro: rev_image_eqI)
    then have "resumed (map_option gs_id (List.find (\<lambda>s. unfinished (gs_status s)) ss)) s
        (q\<lparr>gs_status := gs_status s, gs_attempts := gs_attempts s\<rparr>)"
      using False q(2) unfolding resumed_def by auto
    ultimately show ?thesis using False load q(1) by (simp add: Let_def)
  qed
qed simp

lemma find_first_resumed:
  assumes "list_all2 (resumed from) ss ts" "t \<in> set ts"
  shows "\<exists>s \<in> set ss. resumed from s t"
  using assms by (induction rule: list_all2_induct) auto

definition shown_plan :: "int \<Rightarrow> execution_plan \<Rightarrow> workflow_db \<Rightarrow> bool" where
  "shown_plan run p db \<longleftrightarrow> (\<forall>s \<in> set (xp_steps p). row_shows run s db)"

lemma resume_shown:
  assumes "shown_plan run p db" "distinct (map gs_id (xp_steps p))"
    and "newest (filter (resumable user trip trigger) (wd_runs db)) = Some r" "wr_id r = run"
    and "tc_plan tc = Some q" "map gs_id (xp_steps q) = map gs_id (xp_steps p)"
  defines "from \<equiv> map_option gs_id (List.find (\<lambda>s. unfinished (gs_status s)) (xp_steps p))"
  shows "\<exists>tc2 db2 ts. resume_or_start fr now new_id user trigger pr trip tc db = ((Inr (run, from), tc2), db2)
     \<and> tc_plan tc2 = Some (q\<lparr>xp_steps := ts\<rparr>) \<and> list_all2 (resumed from) (xp_steps p) ts
     \<and> shown_plan run (q\<lparr>xp_steps := ts\<rparr>) db2"
proof -
  obtain ts where ts: "resume_steps run (wd_tasks db) None (xp_steps q) = (from, ts)"
    "list_all2 (resumed from) (xp_steps p) ts"
    using resume_steps_shown [of "xp_steps p" run db "xp_steps q"] assms(1,2,6)
    unfolding shown_plan_def from_def by auto
  define tc2 where "tc2 = tc\<lparr>tc_plan := Some (q\<lparr>xp_steps := ts\<rparr>), tc_workflow := Some run, tc_status := ''running''\<rparr>"
  define db2 where "db2 = checkpoint fr now run tc2 (db\<lparr>wd_runs := update_first (\<lambda>x. wr_id x = run)
      (\<lambda>x. x\<lparr>wr_status := ''running'', wr_completed := None\<rparr>) (wd_runs db)\<rparr>)"
  have "map gs_id ts = map gs_id (xp_steps p)"
    using ts(2) by (induction rule: list_all2_induct) (auto simp: resumed_def)
  then have dist: "distinct (map gs_id (xp_steps (q\<lparr>xp_steps := ts\<rparr>)))" using assms(2) by simp
  have "resume_or_start fr now new_id user trigger pr trip tc db = ((Inr (run, from), tc2), db2)"
    using assms(3,4,5) ts(1) by (simp add: resume_or_start_def tc2_def db2_def Let_def)
  moreover have "tc_plan tc2 = Some (q\<lparr>xp_steps := ts\<rparr>)" by (simp add: tc2_def)
  moreover have "shown_plan run (q\<lparr>xp_steps := ts\<rparr>) db2"
    unfolding shown_plan_def db2_def
    by (intro ballI checkpoint_shows [where p = "q\<lparr>xp_steps := ts\<rparr>"] dist) (simp_all add: tc2_def)
  ultimately show ?thesis using ts(2) by blast
qed

section \<open>Failure\<close>

lemma row_shows_map:
  assumes "\<And>t. tk_run (g t) = tk_run t \<and> tk_key (g t) = tk_key t \<and> tk_status (g t) = tk_status t \<and> tk_attempts (g t) = tk_attempts t"
  shows "row_shows run s (db\<lparr>wd_tasks := map g (wd_tasks db)\<rparr>) = row_shows run s db"
proof -
  have "List.find (own_task run k) (map g ts) = map_option g (List.find (own_task run k) ts)" for k ts
    using assms by (induction ts) (auto simp: own_task_def)
  then show ?thesis
    using assms by (cases "List.find (own_task run (gs_id s)) (wd_tasks db)") (simp_all add: row_shows_def row_of_def)
qed

lemma fail_shown:
  assumes "tc_plan tc = Some p" "distinct (map gs_id (xp_steps p))"
  shows "\<exists>tc1 db1. fail_workflow fr now run reason tc db = (tc1, db1)
     \<and> tc_plan tc1 = Some (p\<lparr>xp_steps := map fail_step (xp_steps p)\<rparr>) \<and> tc_status tc1 = ''failed''
     \<and> shown_plan run (p\<lparr>xp_steps := map fail_step (xp_steps p)\<rparr>) db1
     \<and> wd_runs db1 = update_first (\<lambda>r. wr_id r = run) (write_run now tc1) (wd_runs db)"
proof -
  have ids: "gs_id (fail_step s) = gs_id s" for s by (simp add: fail_step_def)
  have "distinct (map gs_id (map fail_step (xp_steps p)))" using assms(2) by (simp add: comp_def ids)
  then have "row_shows run s (checkpoint fr now run (fail_trace tc) db)" if "s \<in> set (map fail_step (xp_steps p))" for s
    using checkpoint_shows [of "fail_trace tc" "p\<lparr>xp_steps := map fail_step (xp_steps p)\<rparr>" s] that assms(1)
    by (simp add: fail_trace_def)
  then have shown: "shown_plan run (p\<lparr>xp_steps := map fail_step (xp_steps p)\<rparr>)
      (snd (fail_workflow fr now run reason tc db))"
    unfolding fail_workflow_def Let_def shown_plan_def snd_conv
    by (subst row_shows_map) auto
  show ?thesis
    using assms(1) shown
    by (intro exI [of _ "fail_trace tc"] exI [of _ "snd (fail_workflow fr now run reason tc db)"] conjI)
      (simp_all add: fail_workflow_def Let_def fail_trace_def checkpoint_def)
qed

lemma fail_step_ended: "gs_status (fail_step s) \<in> {Nd_succeeded, Nd_failed, Nd_blocked, Nd_skipped}"
  by (cases "gs_status s") (auto simp: fail_step_def)

section \<open>A node that succeeded\<close>











definition fresh_trace :: "execution_mode \<Rightarrow> string \<Rightarrow> workflow_trace" where
  "fresh_trace ex task =
     \<lparr>tc_mode = Mode_enforce, tc_execution = ex, tc_task = task, tc_status = ''running'', tc_steps = [],
      tc_stages = [], tc_plan = Some dynamic_plan, tc_shared = None, tc_handoffs = 0, tc_retries = 0,
      tc_cost = 0, tc_workflow = None\<rparr>"





lemma newest_in: "newest rs = Some r \<Longrightarrow> r \<in> set rs"
  by (cases rs) (auto simp: newest_def dest: find_Some_in split: if_splits)


section \<open>An attempt that is not interrupted\<close>






lemma dynamic_ids: "distinct (map gs_id (xp_steps dynamic_plan))"
  by (simp add: dynamic_plan_def dynamic_node_def node_def)




section \<open>Properties\<close>

lemma newest_failed:
  assumes "distinct (map wr_id rs)" "r \<in> set rs" "wr_id r = run"
    and "wr_user r = user" "wr_trip r = Some trip" "wr_trigger r = trigger"
    and "\<forall>x \<in> set rs. resumable user trip trigger x \<longrightarrow> wr_id x \<le> run"
    and "tc_status tc = ''failed''"
  shows "newest (filter (resumable user trip trigger) (update_first (\<lambda>x. wr_id x = run) (write_run now tc) rs))
     = Some (write_run now tc r)"
proof -
  let ?rs = "filter (resumable user trip trigger) (update_first (\<lambda>x. wr_id x = run) (write_run now tc) rs)"
  have upd: "update_first (\<lambda>x. wr_id x = run) (write_run now tc) rs = map (\<lambda>x. if x = r then write_run now tc r else x) rs"
    using assms(1,2,3)
  proof (induction rs)
    case (Cons a rs)
    have same: "map (\<lambda>x. if x = r then write_run now tc r else x) rs = rs" if "r \<notin> set rs"
      using that by (induction rs) auto
    show ?case using Cons same by (auto simp: image_iff)
  qed simp
  have new: "resumable user trip trigger (write_run now tc r)" "wr_id (write_run now tc r) = run"
    using assms(3-6,8) by (auto simp: resumable_def write_run_def)
  have mem: "write_run now tc r \<in> set ?rs" using upd assms(2) new by auto
  have le: "\<forall>x \<in> set ?rs. wr_id x \<le> run" using upd assms(3,7) new(2) by auto
  have unique: "x = write_run now tc r" if "x \<in> set ?rs" "wr_id x = run" for x
    using that upd assms(1,2,3) by (auto simp: distinct_map split: if_splits dest: inj_onD)
  have find: "List.find (\<lambda>r. \<forall>q \<in> set ?rs. wr_id q \<le> wr_id r) ?rs = Some (write_run now tc r)"
  proof (cases "List.find (\<lambda>r. \<forall>q \<in> set ?rs. wr_id q \<le> wr_id r) ?rs")
    case None
    then show ?thesis using mem le new(2) by (auto simp: find_None_iff simp del: set_filter)
  next
    case (Some x)
    then have "x \<in> set ?rs" "\<forall>q \<in> set ?rs. wr_id q \<le> wr_id x" by (auto dest!: find_Some_in)
    then have "wr_id x = run" using mem le new(2) by (metis antisym)
    then show ?thesis using Some unique \<open>x \<in> set ?rs\<close> by simp
  qed
  then show ?thesis using mem unfolding newest_def by (cases ?rs) auto
qed

text \<open>
  C20: A workflow that fails is resumed where it stopped. After the failure no node of its graph is
  pending, running or retrying and every row of the database agrees with the graph; a later call
  for the same user, trip and trigger finds that run, starts again at the first node that had not
  finished, keeps the status of the finished ones and the attempts of all.
\<close>

theorem failed_workflow_resumes:
  assumes "tc_plan tc = Some p" "distinct (map gs_id (xp_steps p))"
    and "distinct (map wr_id (wd_runs db))" "r \<in> set (wd_runs db)" "wr_id r = run"
    and "wr_user r = user" "wr_trip r = Some trip" "wr_trigger r = trigger"
    and "\<forall>x \<in> set (wd_runs db). resumable user trip trigger x \<longrightarrow> wr_id x \<le> run"
    and "tc_plan fresh = Some q" "map gs_id (xp_steps q) = map gs_id (xp_steps p)"
  shows "\<exists>tc1 db1 tc2 db2 failed_steps steps.
     fail_workflow fr now run reason tc db = (tc1, db1)
   \<and> tc_plan tc1 = Some (p\<lparr>xp_steps := failed_steps\<rparr>)
   \<and> (\<forall>s \<in> set failed_steps. row_shows run s db1 \<and> gs_status s \<in> {Nd_succeeded, Nd_failed, Nd_blocked, Nd_skipped})
   \<and> resume_or_start fr later new_id user trigger pr trip fresh db1
       = ((Inr (run, map_option gs_id (List.find (\<lambda>s. gs_status s \<notin> {Nd_succeeded, Nd_skipped}) (xp_steps p))), tc2), db2)
   \<and> tc_plan tc2 = Some (q\<lparr>xp_steps := steps\<rparr>)
   \<and> list_all2 (\<lambda>s t. gs_id t = gs_id s \<and> gs_attempts t = gs_attempts s
        \<and> (if gs_status s \<in> {Nd_succeeded, Nd_skipped} then gs_status t = gs_status s
           else gs_status t \<in> {Nd_retrying, Nd_pending})) (xp_steps p) steps"
proof -
  let ?p = "p\<lparr>xp_steps := map fail_step (xp_steps p)\<rparr>"
  obtain tc1 db1 where f: "fail_workflow fr now run reason tc db = (tc1, db1)" "tc_plan tc1 = Some ?p"
    "tc_status tc1 = ''failed''" "shown_plan run ?p db1"
    "wd_runs db1 = update_first (\<lambda>r. wr_id r = run) (write_run now tc1) (wd_runs db)"
    using fail_shown [OF assms(1,2), of fr now run reason db] by blast
  have fail_id: "gs_id (fail_step s) = gs_id s" "gs_attempts (fail_step s) = gs_attempts s" for s
    by (simp_all add: fail_step_def)
  have ids: "map gs_id (xp_steps ?p) = map gs_id (xp_steps p)" by (simp add: comp_def fail_id)
  have fresh: "newest (filter (resumable user trip trigger) (wd_runs db1)) = Some (write_run now tc1 r)"
    unfolding f(5) by (rule newest_failed [OF assms(3-9) f(3)])
  have dist: "distinct (map gs_id (xp_steps ?p))" unfolding ids by (rule assms(2))
  have qids: "map gs_id (xp_steps q) = map gs_id (xp_steps ?p)" unfolding ids by (rule assms(11))
  have wr: "wr_id (write_run now tc1 r) = run" using assms(5) by (simp add: write_run_def)
  have open_iff: "unfinished (gs_status (fail_step s)) \<longleftrightarrow> gs_status s \<notin> {Nd_succeeded, Nd_skipped}" for s
    by (cases "gs_status s") (auto simp: fail_step_def unfinished_def)
  have first: "map_option gs_id (List.find (\<lambda>s. unfinished (gs_status s)) (map fail_step ss))
      = map_option gs_id (List.find (\<lambda>s. gs_status s \<notin> {Nd_succeeded, Nd_skipped}) ss)" for ss
  proof (induction ss)
    case (Cons a ss)
    then show ?case by (cases "gs_status a \<in> {Nd_succeeded, Nd_skipped}") (simp_all add: open_iff fail_id del: insert_iff)
  qed simp
  obtain tc2 db2 ts where g: "resume_or_start fr later new_id user trigger pr trip fresh db1 =
      ((Inr (run, map_option gs_id (List.find (\<lambda>s. unfinished (gs_status s)) (map fail_step (xp_steps p)))), tc2), db2)"
    "tc_plan tc2 = Some (q\<lparr>xp_steps := ts\<rparr>)"
    "list_all2 (resumed (map_option gs_id (List.find (\<lambda>s. unfinished (gs_status s)) (xp_steps ?p)))) (xp_steps ?p) ts"
    using resume_shown [OF f(4) dist fresh wr assms(10) qids, of fr later new_id pr] by auto
  have each: "resumed from (fail_step s) t \<Longrightarrow> gs_id t = gs_id s \<and> gs_attempts t = gs_attempts s
        \<and> (if gs_status s \<in> {Nd_succeeded, Nd_skipped} then gs_status t = gs_status s
           else gs_status t \<in> {Nd_retrying, Nd_pending})" for "from" s t
    by (cases "gs_status s") (auto simp: resumed_def fail_step_def unfinished_def)
  have steps: "list_all2 (\<lambda>s t. gs_id t = gs_id s \<and> gs_attempts t = gs_attempts s
        \<and> (if gs_status s \<in> {Nd_succeeded, Nd_skipped} then gs_status t = gs_status s
           else gs_status t \<in> {Nd_retrying, Nd_pending})) (xp_steps p) ts"
    using g(3) by (auto simp: list_all2_conv_all_nth dest!: each)
  have "\<forall>s \<in> set (map fail_step (xp_steps p)).
      row_shows run s db1 \<and> gs_status s \<in> {Nd_succeeded, Nd_failed, Nd_blocked, Nd_skipped}"
    using f(4) fail_step_ended by (auto simp: shown_plan_def)
  with f(1,2) g(1,2) steps show ?thesis
    unfolding first [symmetric] execution_plan.update_convs execution_plan.select_convs
    by blast
qed



section \<open>Instances\<close>

definition sample_run :: run_entry where
  "sample_run = \<lparr>wr_id = 7, wr_user = 1, wr_planning_run = Some 3, wr_trip = Some 2, wr_trigger = ''trip_event:5'',
     wr_mode = Mode_enforce, wr_execution = Ex_sync, wr_status = ''running'', wr_handoffs = 0, wr_retries = 0,
     wr_cost = 0, wr_completed = None\<rparr>"

definition sample_db :: workflow_db where
  "sample_db = \<lparr>wd_runs = [sample_run],
     wd_tasks = [\<lparr>tk_run = 7, tk_key = ''event_ingest'', tk_role = Ag_companion, tk_kind = Kind_stage,
        tk_status = Nd_succeeded, tk_depends = [], tk_attempts = 1, tk_output = ''trip_event_artifact'',
        tk_budget = None, tk_summary = None, tk_version = 1, tk_updated = 0\<rparr>],
     wd_snapshots = []\<rparr>"

theorem failed_workflow_resumes_witness:
  "\<exists>tc1 db1. fail_workflow (\<lambda>q. []) 10 7 ''TIMEOUT'' (fresh_trace Ex_sync ''trip-2-event-5'') sample_db = (tc1, db1)
     \<and> (\<exists>tc2 db2. resume_or_start (\<lambda>q. []) 20 8 1 ''trip_event:5'' 3 2 (fresh_trace Ex_sync ''trip-2-event-5'') db1
          = ((Inr (7, Some ''event_ingest''), tc2), db2))"
proof -
  have first: "map_option gs_id (List.find (\<lambda>s. gs_status s \<notin> {Nd_succeeded, Nd_skipped}) (xp_steps dynamic_plan)) = Some ''event_ingest''"
    by (simp add: dynamic_plan_def dynamic_node_def node_def)
  show ?thesis
    using failed_workflow_resumes [of "fresh_trace Ex_sync ''trip-2-event-5''" dynamic_plan sample_db sample_run 7 1 2 "''trip_event:5''"
        "fresh_trace Ex_sync ''trip-2-event-5''" dynamic_plan "\<lambda>q. []" 10 "''TIMEOUT''" 20 8 3] dynamic_ids
    unfolding first by (simp add: fresh_trace_def sample_db_def sample_run_def) blast
qed



end
