(* ===== verification/Route_Review.thy ===== *)
theory Route_Review
  imports Agent_Deciders Task_Graph
begin

text \<open>
  The review of a plan before it is returned: the deterministic route evaluation
  (\<open>services/agent_evaluation.py\<close>), the review report of \<open>schemas/agent_artifacts.py\<close> with its
  validator, and the critics of \<open>services/agents/critic_agent.py\<close>: the rule-based one, the one that
  asks a model, and the one that routes between them. A plan is the JSON object the workflow hands
  over. Messages for people, latencies and metrics are left out.
\<close>

section \<open>Reading JSON the way Python does\<close>

text \<open>
  What the code relies on of the interpreter: \<open>float\<close> of a text, \<open>datetime.fromisoformat\<close>,
  \<open>str.casefold\<close>, and \<open>str\<close> of a value that is no text.
\<close>

record python_texts =
  tt_float :: "string \<Rightarrow> rat option"
  tt_iso :: "string \<Rightarrow> departure_text"
  tt_fold :: "string \<Rightarrow> string"
  tt_str :: "json \<Rightarrow> string"

definition get_of :: "json \<Rightarrow> string \<Rightarrow> json res" where
  "get_of v k = (case v of JObj kvs \<Rightarrow> Inr (obj_get kvs k) | _ \<Rightarrow> Inl AttributeError)"

definition or_empty :: "json \<Rightarrow> json" where
  "or_empty v = (if json_truthy v then v else JObj [])"

text \<open>Iterating over \<open>v or []\<close>: a dictionary gives its keys, a text its characters.\<close>

definition items_of :: "json \<Rightarrow> json list res" where
  "items_of v =
     (if \<not> json_truthy v then Inr []
      else case v of
        JArr xs \<Rightarrow> Inr xs
      | JObj kvs \<Rightarrow> Inr (map (JStr \<circ> fst) kvs)
      | JStr s \<Rightarrow> Inr (map (\<lambda>c. JStr [c]) s)
      | _ \<Rightarrow> Inl TypeError)"

definition to_float :: "python_texts \<Rightarrow> json \<Rightarrow> rat res" where
  "to_float T v =
     (case v of
        JInt i \<Rightarrow> Inr (of_int i)
      | JFloat q \<Rightarrow> Inr q
      | JBool b \<Rightarrow> Inr (if b then 1 else 0)
      | JStr s \<Rightarrow> (case tt_float T s of None \<Rightarrow> Inl (ValueError ''could not convert string to float'') | Some q \<Rightarrow> Inr q)
      | _ \<Rightarrow> Inl TypeError)"

definition float_or0 :: "python_texts \<Rightarrow> json \<Rightarrow> rat res" where
  "float_or0 T v = to_float T (if json_truthy v then v else JInt 0)"

text \<open>\<open>_number\<close> and \<open>_datetime\<close>.\<close>

definition number_of :: "python_texts \<Rightarrow> json \<Rightarrow> rat" where
  "number_of T v = (case to_float T v of Inl _ \<Rightarrow> 0 | Inr q \<Rightarrow> q)"

definition moment_of :: "python_texts \<Rightarrow> json \<Rightarrow> departure_text" where
  "moment_of T v =
     (case v of JStr s \<Rightarrow> (case tt_iso T s of Not_iso \<Rightarrow> No_departure | m \<Rightarrow> m) | _ \<Rightarrow> No_departure)"

definition str_or_empty :: "python_texts \<Rightarrow> json \<Rightarrow> string" where
  "str_or_empty T v = (if \<not> json_truthy v then [] else case v of JStr s \<Rightarrow> s | _ \<Rightarrow> tt_str T v)"

text \<open>A value in an f-string.\<close>

definition format_of :: "python_texts \<Rightarrow> json \<Rightarrow> string" where
  "format_of T v = (case v of JStr s \<Rightarrow> s | _ \<Rightarrow> tt_str T v)"

definition round2 :: "rat \<Rightarrow> rat" where
  "round2 x = of_int (round_half_even (x * 100)) / 100"

section \<open>The evaluation of a route\<close>

record expected_preferences =
  ep_avoid_hiking :: "bool option"
  ep_style :: "string option"
  ep_minimize_walking :: "bool option"
  ep_high_rating :: "bool option"

record evaluation_policy =
  rp_max_distance :: "rat option"
  rp_max_seconds :: "rat option"
  rp_hard_seconds :: "rat option"
  rp_relaxed_stops :: int
  rp_relaxed_walking :: rat
  rp_relaxed_seconds :: rat
  rp_min_rating :: rat
  rp_pass :: rat
  rp_expected :: expected_preferences

datatype severity = Sev_info | Sev_warning | Sev_blocking

type_synonym route_finding = "string \<times> severity"

record agent_route_evaluation =
  rte_distance :: rat
  rte_time :: rat
  rte_preference :: rat
  rte_final :: rat
  rte_passed :: bool
  rte_hard :: "string list"
  rte_findings :: "route_finding list"

definition evaluation_ok :: "agent_route_evaluation \<Rightarrow> bool" where
  "evaluation_ok e \<longleftrightarrow>
     rte_distance e \<in> {0..100} \<and> rte_time e \<in> {0..100} \<and> rte_preference e \<in> {0..100} \<and> rte_final e \<in> {0..100}
   \<and> (rte_hard e \<noteq> [] \<longrightarrow> rte_final e = 0)"

definition bounded_score :: "rat \<Rightarrow> rat option \<Rightarrow> rat" where
  "bounded_score actual limit =
     (case limit of
        None \<Rightarrow> 100
      | Some l \<Rightarrow>
          if actual \<le> l then 100
          else if l * 2 \<le> actual then 0
          else max 0 (100 * (2 - actual / l)))"

definition hiking_terms :: "string list" where
  "hiking_terms =
    [utf8 [231, 136, 172, 229, 177, 177],
     utf8 [231, 153, 187, 229, 177, 177],
     utf8 [229, 190, 146, 230, 173, 165],
     utf8 [229, 177, 177, 229, 179, 176],
     utf8 [229, 177, 177, 229, 178, 179],
     utf8 [231, 153, 187, 229, 177, 177, 230, 173, 165, 233, 129, 147],
     ''hiking'', ''mountain trail'']"

text \<open>
  A stop with its parts. The code reads them at several places; whichever it reaches first, a part
  that is no dictionary raises the same exception.
\<close>

record route_stop =
  rts_fields :: payload
  rts_poi :: payload
  rts_task :: payload
  rts_travel :: payload

definition view_stop :: "payload \<Rightarrow> route_stop res" where
  "view_stop s =
     res_bind (sub_object s ''poi'') (\<lambda>poi.
     res_bind (sub_object s ''task'') (\<lambda>task.
     res_bind (sub_object s ''travel'') (\<lambda>travel.
       Inr \<lparr>rts_fields = s, rts_poi = poi, rts_task = task, rts_travel = travel\<rparr>)))"

fun space_join :: "string list \<Rightarrow> string" where
  "space_join [] = []"
| "space_join [w] = w"
| "space_join (w # ws) = w @ CHR '' '' # space_join ws"

definition contains_hiking :: "python_texts \<Rightarrow> route_stop list \<Rightarrow> bool" where
  "contains_hiking T stops \<longleftrightarrow>
     list_ex (\<lambda>s.
       let words = map (str_or_empty T)
             [obj_get (rts_poi s) ''name'', obj_get (rts_poi s) ''address'', obj_get (rts_task s) ''description'',
              obj_get (rts_task s) ''location_name'', obj_get (rts_task s) ''category'']
       in list_ex (\<lambda>t. contains t (tt_fold T (space_join words))) hiking_terms) stops"

definition only_true :: "json \<Rightarrow> bool option" where
  "only_true v = (if json_truthy v then Some True else None)"

text \<open>\<open>x in {"relaxed", "intensive"}\<close> raises for a value that cannot be hashed.\<close>

definition hashable :: "json \<Rightarrow> bool" where
  "hashable v \<longleftrightarrow> (case v of JArr _ \<Rightarrow> False | JObj _ \<Rightarrow> False | _ \<Rightarrow> True)"

definition expected_style :: "json \<Rightarrow> string option res" where
  "expected_style v =
     (if \<not> hashable v then Inl TypeError
      else Inr (if v = JStr ''relaxed'' then Some ''relaxed''
                else if v = JStr ''intensive'' then Some ''intensive'' else None))"

definition expected_from_plan :: "payload \<Rightarrow> expected_preferences res" where
  "expected_from_plan plan =
     res_bind (sub_object plan ''intent'') (\<lambda>intent.
     res_bind (sub_object intent ''preferences'') (\<lambda>p.
     res_bind (expected_style (obj_get p ''travel_style'')) (\<lambda>style.
       Inr \<lparr>ep_avoid_hiking = only_true (obj_get p ''avoid_hiking''), ep_style = style,
            ep_minimize_walking = only_true (obj_get p ''minimize_walking''),
            ep_high_rating = only_true (obj_get p ''prefer_high_rating'')\<rparr>)))"

definition runtime_route_policy :: "payload \<Rightarrow> evaluation_policy res" where
  "runtime_route_policy plan =
     res_bind (expected_from_plan plan) (\<lambda>e.
       Inr \<lparr>rp_max_distance = None, rp_max_seconds = None, rp_hard_seconds = None, rp_relaxed_stops = 4,
            rp_relaxed_walking = 6000, rp_relaxed_seconds = 14400, rp_min_rating = 42 / 10, rp_pass = 75,
            rp_expected = e\<rparr>)"

definition blocks_with :: "bool \<Rightarrow> string \<Rightarrow> route_finding list" where
  "blocks_with b c = only_if b (c, Sev_blocking)"

text \<open>\<open>_after\<close> and what is reported of it: naive and aware times cannot be compared.\<close>

definition late_findings :: "departure_text \<Rightarrow> departure_text \<Rightarrow> string \<Rightarrow> route_finding list" where
  "late_findings left right code =
     (case (left, right) of
        (Naive a, Naive b) \<Rightarrow> blocks_with (b < a) code
      | (Aware a, Aware b) \<Rightarrow> blocks_with (b < a) code
      | (Naive _, Aware _) \<Rightarrow> blocks_with True ''time_evidence_invalid''
      | (Aware _, Naive _) \<Rightarrow> blocks_with True ''time_evidence_invalid''
      | _ \<Rightarrow> [])"

definition stop_findings :: "python_texts \<Rightarrow> route_stop \<Rightarrow> route_finding list" where
  "stop_findings T s =
     blocks_with (obj_get (rts_fields s) ''constraint_satisfied'' = JBool False) ''stop_constraint_violated''
   @ late_findings (moment_of T (obj_get (rts_fields s) ''arrival_time''))
       (moment_of T (obj_get (rts_task s) ''deadline'')) ''task_deadline_exceeded''"

definition poi_ids :: "python_texts \<Rightarrow> route_stop list \<Rightarrow> string list" where
  "poi_ids T stops = map (\<lambda>s. str_or_empty T (obj_get (rts_poi s) ''id'')) stops"

definition walking_meters :: "python_texts \<Rightarrow> json \<Rightarrow> route_stop list \<Rightarrow> rat" where
  "walking_meters T mode stops =
     sum_list (map (\<lambda>s. number_of T (obj_get (rts_travel s) ''distance_meters''))
       (filter (\<lambda>s. mode = JStr ''walking'' \<or> obj_get (rts_travel s) ''mode'' = JStr ''walking'') stops))"

definition exceeds :: "python_texts \<Rightarrow> json \<Rightarrow> rat \<Rightarrow> rat \<Rightarrow> bool" where
  "exceeds T limit factor actual \<longleftrightarrow> limit \<noteq> JNull \<and> number_of T limit * factor < actual"

definition constraint_findings ::
  "python_texts \<Rightarrow> evaluation_policy \<Rightarrow> payload \<Rightarrow> payload \<Rightarrow> route_stop list \<Rightarrow> rat \<Rightarrow> route_finding list" where
  "constraint_findings T pol plan hard stops walking =
     (let secs = number_of T (obj_get plan ''total_travel_seconds'');
          ids = poi_ids T stops;
          present = filter (\<lambda>i. i \<noteq> []) ids
      in blocks_with (obj_get plan ''status'' \<noteq> JStr ''success'') ''plan_not_successful''
       @ blocks_with (stops = []) ''empty_route''
       @ blocks_with ([] \<in> set ids) ''poi_id_missing''
       @ blocks_with (\<not> distinct present) ''duplicate_poi''
       @ concat (map (stop_findings T) stops)
       @ (if stops = [] then []
          else late_findings (moment_of T (obj_get (rts_fields (last stops)) ''departure_time''))
                 (moment_of T (obj_get hard ''latest_return_time'')) ''latest_return_exceeded'')
       @ blocks_with (exceeds T (obj_get hard ''max_total_duration_minutes'') 60 secs) ''duration_constraint_exceeded''
       @ blocks_with (case rp_hard_seconds pol of None \<Rightarrow> False | Some l \<Rightarrow> l < secs) ''time_limit_exceeded''
       @ blocks_with (exceeds T (obj_get hard ''max_total_cost_yuan'') 1 (number_of T (obj_get plan ''estimated_cost_yuan'')))
           ''cost_constraint_exceeded''
       @ blocks_with (exceeds T (obj_get hard ''max_walking_meters'') 1 walking) ''walking_constraint_exceeded'')"

definition distance_findings :: "evaluation_policy \<Rightarrow> rat \<Rightarrow> route_finding list" where
  "distance_findings pol d =
     (if (case rp_max_distance pol of None \<Rightarrow> False | Some l \<Rightarrow> l * 2 \<le> d)
      then [(''distance_excessive'', Sev_blocking)]
      else only_if (bounded_score d (rp_max_distance pol) < 100) (''distance_above_target'', Sev_warning))"

text \<open>One check per stated preference, each reading the preference it is about.\<close>

definition preference_check :: "'a option \<Rightarrow> json \<Rightarrow> string \<Rightarrow> ('a \<Rightarrow> json \<Rightarrow> bool) \<Rightarrow> bool list res" where
  "preference_check e prefs k ok =
     (case e of None \<Rightarrow> Inr [] | Some x \<Rightarrow> res_bind (get_of prefs k) (\<lambda>v. Inr [ok x v]))"

definition good_ratings :: "python_texts \<Rightarrow> evaluation_policy \<Rightarrow> route_stop list \<Rightarrow> bool" where
  "good_ratings T pol stops \<longleftrightarrow>
     (let ratings = map (\<lambda>s. number_of T (obj_get (rts_poi s) ''rating''))
            (filter (\<lambda>s. obj_get (rts_poi s) ''rating'' \<noteq> JNull) stops)
      in ratings \<noteq> [] \<and> rp_min_rating pol \<le> sum_list ratings / of_nat (length ratings))"

definition preference_checks ::
  "python_texts \<Rightarrow> evaluation_policy \<Rightarrow> json \<Rightarrow> route_stop list \<Rightarrow> rat \<Rightarrow> rat \<Rightarrow> bool list res" where
  "preference_checks T pol prefs stops walking secs =
     (let e = rp_expected pol in
      res_bind (preference_check (ep_avoid_hiking e) prefs ''avoid_hiking''
          (\<lambda>b v. json_truthy v = b \<and> (\<not> b \<or> \<not> contains_hiking T stops))) (\<lambda>c1.
      res_bind (preference_check (ep_style e) prefs ''travel_style''
          (\<lambda>s v. v = JStr s \<and> (s \<noteq> ''relaxed'' \<or> int (length stops) \<le> rp_relaxed_stops pol
             \<and> walking \<le> rp_relaxed_walking pol \<and> secs \<le> rp_relaxed_seconds pol))) (\<lambda>c2.
      res_bind (preference_check (ep_minimize_walking e) prefs ''minimize_walking''
          (\<lambda>b v. json_truthy v = b \<and> (\<not> b \<or> walking \<le> rp_relaxed_walking pol))) (\<lambda>c3.
      res_bind (preference_check (ep_high_rating e) prefs ''prefer_high_rating''
          (\<lambda>b v. json_truthy v = b \<and> (\<not> b \<or> good_ratings T pol stops))) (\<lambda>c4.
        Inr (c1 @ c2 @ c3 @ c4))))))"

text \<open>The codes of the blocking findings, each once, in the order they first occur.\<close>

definition hard_codes :: "route_finding list \<Rightarrow> string list" where
  "hard_codes fs =
     fold (\<lambda>(c, s) acc. if s = Sev_blocking \<and> c \<notin> set acc then acc @ [c] else acc) fs []"

definition score_route ::
  "python_texts \<Rightarrow> evaluation_policy \<Rightarrow> payload \<Rightarrow> route_finding list \<Rightarrow> bool list \<Rightarrow> agent_route_evaluation" where
  "score_route T pol plan found checks =
     (let total_distance = number_of T (obj_get plan ''total_distance_meters'');
          d = bounded_score total_distance (rp_max_distance pol);
          t = bounded_score (number_of T (obj_get plan ''total_travel_seconds'')) (rp_max_seconds pol);
          p = (if list_all id checks then 100 else 0);
          findings = found @ distance_findings pol total_distance
            @ only_if (p < 100) (''preference_mismatch'', Sev_warning);
          hard = hard_codes findings;
          final = (if hard \<noteq> [] then 0 else round2 (d * (4 / 10) + t * (3 / 10) + p * (3 / 10)))
      in \<lparr>rte_distance = round2 d, rte_time = round2 t, rte_preference = round2 p, rte_final = final,
          rte_passed = (hard = [] \<and> rp_pass pol \<le> final), rte_hard = hard, rte_findings = findings\<rparr>)"

definition evaluate_route_plan ::
  "python_texts \<Rightarrow> evaluation_policy \<Rightarrow> payload \<Rightarrow> agent_route_evaluation res" where
  "evaluate_route_plan T pol plan =
     res_bind (items_of (obj_get plan ''stops'')) (\<lambda>xs.
     res_bind (res_map view_stop (List.map_filter (\<lambda>v. case v of JObj kvs \<Rightarrow> Some kvs | _ \<Rightarrow> None) xs)) (\<lambda>stops.
     res_bind (sub_object plan ''intent'') (\<lambda>intent.
     res_bind (sub_object intent ''constraints'') (\<lambda>constraints.
     res_bind (sub_object constraints ''hard'') (\<lambda>hard.
       let walking = walking_meters T (obj_get intent ''transport_mode'') stops in
       res_bind (preference_checks T pol (or_empty (obj_get intent ''preferences'')) stops walking
           (number_of T (obj_get plan ''total_travel_seconds''))) (\<lambda>checks.
         let e = score_route T pol plan (constraint_findings T pol plan hard stops walking) checks
         in if evaluation_ok e then Inr e else Inl (ValueError ''AgentRouteEvaluation'')))))))"

section \<open>Review reports\<close>

record soft_adjustments =
  sa_travel_time :: "rat option"
  sa_walking_time :: "rat option"
  sa_distance :: "rat option"
  sa_low_rating :: "rat option"
  sa_uncertainty :: "rat option"
  sa_monetary_cost :: "rat option"

definition adjustment_values :: "soft_adjustments \<Rightarrow> (string \<times> rat option) list" where
  "adjustment_values a =
     [(''travel_time'', sa_travel_time a), (''walking_time'', sa_walking_time a), (''distance'', sa_distance a),
      (''low_rating'', sa_low_rating a), (''uncertainty'', sa_uncertainty a), (''monetary_cost'', sa_monetary_cost a)]"

definition updates :: "soft_adjustments \<Rightarrow> (string \<times> rat) list" where
  "updates a = List.map_filter (\<lambda>(k, v). map_option (Pair k) v) (adjustment_values a)"

definition adjustments_ok :: "soft_adjustments \<Rightarrow> bool" where
  "adjustments_ok a \<longleftrightarrow> list_all (\<lambda>(k, q). 0 \<le> q \<and> q \<le> 10) (updates a)"

datatype plan_verdict = Plan_approved | Plan_approved_with_warnings | Plan_needs_clarification | Plan_retry

record review_finding =
  vf_code :: string
  vf_severity :: severity
  vf_refs :: "string list"

record review_report =
  rr_verdict :: plan_verdict
  rr_findings :: "review_finding list"
  rr_adjustments :: "soft_adjustments option"
  rr_route :: "agent_route_evaluation option"
  rr_confidence :: rat

definition finding_ok :: "review_finding \<Rightarrow> bool" where
  "finding_ok f \<longleftrightarrow> text_within 80 (vf_code f) \<and> length (vf_refs f) \<le> 20"

text \<open>\<open>RouteEvaluationSummary\<close>: the part of an evaluation that a report keeps.\<close>

definition summary_ok :: "agent_route_evaluation \<Rightarrow> bool" where
  "summary_ok e \<longleftrightarrow>
     rte_distance e \<in> {0..100} \<and> rte_time e \<in> {0..100} \<and> rte_preference e \<in> {0..100} \<and> rte_final e \<in> {0..100}
   \<and> length (rte_hard e) \<le> 30"

definition retry_boundary_ok :: "review_report \<Rightarrow> bool" where
  "retry_boundary_ok r \<longleftrightarrow>
     (if rr_verdict r = Plan_retry
      then (case rr_adjustments r of None \<Rightarrow> False | Some a \<Rightarrow> updates a \<noteq> [])
      else rr_adjustments r = None)"

definition report_ok :: "review_report \<Rightarrow> bool" where
  "report_ok r \<longleftrightarrow>
     list_all finding_ok (rr_findings r) \<and> length (rr_findings r) \<le> 30
   \<and> (case rr_adjustments r of None \<Rightarrow> True | Some a \<Rightarrow> adjustments_ok a)
   \<and> (case rr_route r of None \<Rightarrow> True | Some e \<Rightarrow> summary_ok e)
   \<and> 0 \<le> rr_confidence r \<and> rr_confidence r \<le> 1 \<and> retry_boundary_ok r"

definition make_report :: "review_report \<Rightarrow> review_report res" where
  "make_report r = (if report_ok r then Inr r else Inl (ValueError ''ReviewReport''))"

end
