(* ===== verification/Critics.thy ===== *)
theory Critics
  imports Route_Review
begin

text \<open>
  The critics of \<open>services/agents/critic_agent.py\<close>. The answer of the model is a parameter: that the
  HTTP call or the decoding of its body failed, or the decoded body; so is pydantic's reading of a
  report from a text.
\<close>

section \<open>The rule-based critic\<close>

definition warns :: "bool \<Rightarrow> string \<Rightarrow> string list \<Rightarrow> review_finding list" where
  "warns b c refs = only_if b \<lparr>vf_code = c, vf_severity = Sev_warning, vf_refs = refs\<rparr>"

definition stop_evidence :: "python_texts \<Rightarrow> nat \<Rightarrow> json \<Rightarrow> review_finding list res" where
  "stop_evidence T i s =
     res_bind (get_of s ''poi'') (\<lambda>p. res_bind (get_of s ''travel'') (\<lambda>t.
     res_bind (get_of (or_empty p) ''id'') (\<lambda>pid. res_bind (get_of (or_empty p) ''source'') (\<lambda>source.
     res_bind (require (\<not> json_truthy pid \<or> hashable source) TypeError) (\<lambda>_.
     res_bind (get_of (or_empty t) ''fallback_used'') (\<lambda>estimated.
     res_bind (get_of (or_empty t) ''confidence'') (\<lambda>c. res_bind (float_or0 T c) (\<lambda>confidence.
       let refs = [''poi:'' @ format_of T pid, ''stop:'' @ show_nat i]
       in Inr (only_if (\<not> json_truthy pid \<or> source \<in> {JNull, JStr [], JStr ''unknown''})
                 \<lparr>vf_code = ''poi_evidence_missing'', vf_severity = Sev_blocking, vf_refs = refs\<rparr>
             @ warns (json_truthy estimated) ''route_estimated'' refs
             @ warns (confidence < 6 / 10) ''route_low_confidence'' refs)))))))))"

definition reported :: "route_finding list \<Rightarrow> review_finding list" where
  "reported fs =
     map (\<lambda>(c, s). \<lparr>vf_code = ''route_eval_'' @ c, vf_severity = s, vf_refs = []\<rparr>)
       (filter (\<lambda>(c, s). s \<noteq> Sev_info) fs)"

definition rule_verdict :: "review_finding list \<Rightarrow> plan_verdict" where
  "rule_verdict fs =
     (if list_ex (\<lambda>f. vf_severity f = Sev_blocking) fs then Plan_needs_clarification
      else if fs \<noteq> [] then Plan_approved_with_warnings else Plan_approved)"

definition rating_of :: "python_texts \<Rightarrow> json \<Rightarrow> rat res" where
  "rating_of T v = res_bind (get_of v ''rating'') (float_or0 T)"

definition selected_ratings :: "python_texts \<Rightarrow> json list \<Rightarrow> rat list res" where
  "selected_ratings T stops =
     res_map (\<lambda>s. res_bind (get_of s ''poi'') (\<lambda>p. rating_of T (or_empty p))) stops"

definition candidate_ratings :: "python_texts \<Rightarrow> payload \<Rightarrow> rat list res" where
  "candidate_ratings T plan =
     res_bind (items_of (obj_get plan ''candidate_reviews'')) (\<lambda>reviews.
     res_bind (res_map (\<lambda>r. res_bind (get_of r ''candidates'') (\<lambda>cs.
         res_bind (items_of cs) (res_map (rating_of T)))) reviews) (\<lambda>qs. Inr (concat qs)))"

definition rating_gap :: "rat list \<Rightarrow> rat list \<Rightarrow> bool" where
  "rating_gap selected candidates \<longleftrightarrow>
     selected \<noteq> [] \<and> candidates \<noteq> [] \<and> 1 \<le> Max (set candidates) - Min (set selected)"

definition no_adjustments :: soft_adjustments where
  "no_adjustments =
     \<lparr>sa_travel_time = None, sa_walking_time = None, sa_distance = None, sa_low_rating = None,
      sa_uncertainty = None, sa_monetary_cost = None\<rparr>"

text \<open>The last check: better rated candidates turn the verdict into a retry, whatever it was.\<close>

definition rating_override ::
  "bool \<Rightarrow> review_finding list \<Rightarrow> plan_verdict \<times> soft_adjustments option \<times> review_finding list" where
  "rating_override gap fs =
     (if gap
      then (Plan_retry, Some (no_adjustments\<lparr>sa_low_rating := Some (3 / 2)\<rparr>),
            fs @ warns True ''rating_preference_mismatch'' [])
      else (rule_verdict fs, None, fs))"

definition stop_refs :: "python_texts \<Rightarrow> json \<Rightarrow> string list res" where
  "stop_refs T s =
     res_bind (get_of s ''poi'') (\<lambda>p. res_bind (get_of s ''travel'') (\<lambda>t.
     res_bind (get_of (or_empty p) ''id'') (\<lambda>pid.
     res_bind (get_of (or_empty t) ''source'') (\<lambda>source.
       Inr (only_if (json_truthy pid) (''poi:'' @ str_or_empty T pid)
          @ only_if (json_truthy source) (''route:'' @ str_or_empty T source @ '':''
              @ (case s of JObj kvs \<Rightarrow> (case dget kvs ''task_index'' of None \<Rightarrow> ''0'' | Some i \<Rightarrow> format_of T i)
                 | _ \<Rightarrow> [])))))))"

definition evidence_refs :: "python_texts \<Rightarrow> payload \<Rightarrow> string list res" where
  "evidence_refs T plan =
     res_bind (items_of (obj_get plan ''stops'')) (\<lambda>stops.
     res_bind (res_map (stop_refs T) stops) (\<lambda>refs. Inr (take 100 (concat refs))))"

definition critic_evaluation :: "python_texts \<Rightarrow> payload \<Rightarrow> agent_route_evaluation option res" where
  "critic_evaluation T plan =
     (if obj_get plan ''status'' \<noteq> JStr ''success'' then Inr None
      else res_bind (runtime_route_policy plan) (\<lambda>pol.
           res_bind (evaluate_route_plan T pol plan) (\<lambda>e. Inr (Some e))))"

definition wants_rating :: "payload \<Rightarrow> bool res" where
  "wants_rating plan =
     (if obj_get plan ''status'' \<noteq> JStr ''success'' then Inr False
      else res_bind (sub_object plan ''intent'') (\<lambda>intent.
           res_bind (get_of (or_empty (obj_get intent ''preferences'')) ''prefer_high_rating'') (\<lambda>v.
             Inr (json_truthy v))))"

definition rating_mismatch :: "python_texts \<Rightarrow> payload \<Rightarrow> json list \<Rightarrow> bool res" where
  "rating_mismatch T plan stops =
     res_bind (wants_rating plan) (\<lambda>wanted.
       if \<not> wanted then Inr False
       else res_bind (selected_ratings T stops) (\<lambda>sel.
            res_bind (candidate_ratings T plan) (\<lambda>cand. Inr (rating_gap sel cand))))"

definition rule_findings ::
  "python_texts \<Rightarrow> payload \<Rightarrow> json list \<Rightarrow> agent_route_evaluation option \<Rightarrow> review_finding list list \<Rightarrow> review_finding list" where
  "rule_findings T plan stops e evidence =
     only_if (obj_get plan ''status'' = JStr ''success'' \<and> stops = [])
       \<lparr>vf_code = ''empty_success'', vf_severity = Sev_blocking, vf_refs = []\<rparr>
   @ warns (\<not> json_truthy (obj_get plan ''explanation'')) ''missing_explanation'' []
   @ concat evidence @ (case e of None \<Rightarrow> [] | Some ev \<Rightarrow> reported (rte_findings ev))"

definition rule_review :: "python_texts \<Rightarrow> payload \<Rightarrow> (review_report \<times> string list) res" where
  "rule_review T plan =
     res_bind (sub_object plan ''intent'') (\<lambda>_.
     res_bind (items_of (obj_get plan ''stops'')) (\<lambda>stops.
     res_bind (res_map (\<lambda>(i, s). stop_evidence T i s) (List.enumerate 0 stops)) (\<lambda>evidence.
     res_bind (critic_evaluation T plan) (\<lambda>e.
     res_bind (rating_mismatch T plan stops) (\<lambda>gap.
       case rating_override gap (rule_findings T plan stops e evidence) of (verdict, adjustments, fs) \<Rightarrow>
         res_bind (make_report \<lparr>rr_verdict = verdict, rr_findings = take 30 fs, rr_adjustments = adjustments,
                     rr_route = e, rr_confidence = 9 / 10\<rparr>) (\<lambda>report.
         res_bind (evidence_refs T plan) (\<lambda>refs. Inr (report, refs))))))))"

section \<open>The critic that asks a model\<close>

text \<open>\<open>data["choices"][0]["message"]["content"]\<close>, \<open>int(usage.get(k) or 0)\<close>.\<close>

definition index_key :: "string \<Rightarrow> json \<Rightarrow> json res" where
  "index_key k v =
     (case v of JObj kvs \<Rightarrow> (case dget kvs k of None \<Rightarrow> Inl KeyError | Some x \<Rightarrow> Inr x) | _ \<Rightarrow> Inl TypeError)"

definition index_first :: "json \<Rightarrow> json res" where
  "index_first v =
     (case v of
        JArr xs \<Rightarrow> (case xs of [] \<Rightarrow> Inl IndexError | x # _ \<Rightarrow> Inr x)
      | JStr s \<Rightarrow> (case s of [] \<Rightarrow> Inl IndexError | c # _ \<Rightarrow> Inr (JStr [c]))
      | JObj _ \<Rightarrow> Inl KeyError
      | _ \<Rightarrow> Inl TypeError)"

definition usage_count :: "json \<Rightarrow> string \<Rightarrow> int res" where
  "usage_count data k =
     res_bind (get_of data ''usage'') (\<lambda>u. res_bind (get_of (or_empty u) k) py_int_or0)"

text \<open>What of the model's report survives beside the deterministic evaluation.\<close>

definition merge_verdict :: "agent_route_evaluation \<Rightarrow> review_report \<Rightarrow> plan_verdict \<times> soft_adjustments option" where
  "merge_verdict e r =
     (if rte_hard e \<noteq> [] then (Plan_needs_clarification, None)
      else if reported (rte_findings e) \<noteq> [] \<and> rr_verdict r = Plan_approved
      then (Plan_approved_with_warnings, rr_adjustments r)
      else (rr_verdict r, rr_adjustments r))"

definition merge_review :: "agent_route_evaluation option \<Rightarrow> review_report \<Rightarrow> review_report res" where
  "merge_review eo r =
     (case eo of
        None \<Rightarrow> Inr r
      | Some e \<Rightarrow> (case merge_verdict e r of (verdict, adjustments) \<Rightarrow>
          make_report \<lparr>rr_verdict = verdict, rr_findings = take 30 (reported (rte_findings e) @ rr_findings r),
            rr_adjustments = adjustments, rr_route = Some e, rr_confidence = rr_confidence r\<rparr>))"

record critic_settings =
  kt_router :: router_settings
  kt_max_input :: int
  kt_max_output :: int
  kt_input_price :: rat
  kt_output_price :: rat
  kt_model_configured :: bool

record review_execution =
  ve_report :: review_report
  ve_refs :: "string list"
  ve_input_tokens :: int
  ve_output_tokens :: int
  ve_cost :: rat
  ve_fallback :: bool
  ve_reason :: "string option"

definition price_of :: "int \<Rightarrow> int \<Rightarrow> rat \<Rightarrow> rat \<Rightarrow> rat" where
  "price_of input output input_price output_price = (of_int input * input_price + of_int output * output_price) / 1000000"

text \<open>\<open>read_report\<close> is \<open>ReviewReport.model_validate_json\<close>.\<close>

definition model_report ::
  "python_texts \<Rightarrow> (json \<Rightarrow> review_report option) \<Rightarrow> critic_settings \<Rightarrow> json \<Rightarrow> payload \<Rightarrow> review_execution res" where
  "model_report T read_report S data plan =
     res_bind (index_key ''choices'' data) (\<lambda>cs. res_bind (index_first cs) (\<lambda>c.
     res_bind (index_key ''message'' c) (\<lambda>m. res_bind (index_key ''content'' m) (\<lambda>t.
     res_bind (case read_report t of None \<Rightarrow> Inl (ValueError ''ReviewReport'') | Some r \<Rightarrow> Inr r) (\<lambda>r0.
     res_bind (critic_evaluation T plan) (\<lambda>e.
     res_bind (merge_review e r0) (\<lambda>r.
     res_bind (usage_count data ''prompt_tokens'') (\<lambda>i.
     res_bind (usage_count data ''completion_tokens'') (\<lambda>out.
     res_bind (require (i \<le> kt_max_input S \<and> out \<le> kt_max_output S) (ValueError ''critic token budget exceeded'')) (\<lambda>_.
     res_bind (evidence_refs T plan) (\<lambda>refs.
       Inr \<lparr>ve_report = r, ve_refs = refs, ve_input_tokens = i, ve_output_tokens = out,
            ve_cost = price_of i out (kt_input_price S) (kt_output_price S),
            ve_fallback = False, ve_reason = None\<rparr>)))))))))))"

definition rule_execution :: "python_texts \<Rightarrow> bool \<Rightarrow> string option \<Rightarrow> payload \<Rightarrow> review_execution res" where
  "rule_execution T fallback reason plan =
     res_bind (rule_review T plan) (\<lambda>(report, refs).
       Inr \<lparr>ve_report = report, ve_refs = refs, ve_input_tokens = 0, ve_output_tokens = 0, ve_cost = 0,
            ve_fallback = fallback, ve_reason = reason\<rparr>)"

text \<open>The exceptions that are caught, by name; pydantic's is a \<open>ValueError\<close>.\<close>

fun caught_name :: "exn \<Rightarrow> string option" where
  "caught_name (ValueError m) =
     Some (if m \<in> {''ReviewReport'', ''AgentRouteEvaluation''} then ''ValidationError'' else ''ValueError'')"
| "caught_name KeyError = Some ''KeyError''"
| "caught_name _ = None"

text \<open>\<open>answer\<close> is the name of the caught exception of the call, or the decoded body.\<close>

definition model_review ::
  "python_texts \<Rightarrow> (json \<Rightarrow> review_report option) \<Rightarrow> critic_settings \<Rightarrow> string + json \<Rightarrow> payload \<Rightarrow> review_execution res" where
  "model_review T read_report S answer plan =
     (case answer of
        Inl n \<Rightarrow> rule_execution T True (Some (''critic_fallback:'' @ n)) plan
      | Inr data \<Rightarrow>
          (case model_report T read_report S data plan of
             Inr x \<Rightarrow> Inr x
           | Inl e \<Rightarrow> (case caught_name e of
                 None \<Rightarrow> Inl e
               | Some n \<Rightarrow> rule_execution T True (Some (''critic_fallback:'' @ n)) plan)))"

section \<open>Routing between them\<close>

definition route_text :: "route_decision \<Rightarrow> string" where
  "route_text d =
     ''model_route:'' @ tier_value (rd_tier d) @ '':score='' @ show_int (rd_score d) @ '':''
       @ comma_join (rd_reasons d)"

definition routed_review ::
  "python_texts \<Rightarrow> (json \<Rightarrow> review_report option) \<Rightarrow> critic_settings \<Rightarrow> string + json \<Rightarrow> payload \<Rightarrow> review_execution res" where
  "routed_review T read_report S answer plan =
     res_bind (routing_context_from_plan plan Ag_critic (kt_model_configured S)) (\<lambda>c.
       let d = route_model (kt_router S) c in
       res_bind (if rd_tier d = Tier_strong \<and> kt_model_configured S
                 then model_review T read_report S answer plan
                 else rule_execution T False None plan) (\<lambda>x.
         Inr (x\<lparr>ve_cost := (if ve_input_tokens x \<noteq> 0 \<or> ve_output_tokens x \<noteq> 0
                  then price_of (ve_input_tokens x) (ve_output_tokens x) (rd_input_cost d) (rd_output_cost d)
                  else ve_cost x),
                ve_reason := Some (case ve_reason x of
                    None \<Rightarrow> route_text d
                  | Some r \<Rightarrow> if r = [] then route_text d else route_text d @ '';'' @ r)\<rparr>)))"

end
