(* ===== verification/Critic_Facts.thy ===== *)
theory Critic_Facts
  imports Critics
begin

text \<open>
  What the properties of the critics rest on: which codes an evaluation can report, when it reports
  none that blocks, and that every report built is accepted by its validator.
\<close>

section \<open>Codes\<close>

lemma hard_codes_snoc:
  "hard_codes (fs @ [f]) =
     (if snd f = Sev_blocking \<and> fst f \<notin> set (hard_codes fs) then hard_codes fs @ [fst f] else hard_codes fs)"
  by (cases f) (simp add: hard_codes_def)

lemma hard_codes_facts:
  "distinct (hard_codes fs) \<and> set (hard_codes fs) = fst ` {f \<in> set fs. snd f = Sev_blocking}"
proof (induction fs rule: rev_induct)
  case Nil
  then show ?case by (simp add: hard_codes_def)
next
  case (snoc f fs)
  then show ?case by (auto simp: hard_codes_snoc)
qed

lemma hard_codes_empty: "hard_codes fs = [] \<longleftrightarrow> list_all (\<lambda>f. snd f \<noteq> Sev_blocking) fs"
  using hard_codes_facts [of fs] by (auto simp: list_all_iff simp flip: set_empty)

definition known_codes :: "string list" where
  "known_codes =
     [''plan_not_successful'', ''empty_route'', ''poi_id_missing'', ''duplicate_poi'', ''stop_constraint_violated'',
      ''time_evidence_invalid'', ''task_deadline_exceeded'', ''latest_return_exceeded'', ''duration_constraint_exceeded'',
      ''time_limit_exceeded'', ''cost_constraint_exceeded'', ''walking_constraint_exceeded'', ''distance_excessive'',
      ''distance_above_target'', ''preference_mismatch'']"

lemma blocks_with_known: "c \<in> set known_codes \<Longrightarrow> fst ` set (blocks_with b c) \<subseteq> set known_codes"
  by (auto simp: blocks_with_def only_if_def)

lemma late_findings_known:
  "c \<in> set known_codes \<Longrightarrow> fst ` set (late_findings l r c) \<subseteq> set known_codes"
  by (auto simp: late_findings_def blocks_with_def only_if_def split: departure_text.splits if_splits)
    (simp_all add: known_codes_def)

lemma stop_findings_known: "fst ` set (stop_findings T s) \<subseteq> set known_codes"
  using blocks_with_known [of "''stop_constraint_violated''" "obj_get (rts_fields s) ''constraint_satisfied'' = JBool False"]
    late_findings_known [of "''task_deadline_exceeded''"]
  by (simp add: stop_findings_def image_Un known_codes_def)

lemma constraint_findings_known:
  "fst ` set (constraint_findings T pol plan hard stops walking) \<subseteq> set known_codes"
proof -
  have codes: "c \<in> set known_codes \<Longrightarrow> fst ` set (blocks_with b c) \<subseteq> set known_codes" for b c
    by (rule blocks_with_known)
  have late: "fst ` set (late_findings l r ''latest_return_exceeded'') \<subseteq> set known_codes" for l r
    by (rule late_findings_known) (simp add: known_codes_def)
  have each: "fst ` set (concat (map (stop_findings T) stops)) \<subseteq> set known_codes"
    using stop_findings_known by (fastforce simp: image_UN)
  show ?thesis
    unfolding constraint_findings_def Let_def set_append image_Un
    by (intro Un_least codes each) (simp_all add: late, simp_all add: known_codes_def)
qed

lemma score_findings_known:
  assumes "fst ` set found \<subseteq> set known_codes"
  shows "fst ` set (rte_findings (score_route T pol plan found checks)) \<subseteq> set known_codes"
proof -
  have "fst ` set (distance_findings pol d) \<subseteq> set known_codes" for d
    by (auto simp: distance_findings_def only_if_def known_codes_def)
  moreover have "fst ` set (only_if b (''preference_mismatch'', Sev_warning)) \<subseteq> set known_codes" for b
    by (auto simp: only_if_def known_codes_def)
  ultimately show ?thesis using assms by (simp add: score_route_def Let_def image_Un)
qed

lemma known_codes_short: "c \<in> set known_codes \<Longrightarrow> length c \<le> 40"
  by (auto simp: known_codes_def)

lemma distinct_known: "distinct cs \<Longrightarrow> set cs \<subseteq> set known_codes \<Longrightarrow> length cs \<le> 15"
proof -
  assume "distinct cs" "set cs \<subseteq> set known_codes"
  then have "length cs \<le> card (set known_codes)" by (metis distinct_card card_mono finite_set)
  also have "\<dots> \<le> length known_codes" by (rule card_length)
  finally show ?thesis by (simp add: known_codes_def)
qed

section \<open>Scores\<close>

definition limits_positive :: "evaluation_policy \<Rightarrow> bool" where
  "limits_positive pol \<longleftrightarrow>
     (case rp_max_distance pol of None \<Rightarrow> True | Some l \<Rightarrow> 0 < l)
   \<and> (case rp_max_seconds pol of None \<Rightarrow> True | Some l \<Rightarrow> 0 < l)"

lemma bounded_score_range:
  assumes "case limit of None \<Rightarrow> True | Some l \<Rightarrow> 0 < l"
  shows "0 \<le> bounded_score actual limit \<and> bounded_score actual limit \<le> 100"
proof (cases limit)
  case None
  then show ?thesis by (simp add: bounded_score_def)
next
  case (Some l)
  have "1 < actual / l" if "\<not> actual \<le> l" using that assms Some by simp
  then have "100 * (2 - actual / l) \<le> 100" if "\<not> actual \<le> l" using that by simp
  then show ?thesis using Some unfolding bounded_score_def by (auto simp del: times_divide_eq_right)
qed

lemma round_half_even_mono_bounds:
  assumes "of_int a \<le> x" "x \<le> of_int b"
  shows "a \<le> round_half_even x \<and> round_half_even x \<le> b"
proof -
  have "a \<le> \<lfloor>x\<rfloor>" using assms(1) by (simp add: le_floor_iff)
  moreover have "\<lfloor>x\<rfloor> + 1 \<le> b \<or> x = of_int b"
  proof (cases "x = of_int b")
    case False
    then have "x < of_int b" using assms(2) by simp
    then show ?thesis by linarith
  qed simp
  ultimately show ?thesis using round_half_even_cases [of x] by auto
qed

lemma round2_range: "0 \<le> x \<Longrightarrow> x \<le> 100 \<Longrightarrow> round2 x \<in> {0..100}"
  using round_half_even_mono_bounds [of 0 "x * 100" 10000] by (simp add: round2_def)

lemma round2_values [simp]: "round2 0 = 0" "round2 100 = 100" "round2 70 = 70"
  using round_half_even_int [of 0] round_half_even_int [of 10000] round_half_even_int [of 7000]
  by (simp_all add: round2_def del: round_half_even_int)

lemma score_route_ok:
  assumes "limits_positive pol"
  shows "evaluation_ok (score_route T pol plan found checks)"
proof -
  define d where "d = bounded_score (number_of T (obj_get plan ''total_distance_meters'')) (rp_max_distance pol)"
  define t where "t = bounded_score (number_of T (obj_get plan ''total_travel_seconds'')) (rp_max_seconds pol)"
  define p where "p = (if list_all id checks then 100 else 0 :: rat)"
  have d: "0 \<le> d" "d \<le> 100" and t: "0 \<le> t" "t \<le> 100" and p: "0 \<le> p" "p \<le> 100"
    using bounded_score_range assms unfolding d_def t_def p_def limits_positive_def by auto
  have w: "round2 (d * (4 / 10) + t * (3 / 10) + p * (3 / 10)) \<in> {0..100}"
    using d t p by (intro round2_range) auto
  show ?thesis
    using round2_range [OF d] round2_range [OF t] round2_range [OF p] w
    unfolding evaluation_ok_def score_route_def Let_def d_def [symmetric] t_def [symmetric] p_def [symmetric]
    by simp
qed

lemma runtime_policy_limits:
  assumes "runtime_route_policy plan = Inr pol"
  shows "rp_max_distance pol = None" "rp_max_seconds pol = None" "rp_hard_seconds pol = None"
    "rp_pass pol = 75" "limits_positive pol"
  using assms by (auto simp: runtime_route_policy_def res_simps limits_positive_def)

text \<open>What an evaluation is made of.\<close>

lemma evaluate_cases:
  assumes "evaluate_route_plan T pol plan = Inr e"
  obtains xs stops intent constraints hard checks where
    "items_of (obj_get plan ''stops'') = Inr xs"
    "res_map view_stop (List.map_filter (\<lambda>v. case v of JObj kvs \<Rightarrow> Some kvs | _ \<Rightarrow> None) xs) = Inr stops"
    "sub_object plan ''intent'' = Inr intent" "sub_object intent ''constraints'' = Inr constraints"
    "sub_object constraints ''hard'' = Inr hard"
    "preference_checks T pol (or_empty (obj_get intent ''preferences'')) stops
       (walking_meters T (obj_get intent ''transport_mode'') stops)
       (number_of T (obj_get plan ''total_travel_seconds'')) = Inr checks"
    "e = score_route T pol plan
       (constraint_findings T pol plan hard stops (walking_meters T (obj_get intent ''transport_mode'') stops)) checks"
  using assms unfolding evaluate_route_plan_def Let_def by (auto simp: res_simps split: if_splits)

lemma evaluate_no_value_error:
  assumes "limits_positive pol"
  shows "evaluate_route_plan T pol plan \<noteq> Inl (ValueError m)"
proof -
  have items: "items_of v \<noteq> Inl (ValueError m)" for v
    by (simp add: items_of_def split: json.split)
  have sub: "sub_object d k \<noteq> Inl (ValueError m)" for d k
    by (simp add: sub_object_def Let_def split: json.split)
  have view: "view_stop s \<noteq> Inl (ValueError m)" for s
    using sub by (auto simp: view_stop_def res_simps)
  have views: "res_map view_stop ss \<noteq> Inl (ValueError m)" for ss
    using view by (induction ss) (auto simp: res_simps)
  have check: "preference_check x prefs k ok \<noteq> Inl (ValueError m)" for x :: "'b option" and prefs k ok
    by (auto simp: preference_check_def get_of_def res_simps split: option.split json.split)
  have checks: "preference_checks T pol prefs stops w s \<noteq> Inl (ValueError m)" for prefs stops w s
    unfolding preference_checks_def Let_def by (auto simp: res_simps check)
  show ?thesis
    using items sub views checks score_route_ok [OF assms]
    unfolding evaluate_route_plan_def Let_def by (auto simp: res_simps)
qed

lemma evaluation_facts:
  assumes "evaluate_route_plan T pol plan = Inr e" "limits_positive pol"
  shows "evaluation_ok e" "summary_ok e" "fst ` set (rte_findings e) \<subseteq> set known_codes"
    "rte_hard e = hard_codes (rte_findings e)"
proof -
  obtain hard stops w checks where e: "e = score_route T pol plan (constraint_findings T pol plan hard stops w) checks"
    using assms(1) by (rule evaluate_cases)
  show ok: "evaluation_ok e" using e score_route_ok [OF assms(2)] by simp
  show known: "fst ` set (rte_findings e) \<subseteq> set known_codes"
    unfolding e by (rule score_findings_known [OF constraint_findings_known])
  show hard: "rte_hard e = hard_codes (rte_findings e)" by (simp add: e score_route_def Let_def)
  have "length (rte_hard e) \<le> 15"
    unfolding hard using hard_codes_facts [of "rte_findings e"] known by (intro distinct_known) auto
  then show "summary_ok e" using ok by (simp add: summary_ok_def evaluation_ok_def)
qed

end
