(* ===== verification/Critic_Properties.thy ===== *)
theory Critic_Properties
  imports Critic_Facts
begin

text \<open>
  What the review of a plan guarantees: when an evaluation passes, that every report the critics
  return satisfies its schema, that no answer of a model clears a violated constraint, and two
  behaviours of the code that weaken the review.
\<close>

section \<open>The evaluation of a route\<close>

text \<open>The constraints a route must keep, read off the plan.\<close>

definition late :: "departure_text \<Rightarrow> departure_text \<Rightarrow> bool" where
  "late actual limit \<longleftrightarrow>
     (case (actual, limit) of
        (Naive a, Naive b) \<Rightarrow> b < a
      | (Aware a, Aware b) \<Rightarrow> b < a
      | (Naive _, Aware _) \<Rightarrow> True
      | (Aware _, Naive _) \<Rightarrow> True
      | _ \<Rightarrow> False)"

definition route_sound :: "python_texts \<Rightarrow> payload \<Rightarrow> payload \<Rightarrow> route_stop list \<Rightarrow> rat \<Rightarrow> bool" where
  "route_sound T plan hard stops walking \<longleftrightarrow>
     obj_get plan ''status'' = JStr ''success''
   \<and> stops \<noteq> [] \<and> [] \<notin> set (poi_ids T stops) \<and> distinct (poi_ids T stops)
   \<and> (\<forall>s \<in> set stops. obj_get (rts_fields s) ''constraint_satisfied'' \<noteq> JBool False
        \<and> \<not> late (moment_of T (obj_get (rts_fields s) ''arrival_time'')) (moment_of T (obj_get (rts_task s) ''deadline'')))
   \<and> \<not> late (moment_of T (obj_get (rts_fields (last stops)) ''departure_time'')) (moment_of T (obj_get hard ''latest_return_time''))
   \<and> \<not> exceeds T (obj_get hard ''max_total_duration_minutes'') 60 (number_of T (obj_get plan ''total_travel_seconds''))
   \<and> \<not> exceeds T (obj_get hard ''max_total_cost_yuan'') 1 (number_of T (obj_get plan ''estimated_cost_yuan''))
   \<and> \<not> exceeds T (obj_get hard ''max_walking_meters'') 1 walking"

definition none_blocks :: "route_finding list \<Rightarrow> bool" where
  "none_blocks fs \<longleftrightarrow> list_all (\<lambda>f. snd f \<noteq> Sev_blocking) fs"

lemma none_blocks_simps [simp]:
  "none_blocks []" "none_blocks (fs @ gs) \<longleftrightarrow> none_blocks fs \<and> none_blocks gs"
  "none_blocks (blocks_with b c) \<longleftrightarrow> \<not> b"
  "none_blocks (only_if b (c, Sev_warning))"
  "none_blocks (concat fss) \<longleftrightarrow> list_all none_blocks fss"
  by (auto simp: none_blocks_def blocks_with_def only_if_def list_all_iff)

lemma none_blocks_late [simp]: "none_blocks (late_findings l r c) \<longleftrightarrow> \<not> late l r"
  by (auto simp: late_findings_def late_def split: departure_text.split)

lemma constraints_hold:
  assumes "rp_hard_seconds pol = None"
  shows "none_blocks (constraint_findings T pol plan hard stops w) \<longleftrightarrow> route_sound T plan hard stops w"
proof -
  have "[] \<notin> set ids \<Longrightarrow> filter (\<lambda>i. i \<noteq> []) ids = ids" for ids :: "string list"
    by (induction ids) auto
  then show ?thesis
    using assms unfolding constraint_findings_def Let_def route_sound_def
    by (auto simp: stop_findings_def list_all_iff)
qed

lemma runtime_scores:
  assumes "rp_max_distance pol = None" "rp_max_seconds pol = None" "rp_hard_seconds pol = None" "rp_pass pol = 75"
  shows "rte_final (score_route T pol plan (constraint_findings T pol plan hard stops w) checks)
      = (if \<not> route_sound T plan hard stops w then 0 else if list_all id checks then 100 else 70)"
    and "rte_hard (score_route T pol plan (constraint_findings T pol plan hard stops w) checks) = []
      \<longleftrightarrow> route_sound T plan hard stops w"
    and "rte_passed (score_route T pol plan (constraint_findings T pol plan hard stops w) checks)
      \<longleftrightarrow> route_sound T plan hard stops w \<and> list_all id checks"
proof -
  let ?e = "score_route T pol plan (constraint_findings T pol plan hard stops w) checks"
  have full: "bounded_score a None = 100" for a by (simp add: bounded_score_def)
  have dist: "distance_findings pol d = []" for d
    using assms by (simp add: distance_findings_def only_if_def full)
  have empty: "hard_codes (constraint_findings T pol plan hard stops w
        @ only_if (p < 100) (''preference_mismatch'', Sev_warning)) = []
      \<longleftrightarrow> route_sound T plan hard stops w" for p :: rat
    using constraints_hold [OF assms(3), of T plan hard stops w]
    by (simp add: hard_codes_empty flip: none_blocks_def)
  show final: "rte_final ?e = (if \<not> route_sound T plan hard stops w then 0 else if list_all id checks then 100 else 70)"
    using assms by (simp add: score_route_def Let_def dist empty full)
  show hard: "rte_hard ?e = [] \<longleftrightarrow> route_sound T plan hard stops w"
    by (simp add: score_route_def Let_def dist empty)
  have "rte_passed ?e \<longleftrightarrow> rte_hard ?e = [] \<and> 75 \<le> rte_final ?e"
    using assms(4) by (simp add: score_route_def Let_def)
  then show "rte_passed ?e \<longleftrightarrow> route_sound T plan hard stops w \<and> list_all id checks"
    unfolding hard final by auto
qed

lemma evaluation_passes_exactly:
  assumes "runtime_route_policy plan = Inr pol" "evaluate_route_plan T pol plan = Inr e"
  shows "\<exists>xs stops intent constraints hard checks walking.
      items_of (obj_get plan ''stops'') = Inr xs
    \<and> res_map view_stop (List.map_filter (\<lambda>v. case v of JObj kvs \<Rightarrow> Some kvs | _ \<Rightarrow> None) xs) = Inr stops
    \<and> sub_object plan ''intent'' = Inr intent \<and> sub_object intent ''constraints'' = Inr constraints
    \<and> sub_object constraints ''hard'' = Inr hard
    \<and> walking = walking_meters T (obj_get intent ''transport_mode'') stops
    \<and> preference_checks T pol (or_empty (obj_get intent ''preferences'')) stops walking
         (number_of T (obj_get plan ''total_travel_seconds'')) = Inr checks
    \<and> (rte_hard e = [] \<longleftrightarrow> route_sound T plan hard stops walking)
    \<and> (rte_passed e \<longleftrightarrow> route_sound T plan hard stops walking \<and> list_all id checks)
    \<and> rte_final e = (if \<not> route_sound T plan hard stops walking then 0 else if list_all id checks then 100 else 70)"
proof -
  note p = runtime_policy_limits [OF assms(1)]
  obtain xs stops intent constraints hard checks where
    "items_of (obj_get plan ''stops'') = Inr xs"
    "res_map view_stop (List.map_filter (\<lambda>v. case v of JObj kvs \<Rightarrow> Some kvs | _ \<Rightarrow> None) xs) = Inr stops"
    "sub_object plan ''intent'' = Inr intent" "sub_object intent ''constraints'' = Inr constraints"
    "sub_object constraints ''hard'' = Inr hard"
    "preference_checks T pol (or_empty (obj_get intent ''preferences'')) stops
       (walking_meters T (obj_get intent ''transport_mode'') stops)
       (number_of T (obj_get plan ''total_travel_seconds'')) = Inr checks"
    "e = score_route T pol plan
       (constraint_findings T pol plan hard stops (walking_meters T (obj_get intent ''transport_mode'') stops)) checks"
    using assms(2) by (rule evaluate_cases)
  then show ?thesis
    using runtime_scores [OF p(1-4), of T plan hard stops "walking_meters T (obj_get intent ''transport_mode'') stops" checks]
    by (intro exI [of _ xs] exI [of _ stops] exI [of _ intent] exI [of _ constraints] exI [of _ hard]
        exI [of _ checks] exI [of _ "walking_meters T (obj_get intent ''transport_mode'') stops"]) simp
qed

section \<open>Reports\<close>

lemma code_within:
  assumes "\<not> is_cont c" "length cs \<le> 79"
  shows "text_within 80 (c # cs)"
proof -
  have "length (filter (\<lambda>c. \<not> is_cont c) cs) \<le> 79"
    using length_filter_le assms(2) by (rule order_trans)
  then show ?thesis using assms(1) by (simp add: text_within_def cp_length_def)
qed

lemma ascii_codes [simp]:
  "\<not> is_cont (CHR ''r'')" "\<not> is_cont (CHR ''p'')" "\<not> is_cont (CHR ''m'')" "\<not> is_cont (CHR ''e'')"
  by (simp_all add: is_cont_def)

lemma reported_ok:
  assumes "fst ` set fs \<subseteq> set known_codes"
  shows "list_all finding_ok (reported fs)"
proof -
  have "text_within 80 (''route_eval_'' @ c)" if "c \<in> set known_codes" for c
    using known_codes_short [OF that] by (simp add: code_within)
  then show ?thesis
    using assms by (auto simp: reported_def finding_ok_def list_all_iff image_subset_iff simp del: append_Cons)
qed

lemma warns_ok: "text_within 80 c \<Longrightarrow> length refs \<le> 20 \<Longrightarrow> list_all finding_ok (warns b c refs)"
  by (simp add: warns_def only_if_def finding_ok_def)

lemma only_if_ok: "finding_ok f \<Longrightarrow> list_all finding_ok (only_if b f)"
  by (simp add: only_if_def)

lemma evidence_ok:
  assumes "stop_evidence T i s = Inr fs"
  shows "list_all finding_ok fs"
  using assms unfolding stop_evidence_def
  by (auto simp only: res_simps sum.inject Let_def) (simp add: warns_ok code_within only_if_ok finding_ok_def)

lemma res_map_all: "res_map f xs = Inr ys \<Longrightarrow> (\<And>x y. f x = Inr y \<Longrightarrow> P y) \<Longrightarrow> list_all P ys"
  by (induction xs arbitrary: ys) (auto simp: res_simps)

lemma critic_evaluation_facts:
  assumes "critic_evaluation T plan = Inr (Some e)"
  shows "summary_ok e" "fst ` set (rte_findings e) \<subseteq> set known_codes" "rte_hard e = hard_codes (rte_findings e)"
proof -
  obtain pol where "runtime_route_policy plan = Inr pol" and e: "evaluate_route_plan T pol plan = Inr e"
    using assms by (auto simp: critic_evaluation_def res_simps split: if_splits)
  then have "limits_positive pol" by (intro runtime_policy_limits)
  note f = evaluation_facts [OF e this]
  show "summary_ok e" "fst ` set (rte_findings e) \<subseteq> set known_codes" "rte_hard e = hard_codes (rte_findings e)"
    by (fact f)+
qed

lemma list_all_take: "list_all P xs \<Longrightarrow> list_all P (take n xs)"
  by (auto simp: list_all_iff dest: in_set_takeD)

lemma rule_findings_ok:
  assumes "list_all (list_all finding_ok) evidence" "critic_evaluation T plan = Inr e"
  shows "list_all finding_ok (rule_findings T plan stops e evidence)"
proof -
  have "list_all finding_ok (case e of None \<Rightarrow> [] | Some ev \<Rightarrow> reported (rte_findings ev))"
    using assms(2) critic_evaluation_facts(2) reported_ok by (cases e) auto
  moreover have "list_all finding_ok (concat evidence)" using assms(1) by (auto simp: list_all_iff)
  ultimately show ?thesis
    by (simp add: rule_findings_def warns_ok code_within only_if_ok finding_ok_def)
qed

lemma rating_updates [simp]: "updates (no_adjustments\<lparr>sa_low_rating := Some q\<rparr>) = [(''low_rating'', q)]"
  by (simp add: updates_def adjustment_values_def no_adjustments_def List.map_filter_def)

lemma rule_report_accepted:
  assumes "list_all finding_ok fs" "case e of None \<Rightarrow> True | Some ev \<Rightarrow> summary_ok ev"
    and "rating_override gap fs = (v, a, gs)"
  shows "report_ok \<lparr>rr_verdict = v, rr_findings = take 30 gs, rr_adjustments = a, rr_route = e, rr_confidence = 9 / 10\<rparr>"
proof -
  have "list_all finding_ok gs"
    using assms(1,3) by (auto simp: rating_override_def warns_ok code_within split: if_splits)
  moreover have "v = Plan_retry \<longleftrightarrow> gap"
    using assms(3) by (auto simp: rating_override_def rule_verdict_def split: if_splits)
  moreover have "a = (if gap then Some (no_adjustments\<lparr>sa_low_rating := Some (3 / 2)\<rparr>) else None)"
    using assms(3) by (auto simp: rating_override_def split: if_splits)
  ultimately show ?thesis
    using assms(2) list_all_take
    by (auto simp: report_ok_def retry_boundary_ok_def adjustments_ok_def)
qed

text \<open>The parts a review by rules is made of.\<close>

lemma rule_review_cases:
  assumes "rule_review T plan = Inr (report, refs)"
  obtains stops evidence e gap v a fs where
    "items_of (obj_get plan ''stops'') = Inr stops"
    "res_map (\<lambda>(i, s). stop_evidence T i s) (List.enumerate 0 stops) = Inr evidence"
    "critic_evaluation T plan = Inr e" "rating_mismatch T plan stops = Inr gap"
    "rating_override gap (rule_findings T plan stops e evidence) = (v, a, fs)"
    "report = \<lparr>rr_verdict = v, rr_findings = take 30 fs, rr_adjustments = a, rr_route = e, rr_confidence = 9 / 10\<rparr>"
    "report_ok report"
proof -
  obtain stops evidence e gap where parts:
    "items_of (obj_get plan ''stops'') = Inr stops"
    "res_map (\<lambda>(i, s). stop_evidence T i s) (List.enumerate 0 stops) = Inr evidence"
    "critic_evaluation T plan = Inr e" "rating_mismatch T plan stops = Inr gap"
    and rest: "(case rating_override gap (rule_findings T plan stops e evidence) of (verdict, adjustments, fs) \<Rightarrow>
         res_bind (make_report \<lparr>rr_verdict = verdict, rr_findings = take 30 fs, rr_adjustments = adjustments,
                     rr_route = e, rr_confidence = 9 / 10\<rparr>) (\<lambda>report.
         res_bind (evidence_refs T plan) (\<lambda>refs. Inr (report, refs)))) = Inr (report, refs)"
    using assms unfolding rule_review_def by (auto simp only: res_simps)
  obtain v a fs where o: "rating_override gap (rule_findings T plan stops e evidence) = (v, a, fs)"
    by (metis prod_cases3)
  then have "make_report \<lparr>rr_verdict = v, rr_findings = take 30 fs, rr_adjustments = a, rr_route = e,
      rr_confidence = 9 / 10\<rparr> = Inr report"
    using rest by (auto simp: res_simps)
  then show ?thesis
    using that [OF parts o] by (auto simp: make_report_def split: if_splits)
qed


section \<open>Whole reviews\<close>

lemma evidence_no_value:
  assumes "m \<noteq> ''could not convert string to float''"
  shows "stop_evidence T i s \<noteq> Inl (ValueError m)" "rating_mismatch T plan stops \<noteq> Inl (ValueError m)"
    "evidence_refs T plan \<noteq> Inl (ValueError m)"
proof -
  have get: "get_of v k \<noteq> Inl (ValueError m)" for v k by (simp add: get_of_def split: json.split)
  have items: "items_of v \<noteq> Inl (ValueError m)" for v by (simp add: items_of_def split: json.split)
  have sub: "sub_object d k \<noteq> Inl (ValueError m)" for d k by (simp add: sub_object_def Let_def split: json.split)
  have fl: "float_or0 T v \<noteq> Inl (ValueError m)" for v
    using assms by (simp add: float_or0_def to_float_def split: json.split option.split)
  have rm: "(\<And>x. f x \<noteq> Inl (ValueError m)) \<Longrightarrow> res_map f xs \<noteq> Inl (ValueError m)" for f :: "'b \<Rightarrow> 'c res" and xs
    by (induction xs) (auto simp: res_simps)
  show "stop_evidence T i s \<noteq> Inl (ValueError m)"
    unfolding stop_evidence_def Let_def by (auto simp: res_simps get fl)
  have rating: "rating_of T v \<noteq> Inl (ValueError m)" for v
    unfolding rating_of_def by (auto simp: res_simps get fl)
  have "selected_ratings T ss \<noteq> Inl (ValueError m)" for ss
    unfolding selected_ratings_def by (rule rm) (auto simp: res_simps get rating)
  moreover have "candidate_ratings T plan \<noteq> Inl (ValueError m)"
  proof -
    have inner: "res_bind (get_of r ''candidates'') (\<lambda>cs. res_bind (items_of cs) (res_map (rating_of T))) \<noteq> Inl (ValueError m)" for r
      using rm [of "rating_of T"] rating by (auto simp: res_simps get items)
    have "res_map (\<lambda>r. res_bind (get_of r ''candidates'') (\<lambda>cs. res_bind (items_of cs) (res_map (rating_of T)))) rs
        \<noteq> Inl (ValueError m)" for rs
      by (rule rm) (rule inner)
    then show ?thesis
      unfolding candidate_ratings_def by (auto simp: res_bind_Inl_iff items)
  qed
  moreover have "wants_rating plan \<noteq> Inl (ValueError m)"
    unfolding wants_rating_def by (auto simp: res_simps sub get)
  ultimately show "rating_mismatch T plan stops \<noteq> Inl (ValueError m)"
    unfolding rating_mismatch_def by (auto simp: res_simps)
  show "evidence_refs T plan \<noteq> Inl (ValueError m)"
  proof -
    have "stop_refs T s \<noteq> Inl (ValueError m)" for s
      unfolding stop_refs_def by (auto simp: res_bind_Inl_iff get)
    then have "res_map (stop_refs T) ss \<noteq> Inl (ValueError m)" for ss by (rule rm)
    then show ?thesis unfolding evidence_refs_def by (auto simp: res_bind_Inl_iff items)
  qed
qed

lemma evaluation_no_value: "critic_evaluation T plan \<noteq> Inl (ValueError m)"
proof -
  have sub: "sub_object d k \<noteq> Inl (ValueError m)" for d k by (simp add: sub_object_def Let_def split: json.split)
  have "runtime_route_policy plan \<noteq> Inl (ValueError m)"
    unfolding runtime_route_policy_def expected_from_plan_def by (auto simp: res_simps sub expected_style_def)
  then show ?thesis
    using runtime_policy_limits(5) evaluate_no_value_error
    unfolding critic_evaluation_def by (auto simp: res_simps)
qed

lemma rule_review_accepted:
  "rule_review T plan \<noteq> Inl (ValueError ''ReviewReport'')"
  "rule_review T plan = Inr (report, refs) \<Longrightarrow> report_ok report"
proof -
  have map_ok: "res_map (\<lambda>(i, s). stop_evidence T i s) xs \<noteq> Inl (ValueError ''ReviewReport'')" for xs
    by (induction xs) (auto simp: res_simps evidence_no_value)
  have items: "items_of v \<noteq> Inl (ValueError ''ReviewReport'')" for v by (simp add: items_of_def split: json.split)
  have sub: "sub_object d k \<noteq> Inl (ValueError ''ReviewReport'')" for d k
    by (simp add: sub_object_def Let_def split: json.split)
  show "rule_review T plan \<noteq> Inl (ValueError ''ReviewReport'')"
  proof
    assume "rule_review T plan = Inl (ValueError ''ReviewReport'')"
    then obtain stops evidence e gap where
      ev: "res_map (\<lambda>(i, s). stop_evidence T i s) (List.enumerate 0 stops) = Inr evidence"
      and e: "critic_evaluation T plan = Inr e"
      and rest: "(case rating_override gap (rule_findings T plan stops e evidence) of (verdict, adjustments, fs) \<Rightarrow>
         res_bind (make_report \<lparr>rr_verdict = verdict, rr_findings = take 30 fs, rr_adjustments = adjustments,
                     rr_route = e, rr_confidence = 9 / 10\<rparr>) (\<lambda>report.
         res_bind (evidence_refs T plan) (\<lambda>refs. Inr (report, refs)))) = Inl (ValueError ''ReviewReport'')"
      unfolding rule_review_def
      using map_ok items sub evaluation_no_value evidence_no_value(2) [of "''ReviewReport''"]
      by (auto simp only: res_simps simp_thms list.inject char.inject sum.inject)
    obtain v a fs where o: "rating_override gap (rule_findings T plan stops e evidence) = (v, a, fs)"
      by (metis prod_cases3)
    have "list_all (list_all finding_ok) evidence"
      using res_map_all [OF ev, of "list_all finding_ok"] evidence_ok by fastforce
    then have "list_all finding_ok (rule_findings T plan stops e evidence)" using e by (rule rule_findings_ok)
    moreover have "case e of None \<Rightarrow> True | Some ev \<Rightarrow> summary_ok ev"
      using e critic_evaluation_facts(1) by (cases e) auto
    ultimately have "report_ok \<lparr>rr_verdict = v, rr_findings = take 30 fs, rr_adjustments = a, rr_route = e, rr_confidence = 9 / 10\<rparr>"
      using o by (rule rule_report_accepted)
    then show False
      using rest o evidence_no_value(3) [of "''ReviewReport''"] by (simp add: make_report_def res_simps)
  qed
  show "rule_review T plan = Inr (report, refs) \<Longrightarrow> report_ok report"
    by (rule rule_review_cases)
qed


text \<open>A report merged from the model's answer and the evaluation.\<close>

lemma merge_review_accepted:
  assumes "report_ok r0" "critic_evaluation T plan = Inr e"
  shows "\<exists>r. merge_review e r0 = Inr r \<and> report_ok r"
proof (cases e)
  case None
  then show ?thesis using assms(1) by (simp add: merge_review_def)
next
  case (Some ev)
  note f = critic_evaluation_facts [OF assms(2) [unfolded Some]]
  obtain v a where m: "merge_verdict ev r0 = (v, a)" by (cases "merge_verdict ev r0") auto
  let ?r = "\<lparr>rr_verdict = v, rr_findings = take 30 (reported (rte_findings ev) @ rr_findings r0),
            rr_adjustments = a, rr_route = Some ev, rr_confidence = rr_confidence r0\<rparr>"
  have "list_all finding_ok (take 30 (reported (rte_findings ev) @ rr_findings r0))"
    using reported_ok [OF f(2)] assms(1) by (intro list_all_take) (simp add: report_ok_def)
  moreover have "(case a of None \<Rightarrow> True | Some x \<Rightarrow> adjustments_ok x) \<and> retry_boundary_ok ?r"
    using m assms(1) by (auto simp: merge_verdict_def report_ok_def retry_boundary_ok_def split: if_splits)
  ultimately have "report_ok ?r" using f(1) assms(1) by (simp add: report_ok_def)
  then show ?thesis using m by (simp add: merge_review_def make_report_def Some)
qed

lemma merge_hard_verdict:
  "merge_review (Some e) r0 = Inr r \<Longrightarrow> rte_hard e \<noteq> [] \<Longrightarrow> rr_verdict r = Plan_needs_clarification"
  by (auto simp: merge_review_def merge_verdict_def make_report_def split: if_splits)

lemma hard_blocks:
  assumes "critic_evaluation T plan = Inr (Some e)" "rte_hard e \<noteq> []"
  shows "list_ex (\<lambda>f. vf_severity f = Sev_blocking) (reported (rte_findings e))"
proof -
  have "\<not> list_all (\<lambda>f. snd f \<noteq> Sev_blocking) (rte_findings e)"
    using assms critic_evaluation_facts(3) [OF assms(1)] hard_codes_empty by metis
  then obtain c where "(c, Sev_blocking) \<in> set (rte_findings e)" by (auto simp: list_all_iff)
  then show ?thesis by (force simp: reported_def list_ex_iff)
qed

lemma rule_hard_verdict:
  assumes "rule_review T plan = Inr (report, refs)"
    and "critic_evaluation T plan = Inr (Some e)" "rte_hard e \<noteq> []"
  shows "rr_verdict report = Plan_needs_clarification
    \<or> rr_verdict report = Plan_retry \<and> (\<exists>stops. items_of (obj_get plan ''stops'') = Inr stops \<and> rating_mismatch T plan stops = Inr True)"
  using assms(1)
proof (rule rule_review_cases)
  fix stops evidence ev gap v a fs
  assume it: "items_of (obj_get plan ''stops'') = Inr stops" and g: "rating_mismatch T plan stops = Inr gap"
    and e: "critic_evaluation T plan = Inr ev"
    and o: "rating_override gap (rule_findings T plan stops ev evidence) = (v, a, fs)"
    and report: "report = \<lparr>rr_verdict = v, rr_findings = take 30 fs, rr_adjustments = a, rr_route = ev, rr_confidence = 9 / 10\<rparr>"
  have "ev = Some e" using e assms(2) by simp
  then have "list_ex (\<lambda>f. vf_severity f = Sev_blocking) (rule_findings T plan stops ev evidence)"
    using hard_blocks [OF assms(2,3)] by (auto simp: rule_findings_def list_ex_iff)
  then show ?thesis
    using o it g by (auto simp: report rating_override_def rule_verdict_def split: if_splits)
qed

text \<open>The report of the model's branch.\<close>

lemma model_report_cases:
  assumes "model_report T read_report S data plan = Inr x"
  obtains t r0 e where "read_report t = Some r0" "critic_evaluation T plan = Inr e"
    "merge_review e r0 = Inr (ve_report x)"
  using assms unfolding model_report_def by (auto simp: res_simps split: option.splits)

lemma routed_review_cases:
  assumes "routed_review T read_report S answer plan = Inr x"
  obtains (rules) refs where "rule_review T plan = Inr (ve_report x, refs)"
  | (model) data y where "answer = Inr data" "model_report T read_report S data plan = Inr y" "ve_report x = ve_report y"
proof -
  have run: "ve_report y = report" if "rule_execution T b why plan = Inr y" "rule_review T plan = Inr (report, refs)"
    for y b why report refs
    using that by (auto simp: rule_execution_def)
  have ex: "\<exists>refs. rule_review T plan = Inr (ve_report y, refs)" if "rule_execution T b why plan = Inr y" for y b why
    using that by (auto simp: rule_execution_def res_simps)
  obtain c y where body: "(if rd_tier (route_model (kt_router S) c) = Tier_strong \<and> kt_model_configured S
        then model_review T read_report S answer plan else rule_execution T False None plan) = Inr y"
    and y: "ve_report x = ve_report y"
    using assms unfolding routed_review_def Let_def res_bind_Inr_iff by fastforce
  have c: "model_review T read_report S answer plan = Inr y \<or> rule_execution T False None plan = Inr y"
    using body by (metis (full_types))
  show ?thesis
  proof (cases "\<exists>b why. rule_execution T b why plan = Inr y")
    case True
    then show ?thesis using ex y rules by metis
  next
    case False
    then have "model_review T read_report S answer plan = Inr y" using c by blast
    then show ?thesis
      using False y model
      by (auto simp: model_review_def split: sum.splits option.splits)
  qed
qed


section \<open>The properties\<close>

text \<open>
  C15: Every report a critic returns satisfies the report schema and its retry rule, and no report it
  builds is ever refused by that schema, whatever the plan is and whatever the model answers.
\<close>

theorem reviews_are_valid:
  assumes "\<forall>t r. read_report t = Some r \<longrightarrow> report_ok r"
  shows "rule_review T plan \<noteq> Inl (ValueError ''ReviewReport'')
    \<and> (case routed_review T read_report S answer plan of Inl e \<Rightarrow> True | Inr x \<Rightarrow> report_ok (ve_report x))"
proof (cases "routed_review T read_report S answer plan")
  case (Inl e)
  then show ?thesis by (simp add: rule_review_accepted)
next
  case (Inr x)
  then have "report_ok (ve_report x)"
  proof (cases rule: routed_review_cases)
    case (rules refs)
    then show ?thesis by (rule rule_review_accepted(2))
  next
    case (model data y)
    from model(2) obtain t r0 e where "read_report t = Some r0" "critic_evaluation T plan = Inr e"
      "merge_review e r0 = Inr (ve_report y)"
      by (rule model_report_cases)
    then show ?thesis using merge_review_accepted [of r0 T plan e] assms model(3) by auto
  qed
  then show ?thesis using Inr by (simp add: rule_review_accepted)
qed

text \<open>
  C11: A plan whose evaluation violates a hard constraint is never approved: whichever critic is chosen
  and whatever the model answers, the verdict asks for clarification, or for a retry when the plan
  has better rated candidates.
\<close>

theorem violated_plan_never_approved:
  assumes "routed_review T read_report S answer plan = Inr x"
    and "critic_evaluation T plan = Inr (Some e)" "rte_hard e \<noteq> []"
  shows "rr_verdict (ve_report x) = Plan_needs_clarification
    \<or> rr_verdict (ve_report x) = Plan_retry
      \<and> (\<exists>stops. items_of (obj_get plan ''stops'') = Inr stops \<and> rating_mismatch T plan stops = Inr True)"
  using assms(1)
proof (cases rule: routed_review_cases)
  case (rules refs)
  then show ?thesis by (rule rule_hard_verdict) (fact assms(2,3))+
next
  case (model data y)
  from model(2) obtain t r0 eo where "read_report t = Some r0" and eo: "critic_evaluation T plan = Inr eo"
    and m: "merge_review eo r0 = Inr (ve_report y)"
    by (rule model_report_cases)
  have "eo = Some e" using eo assms(2) by simp
  then show ?thesis
    using m assms(3) model(3) merge_hard_verdict by simp
qed

text \<open>
  C19: The rating check comes last and replaces the verdict: a plan with much better rated candidates
  gets a retry with soft adjustments even when findings block it.
\<close>

theorem rating_gap_replaces_verdict:
  assumes "rule_review T plan = Inr (report, refs)"
    and "items_of (obj_get plan ''stops'') = Inr stops" "rating_mismatch T plan stops = Inr True"
  shows "rr_verdict report = Plan_retry \<and> map_option updates (rr_adjustments report) = Some [(''low_rating'', 3 / 2)]"
  using assms(1)
proof (rule rule_review_cases)
  fix ss evidence ev gap v a fs
  assume "items_of (obj_get plan ''stops'') = Inr ss" "rating_mismatch T plan ss = Inr gap"
    and o: "rating_override gap (rule_findings T plan ss ev evidence) = (v, a, fs)"
    and report: "report = \<lparr>rr_verdict = v, rr_findings = take 30 fs, rr_adjustments = a, rr_route = ev, rr_confidence = 9 / 10\<rparr>"
  then have gap using assms(2,3) by simp
  then show ?thesis using o by (auto simp: report rating_override_def)
qed

text \<open>
  An answer of the model without choices is not replaced by the rules: the exception of the
  subscript is not among those caught, and leaves the critic.
\<close>

theorem empty_choices_escape:
  "model_review T read_report S (Inr (JObj [(''choices'', JArr [])])) plan = Inl IndexError"
  by (simp add: model_review_def model_report_def index_key_def index_first_def)

text \<open>
  C16: The runtime evaluation of a route passes exactly when the plan succeeded, has stops with
  distinct identifiers, keeps every hard constraint of time, duration, cost and walking, and meets
  every stated preference; the final score says which of the three cases holds: 0 for a violated
  constraint, 70 for a missed preference, 100 otherwise.
\<close>

theorem route_evaluation_exact:
  assumes "runtime_route_policy plan = Inr pol" "evaluate_route_plan T pol plan = Inr e"
  shows "\<exists>xs stops intent constraints hard checks walking.
      items_of (obj_get plan ''stops'') = Inr xs
    \<and> res_map view_stop (List.map_filter (\<lambda>v. case v of JObj kvs \<Rightarrow> Some kvs | _ \<Rightarrow> None) xs) = Inr stops
    \<and> sub_object plan ''intent'' = Inr intent \<and> sub_object intent ''constraints'' = Inr constraints
    \<and> sub_object constraints ''hard'' = Inr hard
    \<and> walking = walking_meters T (obj_get intent ''transport_mode'') stops
    \<and> preference_checks T pol (or_empty (obj_get intent ''preferences'')) stops walking
         (number_of T (obj_get plan ''total_travel_seconds'')) = Inr checks
    \<and> (rte_hard e = [] \<longleftrightarrow> route_sound T plan hard stops walking)
    \<and> (rte_passed e \<longleftrightarrow> route_sound T plan hard stops walking \<and> list_all id checks)
    \<and> rte_final e = (if \<not> route_sound T plan hard stops walking then 0 else if list_all id checks then 100 else 70)"
  using assms by (rule evaluation_passes_exactly)

section \<open>Witnesses\<close>

text \<open>A successful plan whose only stop violates its constraint, with a better rated candidate.\<close>

definition plain_texts :: python_texts where
  "plain_texts = \<lparr>tt_float = \<lambda>s. None, tt_iso = \<lambda>s. Not_iso, tt_fold = id, tt_str = \<lambda>v. ''?''\<rparr>"

definition sample_stop :: payload where
  "sample_stop =
     [(''poi'', JObj [(''id'', JStr ''a''), (''source'', JStr ''amap''), (''rating'', JInt 3)]),
      (''travel'', JObj [(''confidence'', JInt 1)]), (''constraint_satisfied'', JBool False)]"

definition sample_plan :: payload where
  "sample_plan =
     [(''status'', JStr ''success''), (''explanation'', JStr ''ok''), (''stops'', JArr [JObj sample_stop]),
      (''intent'', JObj [(''preferences'', JObj [(''prefer_high_rating'', JBool True)])]),
      (''candidate_reviews'', JArr [JObj [(''candidates'', JArr [JObj [(''rating'', JInt 5)]])]])]"


definition sample_view :: route_stop where
  "sample_view =
     \<lparr>rts_fields = sample_stop, rts_poi = [(''id'', JStr ''a''), (''source'', JStr ''amap''), (''rating'', JInt 3)],
      rts_task = [], rts_travel = [(''confidence'', JInt 1)]\<rparr>"

definition sample_policy :: evaluation_policy where
  "sample_policy =
     \<lparr>rp_max_distance = None, rp_max_seconds = None, rp_hard_seconds = None, rp_relaxed_stops = 4,
      rp_relaxed_walking = 6000, rp_relaxed_seconds = 14400, rp_min_rating = 42 / 10, rp_pass = 75,
      rp_expected = \<lparr>ep_avoid_hiking = None, ep_style = None, ep_minimize_walking = None, ep_high_rating = Some True\<rparr>\<rparr>"

lemma sample_lookups:
  "obj_get sample_plan ''status'' = JStr ''success''" "obj_get sample_plan ''explanation'' = JStr ''ok''"
  "obj_get sample_plan ''stops'' = JArr [JObj sample_stop]"
  "sub_object sample_plan ''intent'' = Inr [(''preferences'', JObj [(''prefer_high_rating'', JBool True)])]"
  "obj_get sample_plan ''candidate_reviews'' = JArr [JObj [(''candidates'', JArr [JObj [(''rating'', JInt 5)]])]]"
  "obj_get sample_stop ''poi'' = JObj [(''id'', JStr ''a''), (''source'', JStr ''amap''), (''rating'', JInt 3)]"
  "obj_get sample_stop ''travel'' = JObj [(''confidence'', JInt 1)]"
  "obj_get sample_stop ''constraint_satisfied'' = JBool False"
  "view_stop sample_stop = Inr sample_view"
  by (simp_all add: sample_plan_def sample_stop_def obj_get_def sub_object_def view_stop_def sample_view_def Let_def)

lemma sample_intent:
  "sub_object [(''preferences'', JObj [(''prefer_high_rating'', JBool True)])] ''preferences''
     = Inr [(''prefer_high_rating'', JBool True)]"
  "sub_object [(''preferences'', JObj [(''prefer_high_rating'', JBool True)])] ''constraints'' = Inr []"
  "sub_object [] ''hard'' = Inr []"
  "or_empty (obj_get [(''preferences'', JObj [(''prefer_high_rating'', JBool True)])] ''preferences'')
     = JObj [(''prefer_high_rating'', JBool True)]"
  by (simp_all add: sub_object_def obj_get_def or_empty_def Let_def)

lemma sample_items: "items_of (obj_get sample_plan ''stops'') = Inr [JObj sample_stop]"
  by (simp add: sample_lookups items_of_def)

lemma sample_runtime_policy: "runtime_route_policy sample_plan = Inr sample_policy"
  by (simp add: runtime_route_policy_def expected_from_plan_def sample_lookups(4) sample_intent(1)
      sample_policy_def obj_get_def expected_style_def only_true_def hashable_def)

lemma sample_checks:
  "preference_checks plain_texts sample_policy (JObj [(''prefer_high_rating'', JBool True)]) [sample_view] w s = Inr [False]"
  by (simp add: preference_checks_def preference_check_def sample_policy_def get_of_def obj_get_def good_ratings_def
      sample_view_def number_of_def to_float_def Let_def)

lemma sample_evaluation: "\<exists>e. critic_evaluation plain_texts sample_plan = Inr (Some e)
    \<and> evaluate_route_plan plain_texts sample_policy sample_plan = Inr e \<and> rte_hard e \<noteq> []"
proof -
  let ?w = "walking_meters plain_texts (obj_get [(''preferences'', JObj [(''prefer_high_rating'', JBool True)])] ''transport_mode'') [sample_view]"
  let ?e = "score_route plain_texts sample_policy sample_plan
      (constraint_findings plain_texts sample_policy sample_plan [] [sample_view] ?w) [False]"
  have limits: "limits_positive sample_policy" using runtime_policy_limits(5) [OF sample_runtime_policy] .
  have eval: "evaluate_route_plan plain_texts sample_policy sample_plan = Inr ?e"
    unfolding evaluate_route_plan_def Let_def
    by (simp add: sample_items sample_lookups(4,9) sample_intent List.map_filter_def sample_checks score_route_ok [OF limits])
  have "\<not> route_sound plain_texts sample_plan [] [sample_view] ?w"
    by (simp add: route_sound_def sample_view_def sample_lookups)
  then have "rte_hard ?e \<noteq> []"
    using runtime_scores(2) [OF runtime_policy_limits(1-4) [OF sample_runtime_policy]] by blast
  then show ?thesis
    using eval by (simp add: critic_evaluation_def sample_lookups(1) sample_runtime_policy)
qed


lemma sample_gap: "rating_mismatch plain_texts sample_plan [JObj sample_stop] = Inr True"
proof -
  have "wants_rating sample_plan = Inr True"
    by (simp add: wants_rating_def sample_lookups sample_intent get_of_def obj_get_def [of "[(''prefer_high_rating'', _)]"])
  moreover have "selected_ratings plain_texts [JObj sample_stop] = Inr [3]"
    by (simp add: selected_ratings_def rating_of_def get_of_def sample_lookups or_empty_def float_or0_def to_float_def
        obj_get_def [of "[(''id'', _), (''source'', _), (''rating'', _)]"])
  moreover have "candidate_ratings plain_texts sample_plan = Inr [5]"
    by (simp add: candidate_ratings_def rating_of_def get_of_def sample_lookups items_of_def float_or0_def to_float_def
        obj_get_def [of "[(''candidates'', _)]"] obj_get_def [of "[(''rating'', _)]"])
  ultimately show ?thesis by (simp add: rating_mismatch_def rating_gap_def)
qed

lemma sample_evidence:
  "stop_evidence plain_texts i (JObj sample_stop) = Inr []" "\<exists>refs. stop_refs plain_texts (JObj sample_stop) = Inr refs"
  by (simp_all add: stop_evidence_def stop_refs_def get_of_def sample_lookups or_empty_def float_or0_def to_float_def
      warns_def only_if_def hashable_def
      obj_get_def [of "[(''id'', _), (''source'', _), (''rating'', _)]"] obj_get_def [of "[(''confidence'', _)]"])

lemma sample_review: "\<exists>report refs. rule_review plain_texts sample_plan = Inr (report, refs)"
proof -
  obtain e where e: "critic_evaluation plain_texts sample_plan = Inr (Some e)" using sample_evaluation by blast
  obtain refs where refs: "evidence_refs plain_texts sample_plan = Inr refs"
    using sample_evidence(2) by (auto simp: evidence_refs_def sample_items)
  obtain v a fs where o: "rating_override True (rule_findings plain_texts sample_plan [JObj sample_stop] (Some e) [[]]) = (v, a, fs)"
    by (metis prod_cases3)
  have "report_ok \<lparr>rr_verdict = v, rr_findings = take 30 fs, rr_adjustments = a, rr_route = Some e, rr_confidence = 9 / 10\<rparr>"
    using rule_findings_ok [OF _ e, of "[[]]"] critic_evaluation_facts(1) [OF e] o
    by (intro rule_report_accepted [OF _ _ o]) auto
  then show ?thesis
    unfolding rule_review_def sample_lookups(4) sample_items
    by (simp add: sample_evidence(1) e sample_gap o make_report_def refs)
qed

lemma sample_routed:
  assumes "\<not> kt_model_configured S"
  shows "\<exists>x. routed_review plain_texts (\<lambda>t. None) S (Inl ''ConnectError'') sample_plan = Inr x"
proof -
  have "routing_context_from_plan sample_plan Ag_critic False \<noteq> Inl e" for e
    by (simp add: routing_context_from_plan_def sample_lookups sample_intent first_truthy_def json_len_def
        sub_object_def [of "[]"] obj_get_def [of "[]"] obj_get_def [of "[(''preferences'', _)]"] any_count.simps py_int_or0_def
        routing_context_ok_def Let_def)
  then obtain c where "routing_context_from_plan sample_plan Ag_critic False = Inr c" by (meson sumE)
  then show ?thesis
    using assms sample_review by (auto simp: routed_review_def rule_execution_def Let_def)
qed

theorem reviews_are_valid_witness:
  "\<exists>report refs. rule_review plain_texts sample_plan = Inr (report, refs)
     \<and> rule_review plain_texts sample_plan \<noteq> Inl (ValueError ''ReviewReport'')"
  using sample_review reviews_are_valid [of "\<lambda>t. None" plain_texts sample_plan] by blast

definition no_model :: critic_settings where
  "no_model =
     \<lparr>kt_router = \<lparr>ms_enabled = False, ms_rule_max = 2, ms_strong_min = 5, ms_strong_uncertain = 2, ms_model = ''m'',
        ms_small = [], ms_strong = [], ms_small_input = 0, ms_small_output = 0, ms_strong_input = 0, ms_strong_output = 0\<rparr>,
      kt_max_input = 4000, kt_max_output = 800, kt_input_price = 0, kt_output_price = 0, kt_model_configured = False\<rparr>"

theorem violated_plan_never_approved_witness:
  "\<exists>x. routed_review plain_texts (\<lambda>t. None) no_model (Inl ''ConnectError'') sample_plan = Inr x
     \<and> rr_verdict (ve_report x) \<noteq> Plan_approved \<and> rr_verdict (ve_report x) \<noteq> Plan_approved_with_warnings"
proof -
  obtain x where x: "routed_review plain_texts (\<lambda>t. None) no_model (Inl ''ConnectError'') sample_plan = Inr x"
    using sample_routed [of no_model] by (fastforce simp: no_model_def)
  obtain e where "critic_evaluation plain_texts sample_plan = Inr (Some e)" "rte_hard e \<noteq> []"
    using sample_evaluation by blast
  then show ?thesis using violated_plan_never_approved [OF x] x by auto
qed

theorem rating_gap_replaces_verdict_witness:
  "\<exists>report refs e. rule_review plain_texts sample_plan = Inr (report, refs) \<and> rr_verdict report = Plan_retry
     \<and> critic_evaluation plain_texts sample_plan = Inr (Some e) \<and> rte_hard e \<noteq> []"
  using sample_review sample_evaluation rating_gap_replaces_verdict [OF _ sample_items sample_gap] by blast

theorem route_evaluation_exact_witness:
  "\<exists>e. evaluate_route_plan plain_texts sample_policy sample_plan = Inr e \<and> (rte_passed e \<longrightarrow> rte_final e = 100)"
proof -
  obtain e where e: "evaluate_route_plan plain_texts sample_policy sample_plan = Inr e" using sample_evaluation by blast
  show ?thesis using route_evaluation_exact [OF sample_runtime_policy e] e by auto
qed

end
