(* ===== verification/Planning_Workflow.thy ===== *)
theory Planning_Workflow
  imports Workflow_Checkpoints Critics Shared_State
begin

text \<open>
  The planning workflow: \<open>PlanningAgentOrchestrator\<close> (\<open>services/agent_orchestrator.py\<close>) with the
  checks of the contexts it builds (\<open>services/agent_context.py\<close>), the planning service around it
  (\<open>services/planning_service.py\<close>) and the confirmation gates (\<open>services/human_in_loop.py\<close>).

  The agents are parameters: what each returns or raises on its input. The state they share is the
  phase, the revision and the values of \<open>Shared_State\<close>, which only this workflow writes (its key is
  a fresh identifier): \<open>share\<close> makes the checks of \<open>update_state\<close>. A message is its envelope and
  the references it carries; building it is \<open>Protocol\<close>. Roles run in this process (the distributed
  execution is \<open>Transport\<close>). Texts for people are named by what they report.
\<close>

section \<open>Data\<close>

record mail =
  ml_sender :: agent_endpoint
  ml_type :: message_type
  ml_artifact :: string
  ml_revision :: int
  ml_hash :: string
  ml_digest :: "string option"
  ml_search_digest :: "string option"

text \<open>What \<open>AgentExecution\<close> says of an agent's run.\<close>

record 'o outcome =
  oc_output :: 'o
  oc_artifact :: string
  oc_payload :: payload
  oc_input_tokens :: int
  oc_output_tokens :: int
  oc_cost :: rat

text \<open>\<open>AIPlanResult\<close>: the members the workflow reads, and the others.\<close>

record plan_result =
  ap_status :: string
  ap_state :: string
  ap_intent :: workflow_intent
  ap_distance :: rat
  ap_costs :: "rat option list"
  ap_questions :: "string list"
  ap_warnings :: "string list"
  ap_review :: "review_report option"
  ap_rest :: payload

text \<open>\<open>model_dump(exclude={"critic_review", "agent_workflow"})\<close>.\<close>

definition dump_plan :: "plan_result \<Rightarrow> payload" where
  "dump_plan r =
     [(''status'', JStr (ap_status r)), (''planning_state'', JStr (ap_state r)),
      (''total_distance_meters'', JFloat (ap_distance r)),
      (''questions'', JArr (map JStr (ap_questions r))), (''warnings'', JArr (map JStr (ap_warnings r)))] @ ap_rest r"

text \<open>The state the agents share.\<close>

record board =
  bo_phase :: phase
  bo_revision :: int
  bo_requirement :: "workflow_intent option"
  bo_candidates :: json
  bo_route :: "payload option"
  bo_evaluation :: "review_report option"
  bo_adjustments :: "soft_adjustments option"
  bo_context :: payload

text \<open>One call of the recovery handler by the search agent.\<close>

record recovery_event =
  rce_error :: seen_exception
  rce_attempt :: int
  rce_max_attempts :: int
  rce_timeout :: "rat option"
  rce_available :: bool
  rce_source :: "string option"

text \<open>
  What the planner is given, \<open>PlanningContext\<close>: the intent, the search artifact, the safety report
  and the weather.
\<close>

record planning_context =
  px_intent :: workflow_intent
  px_search :: payload
  px_safety :: json
  px_weather :: "payload option"

text \<open>
  The agents, and what else the workflow is given: hashes, the audit of the shared state, the clock,
  whether the request has an origin and what the user has confirmed.
\<close>

record team =
  tm_intent :: "seen_exception + (workflow_intent \<times> string list) outcome"
  tm_search :: "workflow_intent \<Rightarrow> recovery_event list \<times> (seen_exception + payload outcome)"
  tm_weather :: "seen_exception + payload"
  tm_safety :: "workflow_intent \<Rightarrow> json \<Rightarrow> payload option \<Rightarrow> payload outcome"
  tm_planner :: "planning_context \<Rightarrow> seen_exception + plan_result outcome"
  tm_critic :: "payload \<Rightarrow> seen_exception + review_report outcome"
  tm_hash :: "board \<Rightarrow> string"
  tm_digest :: "json \<Rightarrow> string"
  tm_intent_digest :: "workflow_intent \<Rightarrow> string"
  tm_audit :: "board \<Rightarrow> state_audit"
  tm_fold :: "string \<Rightarrow> string"
  tm_fr :: "rat \<Rightarrow> string"
  tm_now :: instant
  tm_origin :: bool
  tm_confirmed :: "(string, bool) dict"

record flow_settings =
  fs_max_handoffs :: int
  fs_max_cost :: rat
  fs_max_retries :: int
  fs_input_price :: rat
  fs_output_price :: rat

text \<open>
  The orchestrator: its trace, what waits for each role, the revision it knows, the shared state
  and the checkpoint store, if there is one.
\<close>

record flow =
  fl_trace :: workflow_trace
  fl_pending :: "(agent_endpoint, mail list) dict"
  fl_revision :: int
  fl_board :: "board option"
  fl_store :: "(int \<times> workflow_db) option"

section \<open>Actions that may raise\<close>

text \<open>An action keeps the state it reached when it raises.\<close>

type_synonym 'a act = "flow \<Rightarrow> (seen_exception + 'a) \<times> flow"

definition give :: "'a \<Rightarrow> 'a act" where
  "give x f = (Inr x, f)"

definition raise :: "seen_exception \<Rightarrow> 'a act" where
  "raise e f = (Inl e, f)"

definition also_do :: "'a act \<Rightarrow> ('a \<Rightarrow> 'b act) \<Rightarrow> 'b act" where
  "also_do a k f = (case a f of (Inl e, g) \<Rightarrow> (Inl e, g) | (Inr x, g) \<Rightarrow> k x g)"

definition modify :: "(flow \<Rightarrow> flow) \<Rightarrow> unit act" where
  "modify h f = (Inr (), h f)"

definition look :: "(flow \<Rightarrow> 'a) \<Rightarrow> 'a act" where
  "look h f = (Inr (h f), f)"

definition check :: "bool \<Rightarrow> string \<Rightarrow> unit act" where
  "check b msg = (if b then give () else raise (protocol_failure msg))"

definition lift :: "seen_exception + 'a \<Rightarrow> 'a act" where
  "lift r = (case r of Inl e \<Rightarrow> raise e | Inr x \<Rightarrow> give x)"

section \<open>Messages\<close>

definition route_open :: "agent_endpoint \<Rightarrow> agent_endpoint \<Rightarrow> message_type \<Rightarrow> string \<Rightarrow> bool" where
  "route_open sender receiver t artifact \<longleftrightarrow>
     list_ex (\<lambda>r. ar_sender r = sender \<and> ar_receiver r = receiver \<and> ar_type r = t
       \<and> artifact \<in> set (ar_artifacts r)) agent_routes"

definition dispatch :: "agent_endpoint \<Rightarrow> mail \<Rightarrow> mail act" where
  "dispatch receiver m =
     also_do (check (route_open (ml_sender m) receiver (ml_type m) (ml_artifact m)) ''message route is not allowed'') (\<lambda>_.
     also_do (modify (\<lambda>f. f\<lparr>fl_pending :=
        dset receiver ((case dget (fl_pending f) receiver of None \<Rightarrow> [] | Some ms \<Rightarrow> ms) @ [m]) (fl_pending f)\<rparr>)) (\<lambda>_.
     give m))"

text \<open>Taking the oldest message of a role, and its queue with it when it is the last.\<close>

definition pop_mail :: "agent_endpoint \<Rightarrow> flow \<Rightarrow> mail option \<times> flow" where
  "pop_mail receiver f =
     (case dget (fl_pending f) receiver of
        Some (m # ms) \<Rightarrow>
          (Some m, f\<lparr>fl_pending := (if ms = [] then dpop receiver (fl_pending f)
             else dset receiver ms (fl_pending f))\<rparr>)
      | _ \<Rightarrow> (None, f))"

definition consume :: "agent_endpoint \<Rightarrow> string list \<Rightarrow> mail act" where
  "consume receiver expected f =
     (case pop_mail receiver f of
        (None, g) \<Rightarrow> (Inl (protocol_failure ''no pending message''), g)
      | (Some m, g) \<Rightarrow>
          if ml_artifact m \<in> set expected then (Inr m, g)
          else (Inl (protocol_failure ''cannot consume this artifact''), g))"

section \<open>The shared state\<close>

definition shared_failure :: "shared_error \<Rightarrow> seen_exception" where
  "shared_failure e =
     \<lparr>se_text = ''shared state'',
      se_class = (case e of State_not_found \<Rightarrow> ''SharedStateNotFoundError'' | State_conflict \<Rightarrow> ''SharedStateConflictError''
                  | Access_denied \<Rightarrow> ''SharedStateAccessError'' | _ \<Rightarrow> ''SharedStateError''),
      se_is_timeout = False, se_is_validation = False\<rparr>"

text \<open>The checks of \<open>update_state\<close>: who may do what, on which revision, from which phase.\<close>

definition share_step ::
  "agent_type \<Rightarrow> int \<Rightarrow> string \<Rightarrow> string list \<Rightarrow> (board \<Rightarrow> board) \<Rightarrow> board \<Rightarrow> shared_error + board" where
  "share_step actor expected action changed h b =
     (case (dget action_phase action, dget action_actor action) of
        (Some next_phase, Some owner) \<Rightarrow>
          if actor \<noteq> owner \<or> \<not> set changed \<subseteq> set (write_fields actor) then Inl Access_denied
          else if bo_revision b \<noteq> expected then Inl State_conflict
          else if next_phase \<notin> set (phase_transitions (bo_phase b)) then Inl Access_denied
          else Inr ((h b)\<lparr>bo_phase := next_phase, bo_revision := bo_revision b + 1\<rparr>)
      | _ \<Rightarrow> Inl Access_denied)"

definition share ::
  "agent_type \<Rightarrow> string \<Rightarrow> string list \<Rightarrow> (board \<Rightarrow> board) \<Rightarrow> board act" where
  "share actor action changed h f =
     (case fl_board f of
        None \<Rightarrow> (Inl (shared_failure State_not_found), f)
      | Some b \<Rightarrow>
          (case share_step actor (fl_revision f) action changed h b of
             Inl e \<Rightarrow> (Inl (shared_failure e), f)
           | Inr b' \<Rightarrow> (Inr b', f\<lparr>fl_board := Some b', fl_revision := bo_revision b'\<rparr>)))"

definition view :: "board act" where
  "view f = (case fl_board f of None \<Rightarrow> (Inl (shared_failure State_not_found), f) | Some b \<Rightarrow> (Inr b, f))"

text \<open>\<open>setattr(preferences.weights, key, value)\<close> for every adjustment.\<close>

definition or_old :: "rat option \<Rightarrow> rat \<Rightarrow> rat" where
  "or_old x old = (case x of None \<Rightarrow> old | Some v \<Rightarrow> v)"

definition adjust_intent :: "soft_adjustments \<Rightarrow> workflow_intent \<Rightarrow> workflow_intent" where
  "adjust_intent a i =
     i\<lparr>in_preferences := (in_preferences i)\<lparr>pp_weights :=
        (let w = pp_weights (in_preferences i)
         in w\<lparr>w_travel_time := or_old (sa_travel_time a) (w_travel_time w),
              w_walking_time := or_old (sa_walking_time a) (w_walking_time w),
              w_distance := or_old (sa_distance a) (w_distance w),
              w_low_rating := or_old (sa_low_rating a) (w_low_rating w),
              w_uncertainty := or_old (sa_uncertainty a) (w_uncertainty w),
              w_monetary_cost := or_old (sa_monetary_cost a) (w_monetary_cost w)\<rparr>)\<rparr>\<rparr>"

definition adjusted :: "soft_adjustments option \<Rightarrow> workflow_intent \<Rightarrow> workflow_intent" where
  "adjusted a i = (case a of None \<Rightarrow> i | Some x \<Rightarrow> adjust_intent x i)"

section \<open>Trace and checkpoints\<close>

definition tc_update :: "(workflow_trace \<Rightarrow> workflow_trace) \<Rightarrow> flow \<Rightarrow> flow" where
  "tc_update h f = f\<lparr>fl_trace := h (fl_trace f)\<rparr>"

text \<open>\<open>_record\<close>: a step, a handoff and the cost, priced from the tokens when the agent gave none.\<close>

definition step_price :: "flow_settings \<Rightarrow> 'o outcome \<Rightarrow> rat" where
  "step_price S x =
     (if oc_cost x = 0 \<and> (oc_input_tokens x \<noteq> 0 \<or> oc_output_tokens x \<noteq> 0)
      then price_of (oc_input_tokens x) (oc_output_tokens x) (fs_input_price S) (fs_output_price S)
      else oc_cost x)"

definition record_step :: "flow_settings \<Rightarrow> 'o outcome \<Rightarrow> string option \<Rightarrow> unit act" where
  "record_step S x key =
     modify (tc_update (\<lambda>t. t\<lparr>tc_steps := tc_steps t @ [\<lparr>sx_key = key, sx_output = oc_artifact x, sx_payload = oc_payload x\<rparr>],
       tc_handoffs := tc_handoffs t + 1, tc_cost := tc_cost t + step_price S x\<rparr>))"

text \<open>The supervisor's own executions use no model; of their payload the outcome is kept.\<close>

definition own_step :: "string \<Rightarrow> payload \<Rightarrow> unit outcome" where
  "own_step artifact p =
     \<lparr>oc_output = (), oc_artifact = artifact, oc_payload = p, oc_input_tokens = 0, oc_output_tokens = 0, oc_cost = 0\<rparr>"

text \<open>\<open>checkpoint\<close>: with a store, the audit of the shared state is taken and the rows are written.\<close>

definition save_flow :: "team \<Rightarrow> flow \<Rightarrow> flow" where
  "save_flow E f =
     (case fl_store f of
        None \<Rightarrow> f
      | Some (run, db) \<Rightarrow>
          (let t = (fl_trace f)\<lparr>tc_shared := (if 0 \<le> fl_revision f then map_option (tm_audit E) (fl_board f)
                      else tc_shared (fl_trace f))\<rparr>
           in f\<lparr>fl_trace := t, fl_store := Some (run, checkpoint (tm_fr E) (tm_now E) run t db)\<rparr>))"

definition checkpoint_flow :: "team \<Rightarrow> unit act" where
  "checkpoint_flow E = modify (save_flow E)"

definition mark :: "string \<Rightarrow> node_status \<Rightarrow> bool \<Rightarrow> unit act" where
  "mark i st begins =
     modify (tc_update (\<lambda>t. t\<lparr>tc_plan := map_option (set_plan_status i st begins) (tc_plan t)\<rparr>))"


section \<open>The stages\<close>

definition mail_of ::
  "agent_endpoint \<Rightarrow> message_type \<Rightarrow> string \<Rightarrow> int \<Rightarrow> string \<Rightarrow> string option \<Rightarrow> string option \<Rightarrow> mail" where
  "mail_of sender t artifact revision hash digest search_digest =
     \<lparr>ml_sender = sender, ml_type = t, ml_artifact = artifact, ml_revision = revision, ml_hash = hash,
      ml_digest = digest, ml_search_digest = search_digest\<rparr>"

definition request_mail :: "agent_endpoint \<Rightarrow> mail" where
  "request_mail sender = mail_of sender Mt_command ''planning_request'' (- 1) [] None None"

definition new_board :: board where
  "new_board =
     \<lparr>bo_phase = Ph_initialized, bo_revision = 0, bo_requirement = None, bo_candidates = JArr [], bo_route = None,
      bo_evaluation = None, bo_adjustments = None, bo_context = []\<rparr>"

definition start_stage :: "team \<Rightarrow> flow_settings \<Rightarrow> unit act" where
  "start_stage E S =
     also_do (modify (\<lambda>f. f\<lparr>fl_board := Some new_board, fl_revision := 0\<rparr>)) (\<lambda>_.
     also_do (dispatch Ep_supervisor (request_mail Ep_user)) (\<lambda>_.
     also_do (consume Ep_supervisor [''planning_request'']) (\<lambda>_.
     also_do (dispatch Ep_intent (request_mail Ep_supervisor)) (\<lambda>_.
     also_do (record_step S (own_step ''workflow_control'' []) None) (\<lambda>_.
     checkpoint_flow E)))))"

definition understand_stage :: "team \<Rightarrow> flow_settings \<Rightarrow> (workflow_intent \<times> string list) act" where
  "understand_stage E S =
     also_do (consume Ep_intent [''planning_request'']) (\<lambda>_.
     also_do (lift (tm_intent E)) (\<lambda>x. case oc_output x of (intent, questions) \<Rightarrow>
     also_do (share Ag_intent ''intent_analyzed'' [''user_requirement'', ''clarification_questions'']
       (\<lambda>b. b\<lparr>bo_requirement := Some intent\<rparr>)) (\<lambda>b.
     also_do (dispatch Ep_supervisor (mail_of Ep_intent (if questions \<noteq> [] then Mt_result else Mt_artifact)
       ''intent_artifact'' (bo_revision b) (tm_hash E b) None None)) (\<lambda>_.
     also_do (record_step S x (Some ''intent'')) (\<lambda>_.
     also_do (checkpoint_flow E) (\<lambda>_. give (intent, questions)))))))"

text \<open>The references of a message must be those of the shared state as it is now.\<close>

definition fresh_view :: "team \<Rightarrow> mail \<Rightarrow> board act" where
  "fresh_view E m =
     also_do view (\<lambda>b.
     also_do (check (bo_revision b = ml_revision m) ''stale shared-state revision'') (\<lambda>_.
     also_do (check (tm_hash E b = ml_hash m) ''different shared-state hash'') (\<lambda>_. give b)))"

definition need_intent :: "board \<Rightarrow> workflow_intent act" where
  "need_intent b =
     (case bo_requirement b of None \<Rightarrow> raise (protocol_failure ''missing structured intent'') | Some i \<Rightarrow> give i)"

definition same_intent :: "team \<Rightarrow> workflow_intent \<Rightarrow> workflow_intent \<Rightarrow> unit act" where
  "same_intent E i j = check (tm_intent_digest E i = tm_intent_digest E j) ''input intent does not match workflow state''"

definition plan_next_stage :: "team \<Rightarrow> flow_settings \<Rightarrow> workflow_intent \<Rightarrow> unit act" where
  "plan_next_stage E S fallback =
     also_do (consume Ep_supervisor [''intent_artifact'']) (\<lambda>m.
     also_do (fresh_view E m) (\<lambda>b.
     also_do (need_intent b) (\<lambda>i.
     also_do (same_intent E i fallback) (\<lambda>_.
     also_do (modify (tc_update (\<lambda>t. t\<lparr>tc_plan := Some (build_execution_plan (tm_fold E) i (tc_mode t))\<rparr>))) (\<lambda>_.
     also_do (mark ''intent'' Nd_succeeded True) (\<lambda>_.
     also_do (look fl_revision) (\<lambda>rev.
     also_do (dispatch Ep_search (mail_of Ep_supervisor Mt_command ''intent_artifact'' rev (tm_hash E b) None None)) (\<lambda>_.
     also_do (record_step S (own_step ''workflow_control'' []) None) (\<lambda>_.
     checkpoint_flow E)))))))))"

definition validation_failure :: seen_exception where
  "validation_failure =
     \<lparr>se_text = ''AgentRecoveryDecision'', se_class = ''ValidationError'', se_is_timeout = False, se_is_validation = True\<rparr>"

definition decision_of :: "recovery_event \<Rightarrow> recovery_decision" where
  "decision_of e =
     recover_decision ''poi_search'' (stable_tool_error (rce_error e)) (rce_attempt e) (rce_max_attempts e)
       (rce_timeout e) (rce_available e) (rce_source e)"

definition recover_stage :: "team \<Rightarrow> flow_settings \<Rightarrow> recovery_event \<Rightarrow> recovery_decision act" where
  "recover_stage E S e =
     also_do (dispatch Ep_supervisor (mail_of Ep_system Mt_error ''recovery_event'' (- 1) [] None None)) (\<lambda>_.
     also_do (consume Ep_supervisor [''recovery_event'']) (\<lambda>_.
     also_do (if recovery_ok (decision_of e) then give () else raise validation_failure) (\<lambda>_.
     also_do (share Ag_supervisor (if rv_action (decision_of e) = Rc_fail then ''workflow_failed'' else ''recovery_applied'')
       [''execution_context''] (\<lambda>b. b\<lparr>bo_context := [(''last_recovery'', JStr (rv_stage (decision_of e)))]\<rparr>)) (\<lambda>_.
     also_do (record_step S (own_step ''workflow_control'' [(''workflow_state'', JStr ''recovery_applied'')]) None) (\<lambda>_.
     also_do (checkpoint_flow E) (\<lambda>_. give (decision_of e)))))))"

fun recover_all :: "team \<Rightarrow> flow_settings \<Rightarrow> recovery_event list \<Rightarrow> unit act" where
  "recover_all E S [] = give ()"
| "recover_all E S (e # es) = also_do (recover_stage E S e) (\<lambda>_. recover_all E S es)"

definition search_stage :: "team \<Rightarrow> flow_settings \<Rightarrow> workflow_intent \<Rightarrow> payload act" where
  "search_stage E S fallback =
     also_do (consume Ep_search [''intent_artifact'', ''retry_directive'']) (\<lambda>m.
     also_do (fresh_view E m) (\<lambda>b.
     also_do (need_intent b) (\<lambda>i0.
     also_do (same_intent E (adjusted (bo_adjustments b) i0) fallback) (\<lambda>_.
     also_do (check (tm_origin E) ''search context is missing the confirmed origin'') (\<lambda>_.
     case tm_search E (adjusted (bo_adjustments b) i0) of (recoveries, r) \<Rightarrow>
     also_do (recover_all E S recoveries) (\<lambda>_.
     also_do (lift r) (\<lambda>x.
     also_do (share Ag_search ''search_completed'' [''poi_candidates'']
       (\<lambda>b. b\<lparr>bo_candidates := obj_get (oc_output x) ''candidate_groups''\<rparr>)) (\<lambda>b'.
     also_do (look (\<lambda>f. safety_required (tc_plan (fl_trace f)))) (\<lambda>safe.
     also_do (dispatch (if safe then Ep_safety else Ep_planner) (mail_of Ep_search Mt_artifact ''search_artifact''
       (bo_revision b') (tm_hash E b') (Some (tm_digest E (JObj (oc_output x)))) None)) (\<lambda>_.
     also_do (record_step S x (Some ''search'')) (\<lambda>_. give (oc_output x))))))))))))"

definition weather_trace :: "payload \<Rightarrow> stage_trace" where
  "weather_trace summary = \<lparr>sg_key = ''weather'', sg_output = ''weather_evidence'', sg_summary = summary\<rparr>"

definition weather_stage :: "team \<Rightarrow> payload act" where
  "weather_stage E =
     also_do (check (tm_origin E) ''weather context is missing the confirmed origin'') (\<lambda>_.
     also_do (look (\<lambda>f. Option.bind (tc_plan (fl_trace f)) (find_step ''weather''))) (\<lambda>s.
     also_do (check (s \<noteq> None) ''weather task is not present in the Supervisor graph'') (\<lambda>_.
     case tm_weather E of
       Inl e \<Rightarrow> also_do (modify (tc_update (\<lambda>t. t\<lparr>tc_stages := tc_stages t
                 @ [weather_trace [(''error_code'', JStr (stable_tool_error e))]]\<rparr>))) (\<lambda>_. raise e)
     | Inr w \<Rightarrow> also_do (modify (tc_update (\<lambda>t. t\<lparr>tc_stages := tc_stages t @ [weather_trace w]\<rparr>))) (\<lambda>_. give w))))"

definition safety_stage :: "team \<Rightarrow> flow_settings \<Rightarrow> payload option \<Rightarrow> payload act" where
  "safety_stage E S weather =
     also_do (consume Ep_safety [''search_artifact'']) (\<lambda>m.
     also_do (fresh_view E m) (\<lambda>b.
     also_do (need_intent b) (\<lambda>i.
     let x = tm_safety E i (bo_candidates b) weather in
     also_do (share Ag_safety ''safety_checked'' [''execution_context'']
       (\<lambda>b. b\<lparr>bo_context := [(''safety_check'', JObj (oc_output x))]\<rparr>)) (\<lambda>b'.
     also_do (dispatch Ep_planner (mail_of Ep_safety Mt_artifact ''safety_report'' (bo_revision b') (tm_hash E b')
       (Some (tm_digest E (JObj (oc_output x)))) (ml_digest m))) (\<lambda>_.
     also_do (record_step S x (Some ''safety_check'')) (\<lambda>_. give (oc_output x)))))))"

text \<open>\<open>build_planning_context\<close>: its checks, and the views it joins.\<close>

definition build_planning_context ::
  "team \<Rightarrow> mail \<Rightarrow> workflow_intent \<Rightarrow> payload \<Rightarrow> payload option \<Rightarrow> planning_context act" where
  "build_planning_context E m fallback search weather =
     also_do (fresh_view E m) (\<lambda>b.
     also_do (need_intent b) (\<lambda>i0.
     let i = adjusted (bo_adjustments b) i0 in
     also_do (same_intent E i fallback) (\<lambda>_.
     also_do (check (tm_digest E (bo_candidates b) = tm_digest E (obj_get search ''candidate_groups''))
       ''planner candidates do not match search output'') (\<lambda>_.
     also_do (check ((case ml_search_digest m of None \<Rightarrow> ml_digest m | d \<Rightarrow> d) = Some (tm_digest E (JObj search)))
       ''planner search artifact hash does not match hand-off'') (\<lambda>_.
     give \<lparr>px_intent = i, px_search = search, px_safety = obj_get (bo_context b) ''safety_check'', px_weather = weather\<rparr>)))))"

definition may_run_critic :: "flow_settings \<Rightarrow> flow \<Rightarrow> bool" where
  "may_run_critic S f \<longleftrightarrow>
     tc_mode (fl_trace f) \<noteq> Mode_off \<and> tc_handoffs (fl_trace f) < fs_max_handoffs S
   \<and> tc_cost (fl_trace f) < fs_max_cost S"

definition planner_stage ::
  "team \<Rightarrow> flow_settings \<Rightarrow> workflow_intent \<Rightarrow> payload \<Rightarrow> payload option \<Rightarrow> plan_result act" where
  "planner_stage E S fallback search weather =
     also_do (consume Ep_planner [''search_artifact'', ''safety_report'']) (\<lambda>m.
     also_do view (\<lambda>_.
     also_do (check (tm_origin E) ''planner context is missing the confirmed origin'') (\<lambda>_.
     also_do (build_planning_context E m fallback search weather) (\<lambda>px.
     also_do (lift (tm_planner E px)) (\<lambda>x.
     also_do (share Ag_planner ''plan_completed'' [''route_plan'']
       (\<lambda>b. b\<lparr>bo_route := Some (dump_plan (oc_output x))\<rparr>)) (\<lambda>b'.
     also_do (look (\<lambda>f. ap_status (oc_output x) \<noteq> ''need_clarification'' \<and> may_run_critic S f)) (\<lambda>run_critic.
     also_do (dispatch (if run_critic then Ep_critic else Ep_supervisor)
       (mail_of Ep_planner (if run_critic then Mt_artifact else Mt_result) ''plan_candidate'' (bo_revision b') (tm_hash E b')
         (Some (tm_digest E (JObj (dump_plan (oc_output x))))) None)) (\<lambda>_.
     also_do (record_step S x (Some ''planner'')) (\<lambda>_. give (oc_output x))))))))))"


section \<open>Executing the graph\<close>

datatype stage_output =
    Out_intent workflow_intent | Out_search payload | Out_weather payload | Out_safety payload | Out_plan plan_result

fun plan_output :: "stage_output \<Rightarrow> plan_result option" where
  "plan_output (Out_plan r) = Some r"
| "plan_output _ = None"

definition search_output :: "stage_output option \<Rightarrow> payload option" where
  "search_output x = (case x of Some (Out_search s) \<Rightarrow> Some s | _ \<Rightarrow> None)"

definition weather_output :: "stage_output option \<Rightarrow> payload option" where
  "weather_output x = (case x of Some (Out_weather w) \<Rightarrow> Some w | _ \<Rightarrow> None)"

definition wrap :: "('a \<Rightarrow> stage_output) \<Rightarrow> 'a act \<Rightarrow> stage_output act" where
  "wrap c a = also_do a (\<lambda>x. give (c x))"

definition plan_step_stage ::
  "team \<Rightarrow> flow_settings \<Rightarrow> workflow_intent \<Rightarrow> (string, stage_output) dict \<Rightarrow> string \<Rightarrow> stage_output act" where
  "plan_step_stage E S intent outs i =
     (if i = ''search'' then wrap Out_search (search_stage E S intent)
      else if i = ''weather'' then wrap Out_weather (weather_stage E)
      else if i = ''safety_check'' then wrap Out_safety (safety_stage E S (weather_output (dget outs ''weather'')))
      else if i = ''planner''
      then (case search_output (dget outs ''search'') of
              None \<Rightarrow> raise (protocol_failure ''planner dependency search did not produce an artifact'')
            | Some s \<Rightarrow> wrap Out_plan (planner_stage E S intent s (weather_output (dget outs ''weather''))))
      else raise (protocol_failure ''unsupported Supervisor task graph node''))"

text \<open>
  Of the stages that are started together at most one touches the messages and the shared state
  (the weather only adds to the trace), so running them one after the other gives what
  \<open>asyncio.gather\<close> gives.
\<close>

fun run_ready :: "(string \<Rightarrow> stage_output act) \<Rightarrow> string list \<Rightarrow> flow \<Rightarrow> (string \<Rightarrow> seen_exception + stage_output) \<times> flow" where
  "run_ready stage [] f = (\<lambda>_. Inl (protocol_failure ''not started''), f)"
| "run_ready stage (i # ids) f =
     (case stage i f of (r, g) \<Rightarrow> (case run_ready stage ids g of (rs, h) \<Rightarrow> (rs(i := r), h)))"

definition with_plan :: "execution_plan \<Rightarrow> flow \<Rightarrow> flow" where
  "with_plan p = tc_update (\<lambda>t. t\<lparr>tc_plan := Some p\<rparr>)"

definition gather_stages ::
  "team \<Rightarrow> flow_settings \<Rightarrow> workflow_intent \<Rightarrow> (stage_output, flow) gather" where
  "gather_stages E S intent p ready outs f = run_ready (plan_step_stage E S intent outs) ready (with_plan p f)"

definition solve :: "team \<Rightarrow> flow_settings \<Rightarrow> workflow_intent \<Rightarrow> plan_result act" where
  "solve E S intent f =
     (case tc_plan (fl_trace f) of
        None \<Rightarrow> (Inl (protocol_failure ''Supervisor task graph has not been created''), f)
      | Some p \<Rightarrow>
          (case execute_planning_stages plan_output (gather_stages E S intent) (\<lambda>q. save_flow E \<circ> with_plan q)
                  (Out_intent intent) p f of
             (r, q, g) \<Rightarrow> (r, with_plan q g)))"

section \<open>Review and retry\<close>

text \<open>\<open>build_critic_context\<close>: its checks; the critic reads the plan.\<close>

definition build_critic_context :: "team \<Rightarrow> mail \<Rightarrow> payload \<Rightarrow> unit act" where
  "build_critic_context E m plan =
     also_do (fresh_view E m) (\<lambda>b.
     also_do (need_intent b) (\<lambda>_.
     also_do (check (case bo_route b of None \<Rightarrow> False | Some r \<Rightarrow> tm_digest E (JObj r) = tm_digest E (JObj plan))
       ''critic shared state does not match planner output'') (\<lambda>_.
     check (ml_digest m = Some (tm_digest E (JObj plan))) ''critic plan artifact hash does not match hand-off'')))"

definition review_stage :: "team \<Rightarrow> flow_settings \<Rightarrow> payload \<Rightarrow> review_report option act" where
  "review_stage E S plan =
     also_do (look (may_run_critic S)) (\<lambda>may.
     if \<not> may then also_do (mark ''critic'' Nd_skipped False) (\<lambda>_. also_do (checkpoint_flow E) (\<lambda>_. give None))
     else
       also_do (mark ''critic'' Nd_running True) (\<lambda>_.
       also_do (checkpoint_flow E) (\<lambda>_.
       also_do (consume Ep_critic [''plan_candidate'']) (\<lambda>m.
       also_do (build_critic_context E m plan) (\<lambda>_.
       case tm_critic E plan of
         Inl e \<Rightarrow> also_do (mark ''critic'' Nd_failed False) (\<lambda>_. also_do (checkpoint_flow E) (\<lambda>_. raise e))
       | Inr x \<Rightarrow>
           also_do (look (\<lambda>f. fs_max_cost S < tc_cost (fl_trace f) + oc_cost x)) (\<lambda>over.
           if over
           then also_do (modify (tc_update (\<lambda>t. t\<lparr>tc_status := ''budget_exceeded''\<rparr>))) (\<lambda>_.
                also_do (mark ''critic'' Nd_failed False) (\<lambda>_. also_do (checkpoint_flow E) (\<lambda>_. give None)))
           else
             also_do (share Ag_critic ''critic_reviewed'' [''evaluation_result'']
               (\<lambda>b. b\<lparr>bo_evaluation := Some (oc_output x)\<rparr>)) (\<lambda>b.
             also_do (dispatch Ep_supervisor (mail_of Ep_critic Mt_result ''review_report'' (bo_revision b) (tm_hash E b) None None)) (\<lambda>_.
             also_do (record_step S x (Some ''critic'')) (\<lambda>_.
             also_do (mark ''critic'' Nd_succeeded False) (\<lambda>_.
             also_do (checkpoint_flow E) (\<lambda>_. give (Some (oc_output x)))))))))))))"

definition retried_steps :: "string list" where
  "retried_steps = [''search'', ''weather'', ''safety_check'', ''planner'', ''critic'']"

definition mark_retrying :: "execution_plan \<Rightarrow> execution_plan" where
  "mark_retrying p =
     p\<lparr>xp_steps := map (\<lambda>s. if gs_id s \<in> set retried_steps \<and> gs_status s = Nd_succeeded
         then s\<lparr>gs_status := Nd_retrying\<rparr> else s) (xp_steps p)\<rparr>"

definition apply_soft_adjustments :: "team \<Rightarrow> workflow_intent \<Rightarrow> review_report \<Rightarrow> workflow_intent act" where
  "apply_soft_adjustments E intent review =
     (case rr_adjustments review of
        None \<Rightarrow> give intent
      | Some a \<Rightarrow>
          also_do (modify (tc_update (\<lambda>t. t\<lparr>tc_retries := tc_retries t + 1, tc_plan := map_option mark_retrying (tc_plan t)\<rparr>))) (\<lambda>_.
          also_do (consume Ep_supervisor [''review_report'']) (\<lambda>m.
          also_do view (\<lambda>b.
          also_do (check (bo_revision b = ml_revision m \<and> tm_hash E b = ml_hash m \<and> bo_evaluation b = Some review)
            ''supervisor review does not match shared state'') (\<lambda>_.
          also_do (share Ag_supervisor ''soft_retry_scheduled'' [''soft_adjustments''] (\<lambda>b. b\<lparr>bo_adjustments := Some a\<rparr>)) (\<lambda>b'.
          also_do (dispatch Ep_search (mail_of Ep_supervisor Mt_command ''retry_directive'' (bo_revision b') (tm_hash E b') None None)) (\<lambda>_.
          also_do (checkpoint_flow E) (\<lambda>_. give (adjust_intent a intent)))))))))"

definition retry_allowed :: "flow_settings \<Rightarrow> flow \<Rightarrow> bool" where
  "retry_allowed S f \<longleftrightarrow>
     tc_mode (fl_trace f) = Mode_enforce \<and> tc_retries (fl_trace f) < fs_max_retries S
   \<and> tc_handoffs (fl_trace f) < fs_max_handoffs S"

section \<open>The planning service\<close>

definition clarify :: "string list \<Rightarrow> plan_result \<Rightarrow> plan_result" where
  "clarify questions r =
     r\<lparr>ap_status := ''need_clarification'', ap_state := ''need_clarification'', ap_questions := questions\<rparr>"

definition enforce_review :: "review_report \<Rightarrow> plan_result \<Rightarrow> plan_result" where
  "enforce_review v r =
     (case rr_verdict v of
        Plan_needs_clarification \<Rightarrow> clarify [''critic_review''] r
      | Plan_approved_with_warnings \<Rightarrow>
          r\<lparr>ap_warnings := ap_warnings r @ map vf_code (filter (\<lambda>f. vf_severity f = Sev_warning) (rr_findings v))\<rparr>
      | Plan_retry \<Rightarrow> r\<lparr>ap_warnings := ap_warnings r @ [''soft_retry_limit'']\<rparr>
      | Plan_approved \<Rightarrow> r)"

definition walking_threshold :: "plan_result \<Rightarrow> rat" where
  "walking_threshold r =
     (let i = ap_intent r
      in if 0 < wi_elderly i \<or> 0 < wi_children i \<or> 0 < hc_wheelchair_users (in_hard i) \<or> hc_accessible (in_hard i)
            \<or> pp_minimize_walking (in_preferences i) \<or> pp_style (in_preferences i) = Relaxed
         then 6000 else 8000)"

definition needs_walking_confirmation :: "(string, bool) dict \<Rightarrow> plan_result \<Rightarrow> bool" where
  "needs_walking_confirmation confirmed r \<longleftrightarrow>
     in_mode (ap_intent r) = Some Walking \<and> hc_max_walking (in_hard (ap_intent r)) = None
   \<and> dget confirmed ''walking_distance'' \<noteq> Some True \<and> walking_threshold r \<le> ap_distance r"

definition estimated_plan_cost :: "plan_result \<Rightarrow> rat" where
  "estimated_plan_cost r = sum_list (map (\<lambda>c. case c of None \<Rightarrow> 0 | Some q \<Rightarrow> q) (ap_costs r))"

definition confirmation_questions :: "(string, bool) dict \<Rightarrow> plan_result \<Rightarrow> string list" where
  "confirmation_questions confirmed r =
     (if ap_status r \<noteq> ''success'' then []
      else take 2
        (only_if (needs_walking_confirmation confirmed r) ''human_confirmation.walking_distance''
       @ only_if (1000 \<le> estimated_plan_cost r \<and> hc_max_cost (in_hard (ap_intent r)) = None
           \<and> dget confirmed ''estimated_cost'' \<noteq> Some True) ''human_confirmation.estimated_cost''))"

definition confirm_plan :: "(string, bool) dict \<Rightarrow> plan_result \<Rightarrow> plan_result" where
  "confirm_plan confirmed r =
     (let qs = confirmation_questions confirmed r
      in if ap_status r = ''success'' \<and> qs \<noteq> []
         then (clarify qs r)\<lparr>ap_warnings := ap_warnings r @ [''human_confirmation'']\<rparr> else r)"

definition finalize_stage :: "team \<Rightarrow> flow_settings \<Rightarrow> plan_result \<Rightarrow> unit act" where
  "finalize_stage E S r =
     also_do (mark ''final_answer'' Nd_running True) (\<lambda>_.
     also_do (checkpoint_flow E) (\<lambda>_.
     also_do (modify (snd \<circ> pop_mail Ep_supervisor)) (\<lambda>_.
     also_do (share Ag_supervisor ''workflow_finalized'' [''execution_context'']
       (\<lambda>b. b\<lparr>bo_context := [(''status'', JStr (ap_status r)), (''planning_state'', JStr (ap_state r))]\<rparr>)) (\<lambda>b.
     also_do (dispatch Ep_final_answer (mail_of Ep_supervisor Mt_result ''final_answer'' (bo_revision b) (tm_hash E b) None None)) (\<lambda>_.
     also_do (record_step S (own_step ''workflow_control''
       [(''workflow_state'', JStr ''final_answer_ready''), (''status'', JStr (ap_status r))]) (Some ''final_answer'')) (\<lambda>_.
     also_do (mark ''final_answer'' Nd_succeeded False) (\<lambda>_.
     also_do (modify (tc_update (\<lambda>t. t\<lparr>tc_shared := Some (tm_audit E b)\<rparr>))) (\<lambda>_.
     checkpoint_flow E))))))))"

definition finish_flow :: "string \<Rightarrow> unit act" where
  "finish_flow st = modify (tc_update (\<lambda>t. if tc_status t = ''running'' then t\<lparr>tc_status := st\<rparr> else t))"

definition finalized :: "team \<Rightarrow> flow_settings \<Rightarrow> string \<Rightarrow> plan_result \<Rightarrow> plan_result act" where
  "finalized E S st r =
     also_do (finalize_stage E S r) (\<lambda>_. also_do (finish_flow st) (\<lambda>_. give r))"

definition question_result :: "workflow_intent \<Rightarrow> string list \<Rightarrow> plan_result" where
  "question_result intent questions =
     \<lparr>ap_status = ''need_clarification'', ap_state = ''need_clarification'', ap_intent = intent, ap_distance = 0,
      ap_costs = [], ap_questions = questions, ap_warnings = [], ap_review = None, ap_rest = []\<rparr>"

text \<open>What becomes of a plan and its review: the soft retry, and the policy of the mode.\<close>

definition after_review ::
  "team \<Rightarrow> flow_settings \<Rightarrow> workflow_intent \<Rightarrow> plan_result \<Rightarrow> review_report option \<Rightarrow> plan_result act" where
  "after_review E S intent r review =
     also_do (look (\<lambda>f. tc_mode (fl_trace f))) (\<lambda>mode.
     case review of
       None \<Rightarrow> give (if mode = Mode_enforce then clarify [''critic_review''] r else r)
     | Some v \<Rightarrow>
         also_do (look (retry_allowed S)) (\<lambda>allowed.
         also_do (if rr_verdict v = Plan_retry \<and> allowed
           then also_do (apply_soft_adjustments E intent v) (\<lambda>intent2.
                also_do (solve E S intent2) (\<lambda>r2.
                also_do (review_stage E S (dump_plan r2)) (\<lambda>second.
                give (case second of None \<Rightarrow> (r2, v) | Some v2 \<Rightarrow> (r2\<lparr>ap_review := Some v2\<rparr>, v2)))))
           else give (r\<lparr>ap_review := Some v\<rparr>, v)) (\<lambda>(r', v').
         give (if mode = Mode_enforce then enforce_review v' r' else r'))))"

definition plan_body :: "team \<Rightarrow> flow_settings \<Rightarrow> plan_result act" where
  "plan_body E S =
     also_do (start_stage E S) (\<lambda>_.
     also_do (understand_stage E S) (\<lambda>(intent, questions).
     if questions \<noteq> [] then finalized E S ''needs_clarification'' (question_result intent questions)
     else
       also_do (plan_next_stage E S intent) (\<lambda>_.
       also_do (solve E S intent) (\<lambda>r.
       if ap_status r = ''need_clarification'' then finalized E S ''needs_clarification'' r
       else
         also_do (review_stage E S (dump_plan r)) (\<lambda>review.
         also_do (after_review E S intent r review) (\<lambda>r1.
         let r2 = confirm_plan (tm_confirmed E) r1
         in finalized E S (ap_status r2) r2))))))"

text \<open>\<open>fail\<close>: the shared state is marked first; what it raises leaves the rows as they are.\<close>

definition fail_flow :: "team \<Rightarrow> seen_exception \<Rightarrow> unit act" where
  "fail_flow E e =
     also_do (look (\<lambda>f. fl_store f \<noteq> None)) (\<lambda>stored.
     if \<not> stored then give ()
     else
       also_do (look (\<lambda>f. 0 \<le> fl_revision f)) (\<lambda>begun.
       also_do (if begun
         then also_do (share Ag_supervisor ''workflow_failed'' [''execution_context'']
                (\<lambda>b. b\<lparr>bo_context := [(''status'', JStr ''failed''), (''error_code'', JStr (stable_tool_error e))]\<rparr>)) (\<lambda>b.
              modify (tc_update (\<lambda>t. t\<lparr>tc_shared := Some (tm_audit E b)\<rparr>)))
         else give ()) (\<lambda>_.
       modify (\<lambda>f. case fl_store f of
           None \<Rightarrow> f
         | Some (run, db) \<Rightarrow>
             (case fail_workflow (tm_fr E) (tm_now E) run (stable_tool_error e) (fl_trace f) db of
                (t, db') \<Rightarrow> f\<lparr>fl_trace := t, fl_store := Some (run, db')\<rparr>)))))"

definition plan_trip :: "team \<Rightarrow> flow_settings \<Rightarrow> plan_result act" where
  "plan_trip E S f =
     (case also_do (plan_body E S) (\<lambda>r. also_do (checkpoint_flow E) (\<lambda>_. give r)) f of
        (Inl e, g) \<Rightarrow> also_do (fail_flow E e) (\<lambda>_. raise e) g
      | (Inr r, g) \<Rightarrow> (Inr r, g\<lparr>fl_board := None\<rparr>))"

definition new_flow :: "workflow_mode \<Rightarrow> string \<Rightarrow> (int \<times> workflow_db) option \<Rightarrow> flow" where
  "new_flow mode task st =
     \<lparr>fl_trace = \<lparr>tc_mode = mode, tc_execution = Ex_sync, tc_task = task, tc_status = ''running'', tc_steps = [],
        tc_stages = [], tc_plan = None, tc_shared = None, tc_handoffs = 0, tc_retries = 0, tc_cost = 0,
        tc_workflow = map_option fst st\<rparr>,
      fl_pending = [], fl_revision = - 1, fl_board = None, fl_store = st\<rparr>"

end
