(* ===== verification/Planning_Facts.thy ===== *)
theory Planning_Facts
  imports Planning_Workflow Task_Graph_Properties
begin

text \<open>
  The stages of the planning workflow one by one: from a state in which the right message waits and
  the shared state is in the right phase, each stage whose agent answers ends normally and leaves the
  next message and phase.
\<close>

named_theorems flow_simps \<open>evaluation of actions on a state\<close>

section \<open>Evaluating actions\<close>

lemma act_simps [flow_simps]:
  "give x f = (Inr x, f)" "raise e f = (Inl e, f)" "modify h f = (Inr (), h f)" "look q f = (Inr (q f), f)"
  by (simp_all add: give_def raise_def modify_def look_def)

lemma check_simps [flow_simps]:
  "check True msg = give ()" "check False msg = raise (protocol_failure msg)"
  by (simp_all add: check_def)

lemma lift_simps [flow_simps]: "lift (Inr x) = give x" "lift (Inl e) = raise e"
  by (simp_all add: lift_def)

lemma also_do_give [flow_simps]: "also_do (give x) k f = k x f"
  by (simp add: also_do_def give_def)

lemma also_do_raise [flow_simps]: "also_do (raise e) k f = (Inl e, f)"
  by (simp add: also_do_def raise_def)

lemma also_do_modify [flow_simps]: "also_do (modify h) k f = k () (h f)"
  by (simp add: also_do_def modify_def)

lemma also_do_look [flow_simps]: "also_do (look q) k f = k (q f) f"
  by (simp add: also_do_def look_def)

lemma also_do_assoc [flow_simps]: "also_do (also_do a j) k f = also_do a (\<lambda>x. also_do (j x) k) f"
  by (simp add: also_do_def split: prod.splits sum.splits)

lemma also_do_Inr: "a f = (Inr x, g) \<Longrightarrow> also_do a k f = k x g"
  by (simp add: also_do_def)

lemma also_do_Inl: "a f = (Inl e, g) \<Longrightarrow> also_do a k f = (Inl e, g)"
  by (simp add: also_do_def)

lemma record_step_do [flow_simps]:
  "also_do (record_step S x key) k f = k () (tc_update (\<lambda>t. t\<lparr>tc_steps := tc_steps t
      @ [\<lparr>sx_key = key, sx_output = oc_artifact x, sx_payload = oc_payload x\<rparr>],
     tc_handoffs := tc_handoffs t + 1, tc_cost := tc_cost t + step_price S x\<rparr>) f)"
  by (simp add: record_step_def flow_simps)

lemma checkpoint_do [flow_simps]:
  "also_do (checkpoint_flow E) k f = k () (save_flow E f)" "checkpoint_flow E f = (Inr (), save_flow E f)"
  by (simp_all add: checkpoint_flow_def flow_simps)

lemma mark_do [flow_simps]:
  "also_do (mark i st b) k f = k () (tc_update (\<lambda>t. t\<lparr>tc_plan := map_option (set_plan_status i st b) (tc_plan t)\<rparr>) f)"
  by (simp add: mark_def flow_simps)

lemma tc_update_frame [simp]:
  "fl_pending (tc_update h f) = fl_pending f" "fl_board (tc_update h f) = fl_board f"
  "fl_revision (tc_update h f) = fl_revision f" "fl_store (tc_update h f) = fl_store f"
  "fl_trace (tc_update h f) = h (fl_trace f)"
  by (simp_all add: tc_update_def)

lemma save_frame [simp]:
  "fl_pending (save_flow E f) = fl_pending f" "fl_board (save_flow E f) = fl_board f"
  "fl_revision (save_flow E f) = fl_revision f"
  "tc_plan (fl_trace (save_flow E f)) = tc_plan (fl_trace f)" "tc_mode (fl_trace (save_flow E f)) = tc_mode (fl_trace f)"
  "tc_steps (fl_trace (save_flow E f)) = tc_steps (fl_trace f)" "tc_retries (fl_trace (save_flow E f)) = tc_retries (fl_trace f)"
  "tc_handoffs (fl_trace (save_flow E f)) = tc_handoffs (fl_trace f)" "tc_cost (fl_trace (save_flow E f)) = tc_cost (fl_trace f)"
  "fl_store (save_flow E f) = None \<longleftrightarrow> fl_store f = None"
  by (simp_all add: save_flow_def Let_def split: option.splits)

lemma with_plan_frame [simp]:
  "fl_pending (with_plan p f) = fl_pending f" "fl_board (with_plan p f) = fl_board f"
  "fl_revision (with_plan p f) = fl_revision f" "fl_trace (with_plan p f) = (fl_trace f)\<lparr>tc_plan := Some p\<rparr>"
  by (simp_all add: with_plan_def)

section \<open>Messages and the shared state\<close>

lemma open_routes [simp]:
  "route_open Ep_user Ep_supervisor Mt_command ''planning_request''"
  "route_open Ep_supervisor Ep_intent Mt_command ''planning_request''"
  "route_open Ep_intent Ep_supervisor Mt_artifact ''intent_artifact''"
  "route_open Ep_intent Ep_supervisor Mt_result ''intent_artifact''"
  "route_open Ep_supervisor Ep_search Mt_command ''intent_artifact''"
  "route_open Ep_supervisor Ep_search Mt_command ''retry_directive''"
  "route_open Ep_search Ep_planner Mt_artifact ''search_artifact''"
  "route_open Ep_search Ep_safety Mt_artifact ''search_artifact''"
  "route_open Ep_safety Ep_planner Mt_artifact ''safety_report''"
  "route_open Ep_planner Ep_critic Mt_artifact ''plan_candidate''"
  "route_open Ep_planner Ep_supervisor Mt_result ''plan_candidate''"
  "route_open Ep_critic Ep_supervisor Mt_result ''review_report''"
  "route_open Ep_system Ep_supervisor Mt_error ''recovery_event''"
  "route_open Ep_supervisor Ep_final_answer Mt_result ''final_answer''"
  by (simp_all add: route_open_def agent_routes_def mk_route_def)

lemma mail_of_simps [simp]:
  "ml_sender (mail_of s t a r h d q) = s" "ml_type (mail_of s t a r h d q) = t" "ml_artifact (mail_of s t a r h d q) = a"
  "ml_revision (mail_of s t a r h d q) = r" "ml_hash (mail_of s t a r h d q) = h"
  "ml_digest (mail_of s t a r h d q) = d" "ml_search_digest (mail_of s t a r h d q) = q"
  by (simp_all add: mail_of_def)

lemma dispatch_empty [flow_simps]:
  "fl_pending f = [] \<Longrightarrow> route_open (ml_sender m) ep (ml_type m) (ml_artifact m) \<Longrightarrow>
   also_do (dispatch ep m) k f = k m (f\<lparr>fl_pending := [(ep, [m])]\<rparr>)"
  by (simp add: dispatch_def flow_simps)

lemma consume_single [flow_simps]:
  "fl_pending f = [(ep, [m])] \<Longrightarrow> ml_artifact m \<in> set arts \<Longrightarrow>
   also_do (consume ep arts) k f = k m (f\<lparr>fl_pending := []\<rparr>)"
  by (simp add: also_do_def consume_def pop_mail_def)

lemma view_do [flow_simps]: "fl_board f = Some b \<Longrightarrow> also_do view k f = k b f"
  by (simp add: also_do_def view_def)

lemma fresh_view_do [flow_simps]:
  "fl_board f = Some b \<Longrightarrow> ml_revision m = bo_revision b \<Longrightarrow> ml_hash m = tm_hash E b \<Longrightarrow>
   also_do (fresh_view E m) k f = k b f"
  by (simp add: fresh_view_def flow_simps)

lemma need_intent_do [flow_simps]: "bo_requirement b = Some i \<Longrightarrow> also_do (need_intent b) k f = k i f"
  by (simp add: need_intent_def flow_simps)

lemma same_intent_do [flow_simps]:
  "tm_intent_digest E i = tm_intent_digest E j \<Longrightarrow> also_do (same_intent E i j) k f = k () f"
  by (simp add: same_intent_def flow_simps)

definition next_board :: "(board \<Rightarrow> board) \<Rightarrow> phase \<Rightarrow> board \<Rightarrow> board" where
  "next_board h ph b = (h b)\<lparr>bo_phase := ph, bo_revision := bo_revision b + 1\<rparr>"

lemma next_board_simps [simp]:
  "bo_phase (next_board h ph b) = ph" "bo_revision (next_board h ph b) = bo_revision b + 1"
  "bo_requirement (next_board h ph b) = bo_requirement (h b)" "bo_candidates (next_board h ph b) = bo_candidates (h b)"
  "bo_route (next_board h ph b) = bo_route (h b)" "bo_evaluation (next_board h ph b) = bo_evaluation (h b)"
  "bo_adjustments (next_board h ph b) = bo_adjustments (h b)" "bo_context (next_board h ph b) = bo_context (h b)"
  by (simp_all add: next_board_def)

lemma share_allowed:
  assumes "fl_board f = Some b" "fl_revision f = bo_revision b"
    and "dget action_phase action = Some ph" "dget action_actor action = Some actor"
    and "set changed \<subseteq> set (write_fields actor)" "ph \<in> set (phase_transitions (bo_phase b))"
  shows "also_do (share actor action changed h) k f
    = k (next_board h ph b) (f\<lparr>fl_board := Some (next_board h ph b), fl_revision := bo_revision b + 1\<rparr>)"
  using assms by (simp add: also_do_def share_def share_step_def next_board_def)

lemma actions [simp]:
  "dget action_phase ''intent_analyzed'' = Some Ph_intent_ready" "dget action_actor ''intent_analyzed'' = Some Ag_intent"
  "dget action_phase ''search_completed'' = Some Ph_search_ready" "dget action_actor ''search_completed'' = Some Ag_search"
  "dget action_phase ''safety_checked'' = Some Ph_safety_ready" "dget action_actor ''safety_checked'' = Some Ag_safety"
  "dget action_phase ''plan_completed'' = Some Ph_plan_ready" "dget action_actor ''plan_completed'' = Some Ag_planner"
  "dget action_phase ''critic_reviewed'' = Some Ph_reviewed" "dget action_actor ''critic_reviewed'' = Some Ag_critic"
  "dget action_phase ''soft_retry_scheduled'' = Some Ph_retrying" "dget action_actor ''soft_retry_scheduled'' = Some Ag_supervisor"
  "dget action_phase ''recovery_applied'' = Some Ph_retrying" "dget action_actor ''recovery_applied'' = Some Ag_supervisor"
  "dget action_phase ''workflow_finalized'' = Some Ph_finalized" "dget action_actor ''workflow_finalized'' = Some Ag_supervisor"
  "dget action_phase ''workflow_failed'' = Some Ph_failed" "dget action_actor ''workflow_failed'' = Some Ag_supervisor"
  by (simp_all add: action_phase_def action_actor_def)

text \<open>What waits where, over which shared state.\<close>

definition waits :: "agent_endpoint \<Rightarrow> mail \<Rightarrow> board \<Rightarrow> flow \<Rightarrow> bool" where
  "waits ep m b f \<longleftrightarrow> fl_pending f = [(ep, [m])] \<and> fl_board f = Some b \<and> fl_revision f = bo_revision b"

definition quiet :: "board \<Rightarrow> flow \<Rightarrow> bool" where
  "quiet b f \<longleftrightarrow> fl_pending f = [] \<and> fl_board f = Some b \<and> fl_revision f = bo_revision b"

definition refers :: "team \<Rightarrow> mail \<Rightarrow> board \<Rightarrow> bool" where
  "refers E m b \<longleftrightarrow> ml_revision m = bo_revision b \<and> ml_hash m = tm_hash E b"

text \<open>What a stage leaves as it was.\<close>

definition same_course :: "flow \<Rightarrow> flow \<Rightarrow> bool" where
  "same_course f g \<longleftrightarrow>
     tc_plan (fl_trace g) = tc_plan (fl_trace f) \<and> tc_mode (fl_trace g) = tc_mode (fl_trace f)
   \<and> tc_retries (fl_trace g) = tc_retries (fl_trace f)"

lemma same_course_trans: "same_course f g \<Longrightarrow> same_course g h \<Longrightarrow> same_course f h"
  by (simp add: same_course_def)

lemma same_course_refl [simp]: "same_course f f"
  by (simp add: same_course_def)

definition step_count :: "flow \<Rightarrow> nat" where
  "step_count f = length (tc_steps (fl_trace f))"

section \<open>The stages\<close>

lemma recover_action: "rv_action (decision_of e) \<noteq> Rc_fail"
  by (simp add: decision_of_def recover_decision_def recovery_choice_def split: prod.split)

lemma recover_ok:
  assumes "quiet b f" "recovery_ok (decision_of e)" "bo_phase b \<in> {Ph_intent_ready, Ph_retrying}"
  obtains b' g where "recover_stage E S e f = (Inr (decision_of e), g)" "quiet b' g" "bo_phase b' = Ph_retrying"
    "bo_requirement b' = bo_requirement b" "bo_adjustments b' = bo_adjustments b" "same_course f g"
    "step_count g = step_count f + 1"
proof -
  let ?h = "\<lambda>b. b\<lparr>bo_context := [(''last_recovery'', JStr (rv_stage (decision_of e)))]\<rparr>"
  have ph: "Ph_retrying \<in> set (phase_transitions (bo_phase b))" using assms(3) by auto
  obtain g where run: "recover_stage E S e f = (Inr (decision_of e), g)" and
    g: "fl_pending g = []" "fl_board g = Some (next_board ?h Ph_retrying b)" "fl_revision g = bo_revision b + 1"
      "same_course f g" "step_count g = step_count f + 1"
    using assms(1,2) ph recover_action [of e] unfolding recover_stage_def quiet_def same_course_def step_count_def
    by (simp add: flow_simps share_allowed)
  show ?thesis by (rule that [OF run, of "next_board ?h Ph_retrying b"]) (use g in \<open>simp_all add: quiet_def\<close>)
qed

lemma recover_all_ok:
  assumes "quiet b f" "list_all (\<lambda>e. recovery_ok (decision_of e)) es" "bo_phase b \<in> {Ph_intent_ready, Ph_retrying}"
  shows "\<exists>b' g. recover_all E S es f = (Inr (), g) \<and> quiet b' g \<and> bo_phase b' \<in> {Ph_intent_ready, Ph_retrying}
    \<and> bo_requirement b' = bo_requirement b \<and> bo_adjustments b' = bo_adjustments b \<and> same_course f g
    \<and> step_count g = step_count f + length es"
  using assms
proof (induction es arbitrary: b f)
  case Nil
  then show ?case by (auto simp: flow_simps)
next
  case (Cons e es)
  then obtain b1 f1 where one: "recover_stage E S e f = (Inr (decision_of e), f1)" "quiet b1 f1" "bo_phase b1 = Ph_retrying"
    "bo_requirement b1 = bo_requirement b" "bo_adjustments b1 = bo_adjustments b" "same_course f f1"
    "step_count f1 = step_count f + 1"
    by (auto elim!: recover_ok [of b f e])
  from Cons.IH [of b1 f1] one Cons.prems obtain b2 g where
    "recover_all E S es f1 = (Inr (), g)" "quiet b2 g" "bo_phase b2 \<in> {Ph_intent_ready, Ph_retrying}"
    "bo_requirement b2 = bo_requirement b1" "bo_adjustments b2 = bo_adjustments b1" "same_course f1 g"
    "step_count g = step_count f1 + length es"
    by auto
  then show ?case
    using one same_course_trans by (intro exI [of _ b2] exI [of _ g]) (auto simp: also_do_Inr)
qed

lemma start_ok:
  assumes "fl_pending f = []"
  shows "\<exists>g. start_stage E S f = (Inr (), g) \<and> waits Ep_intent (request_mail Ep_supervisor) new_board g \<and> same_course f g"
  using assms unfolding start_stage_def waits_def same_course_def
  by (simp add: flow_simps request_mail_def new_board_def)

lemma understand_ok:
  assumes "waits Ep_intent (request_mail Ep_supervisor) b f" "bo_phase b = Ph_initialized"
    "tm_intent E = Inr x" "oc_output x = (intent, questions)"
  shows "\<exists>m b' g. understand_stage E S f = (Inr (intent, questions), g) \<and> waits Ep_supervisor m b' g \<and> refers E m b'
    \<and> ml_artifact m = ''intent_artifact'' \<and> bo_phase b' = Ph_intent_ready \<and> bo_requirement b' = Some intent
    \<and> bo_adjustments b' = bo_adjustments b \<and> same_course f g"
proof -
  let ?h = "\<lambda>b. b\<lparr>bo_requirement := Some intent\<rparr>"
  let ?b = "next_board ?h Ph_intent_ready b"
  have sub: "set [''user_requirement'', ''clarification_questions''] \<subseteq> set (write_fields Ag_intent)" by simp
  show ?thesis
    using assms unfolding understand_stage_def waits_def refers_def same_course_def
    by (intro exI [of _ "mail_of Ep_intent (if questions \<noteq> [] then Mt_result else Mt_artifact)
       ''intent_artifact'' (bo_revision ?b) (tm_hash E ?b) None None"] exI [of _ ?b])
      (simp add: flow_simps share_allowed request_mail_def)
qed

lemma plan_next_ok:
  assumes "waits Ep_supervisor m b f" "refers E m b" "ml_artifact m = ''intent_artifact''" "bo_requirement b = Some intent"
  shows "\<exists>m' g. plan_next_stage E S intent f = (Inr (), g) \<and> waits Ep_search m' b g \<and> refers E m' b
    \<and> ml_artifact m' = ''intent_artifact'' \<and> tc_mode (fl_trace g) = tc_mode (fl_trace f)
    \<and> tc_plan (fl_trace g) = Some (set_plan_status ''intent'' Nd_succeeded True
         (build_execution_plan (tm_fold E) intent (tc_mode (fl_trace f))))
    \<and> tc_retries (fl_trace g) = tc_retries (fl_trace f)"
  using assms unfolding plan_next_stage_def waits_def refers_def
  by (intro exI [of _ "mail_of Ep_supervisor Mt_command ''intent_artifact'' (fl_revision f) (tm_hash E b) None None"])
    (simp add: flow_simps)

text \<open>The search hands over to the safety check when the graph has one, and to the planner otherwise.\<close>

lemma search_ok:
  assumes at: "waits Ep_search m b f" "refers E m b" "ml_artifact m \<in> set [''intent_artifact'', ''retry_directive'']"
    "bo_phase b \<in> {Ph_intent_ready, Ph_retrying}"
    and intent: "bo_requirement b = Some i0" "intent = adjusted (bo_adjustments b) i0" "tm_origin E"
    and found: "tm_search E intent = (recoveries, Inr x)" "list_all (\<lambda>e. recovery_ok (decision_of e)) recoveries"
  shows "\<exists>m' b' g. search_stage E S intent f = (Inr (oc_output x), g)
    \<and> waits (if safety_required (tc_plan (fl_trace f)) then Ep_safety else Ep_planner) m' b' g \<and> refers E m' b'
    \<and> ml_artifact m' = ''search_artifact'' \<and> ml_digest m' = Some (tm_digest E (JObj (oc_output x)))
    \<and> ml_search_digest m' = None \<and> bo_phase b' = Ph_search_ready \<and> bo_requirement b' = Some i0
    \<and> bo_adjustments b' = bo_adjustments b \<and> bo_candidates b' = obj_get (oc_output x) ''candidate_groups''
    \<and> same_course f g"
proof -
  let ?h = "\<lambda>b. b\<lparr>bo_candidates := obj_get (oc_output x) ''candidate_groups''\<rparr>"
  let ?f = "f\<lparr>fl_pending := []\<rparr>"
  have "quiet b ?f" using at(1) by (simp add: waits_def quiet_def)
  from recover_all_ok [OF this found(2) at(4)]
  obtain b1 f1 where rec: "recover_all E S recoveries ?f = (Inr (), f1)" "quiet b1 f1"
    "bo_phase b1 \<in> {Ph_intent_ready, Ph_retrying}" "bo_requirement b1 = bo_requirement b"
    "bo_adjustments b1 = bo_adjustments b" "same_course ?f f1"
    by blast
  let ?b = "next_board ?h Ph_search_ready b1"
  let ?m = "mail_of Ep_search Mt_artifact ''search_artifact'' (bo_revision ?b) (tm_hash E ?b)
     (Some (tm_digest E (JObj (oc_output x)))) None"
  have ph: "Ph_search_ready \<in> set (phase_transitions (bo_phase b1))" using rec(3) by auto
  have sub: "set [''poi_candidates''] \<subseteq> set (write_fields Ag_search)" by simp
  have board1: "fl_board f1 = Some b1" "fl_revision f1 = bo_revision b1" "fl_pending f1 = []"
    using rec(2) by (simp_all add: quiet_def)
  have plan1: "tc_plan (fl_trace f1) = tc_plan (fl_trace f)" using rec(6) by (simp add: same_course_def)
  have run: "search_stage E S intent f
      = also_do (recover_all E S recoveries) (\<lambda>_. also_do (lift (Inr x)) (\<lambda>x.
        also_do (share Ag_search ''search_completed'' [''poi_candidates'']
          (\<lambda>b. b\<lparr>bo_candidates := obj_get (oc_output x) ''candidate_groups''\<rparr>)) (\<lambda>b'.
        also_do (look (\<lambda>f. safety_required (tc_plan (fl_trace f)))) (\<lambda>safe.
        also_do (dispatch (if safe then Ep_safety else Ep_planner) (mail_of Ep_search Mt_artifact ''search_artifact''
          (bo_revision b') (tm_hash E b') (Some (tm_digest E (JObj (oc_output x)))) None)) (\<lambda>_.
        also_do (record_step S x (Some ''search'')) (\<lambda>_. give (oc_output x))))))) ?f"
    using at(1-3) intent found(1) unfolding search_stage_def waits_def refers_def by (simp add: flow_simps)
  have go: "also_do (recover_all E S recoveries) k ?f = k () f1" for k :: "unit \<Rightarrow> payload act"
    by (rule also_do_Inr) (rule rec(1))
  show ?thesis
    unfolding run go
    using board1 plan1 ph sub rec(4-6) intent(1)
    by (intro exI [of _ ?m] exI [of _ ?b])
      (simp add: flow_simps share_allowed waits_def refers_def same_course_def)
qed

lemma weather_ok:
  assumes "tm_origin E" "find_step ''weather'' p \<noteq> None" "tc_plan (fl_trace f) = Some p" "tm_weather E = Inr w"
  shows "weather_stage E f = (Inr w, tc_update (\<lambda>t. t\<lparr>tc_stages := tc_stages t @ [weather_trace w]\<rparr>) f)"
  using assms unfolding weather_stage_def by (auto simp add: flow_simps)

lemma safety_ok:
  assumes at: "waits Ep_safety m b f" "refers E m b" "ml_artifact m = ''search_artifact''" "bo_phase b = Ph_search_ready"
    and intent: "bo_requirement b = Some i0"
  shows "\<exists>m' b' g. safety_stage E S weather f = (Inr (oc_output (tm_safety E i0 (bo_candidates b) weather)), g)
    \<and> waits Ep_planner m' b' g \<and> refers E m' b' \<and> ml_artifact m' = ''safety_report''
    \<and> ml_search_digest m' = ml_digest m \<and> bo_phase b' = Ph_safety_ready \<and> bo_requirement b' = Some i0
    \<and> bo_adjustments b' = bo_adjustments b \<and> bo_candidates b' = bo_candidates b \<and> same_course f g"
proof -
  let ?x = "tm_safety E i0 (bo_candidates b) weather"
  let ?b = "next_board (\<lambda>b. b\<lparr>bo_context := [(''safety_check'', JObj (oc_output ?x))]\<rparr>) Ph_safety_ready b"
  let ?m = "mail_of Ep_safety Mt_artifact ''safety_report'' (bo_revision ?b) (tm_hash E ?b)
       (Some (tm_digest E (JObj (oc_output ?x)))) (ml_digest m)"
  show ?thesis
    using assms unfolding safety_stage_def Let_def waits_def refers_def same_course_def
    by (intro exI [of _ ?m] exI [of _ ?b]) (simp add: flow_simps share_allowed)
qed

text \<open>What waits after the planner: for the critic when it may still run, for the supervisor otherwise.\<close>

definition plan_waits :: "team \<Rightarrow> flow_settings \<Rightarrow> plan_result \<Rightarrow> board \<Rightarrow> flow \<Rightarrow> bool" where
  "plan_waits E S r b f \<longleftrightarrow>
     bo_phase b = Ph_plan_ready \<and> bo_route b = Some (dump_plan r)
   \<and> (\<exists>ep m. waits ep m b f \<and> refers E m b \<and> ml_artifact m = ''plan_candidate''
        \<and> ml_digest m = Some (tm_digest E (JObj (dump_plan r)))
        \<and> (ap_status r \<noteq> ''need_clarification'' \<longrightarrow> may_run_critic S f \<longrightarrow> ep = Ep_critic)
        \<and> (ap_status r = ''need_clarification'' \<longrightarrow> ep = Ep_supervisor))"

lemma planner_ok:
  assumes at: "waits Ep_planner m b f" "refers E m b" "ml_artifact m \<in> set [''search_artifact'', ''safety_report'']"
    "bo_phase b \<in> {Ph_search_ready, Ph_safety_ready}"
    and intent: "bo_requirement b = Some i0" "intent = adjusted (bo_adjustments b) i0" "tm_origin E"
    and search: "bo_candidates b = obj_get search ''candidate_groups''"
      "(case ml_search_digest m of None \<Rightarrow> ml_digest m | d \<Rightarrow> d) = Some (tm_digest E (JObj search))"
    and plan: "tm_planner E \<lparr>px_intent = intent, px_search = search,
      px_safety = obj_get (bo_context b) ''safety_check'', px_weather = weather\<rparr> = Inr x" "0 \<le> step_price S x"
  shows "\<exists>b' g. planner_stage E S intent search weather f = (Inr (oc_output x), g)
    \<and> plan_waits E S (oc_output x) b' g \<and> bo_requirement b' = Some i0 \<and> bo_adjustments b' = bo_adjustments b
    \<and> same_course f g"
proof -
  let ?r = "oc_output x"
  let ?b = "next_board (\<lambda>b. b\<lparr>bo_route := Some (dump_plan ?r)\<rparr>) Ph_plan_ready b"
  let ?critic = "ap_status ?r \<noteq> ''need_clarification'' \<and> may_run_critic S f"
  let ?m = "mail_of Ep_planner (if ?critic then Mt_artifact else Mt_result) ''plan_candidate'' (bo_revision ?b) (tm_hash E ?b)
         (Some (tm_digest E (JObj (dump_plan ?r)))) None"
  let ?ep = "if ?critic then Ep_critic else Ep_supervisor"
  let ?g = "tc_update (\<lambda>t. t\<lparr>tc_steps := tc_steps t
      @ [\<lparr>sx_key = Some ''planner'', sx_output = oc_artifact x, sx_payload = oc_payload x\<rparr>],
     tc_handoffs := tc_handoffs t + 1, tc_cost := tc_cost t + step_price S x\<rparr>)
     (f\<lparr>fl_pending := [(?ep, [?m])], fl_board := Some ?b, fl_revision := bo_revision b + 1\<rparr>)"
  have ph: "Ph_plan_ready \<in> set (phase_transitions (bo_phase b))" using at(4) by auto
  have may: "may_run_critic S (h\<lparr>fl_pending := p, fl_board := c, fl_revision := v\<rparr>) = may_run_critic S h" for h p c v
    by (simp add: may_run_critic_def)
  have run: "planner_stage E S intent search weather f = (Inr ?r, ?g)"
    using at(1-3) ph intent search plan(1)
    unfolding planner_stage_def build_planning_context_def Let_def waits_def refers_def
    by (simp add: flow_simps share_allowed may)
  have later: "may_run_critic S ?g \<Longrightarrow> may_run_critic S f"
    using plan(2) by (simp add: may_run_critic_def)
  have last: "ap_status ?r \<noteq> ''need_clarification'' \<longrightarrow> may_run_critic S ?g \<longrightarrow> ?ep = Ep_critic"
    using later by (intro impI) (subst if_P, auto)
  have asked: "ap_status ?r = ''need_clarification'' \<longrightarrow> ?ep = Ep_supervisor" by simp
  have wait: "waits ?ep ?m ?b ?g \<and> refers E ?m ?b \<and> ml_artifact ?m = ''plan_candidate''
      \<and> ml_digest ?m = Some (tm_digest E (JObj (dump_plan ?r)))" by (simp add: waits_def refers_def)
  have "bo_phase ?b = Ph_plan_ready \<and> bo_route ?b = Some (dump_plan ?r)" by simp
  then have "plan_waits E S ?r ?b ?g"
    unfolding plan_waits_def using wait last asked by blast
  then show ?thesis
    using run intent(1) by (intro exI [of _ ?b] exI [of _ ?g]) (simp add: same_course_def)
qed

text \<open>The graph may be marked, but its nodes and edges stay.\<close>

definition same_way :: "flow \<Rightarrow> flow \<Rightarrow> bool" where
  "same_way f g \<longleftrightarrow>
     map_option skeleton (tc_plan (fl_trace g)) = map_option skeleton (tc_plan (fl_trace f))
   \<and> tc_mode (fl_trace g) = tc_mode (fl_trace f) \<and> tc_retries (fl_trace g) = tc_retries (fl_trace f)"

lemma same_course_way: "same_course f g \<Longrightarrow> same_way f g"
  by (simp add: same_course_def same_way_def)

lemma same_way_trans: "same_way f g \<Longrightarrow> same_way g h \<Longrightarrow> same_way f h"
  by (simp add: same_way_def)

lemma skeleton_map_status [simp]: "map_option skeleton (map_option (set_plan_status i st b) p) = map_option skeleton p"
  by (cases p) simp_all

definition board_at :: "board \<Rightarrow> flow \<Rightarrow> bool" where
  "board_at b f \<longleftrightarrow> fl_board f = Some b \<and> fl_revision f = bo_revision b"

lemma waits_board: "waits ep m b f \<Longrightarrow> board_at b f"
  by (simp add: waits_def board_at_def)

lemma may_run_frame [simp]:
  "may_run_critic S (tc_update (\<lambda>t. t\<lparr>tc_plan := h t\<rparr>) f) = may_run_critic S f"
  "may_run_critic S (save_flow E f) = may_run_critic S f"
  "may_run_critic S (f\<lparr>fl_pending := q\<rparr>) = may_run_critic S f"
  by (simp_all add: may_run_critic_def)

text \<open>What waits after a review.\<close>

definition review_waits :: "team \<Rightarrow> review_report \<Rightarrow> board \<Rightarrow> flow \<Rightarrow> bool" where
  "review_waits E v b f \<longleftrightarrow>
     bo_phase b = Ph_reviewed \<and> bo_evaluation b = Some v
   \<and> (\<exists>m. waits Ep_supervisor m b f \<and> refers E m b \<and> ml_artifact m = ''review_report'')"

lemma review_skipped:
  assumes "board_at b f" "\<not> may_run_critic S f"
  shows "\<exists>g. review_stage E S plan f = (Inr None, g) \<and> board_at b g \<and> same_way f g"
  using assms unfolding review_stage_def board_at_def same_way_def by (simp add: flow_simps)

lemma review_ok:
  assumes at: "plan_waits E S r b f" and ok: "ap_status r \<noteq> ''need_clarification''" "may_run_critic S f"
    and intent: "bo_requirement b = Some i0" and critic: "tm_critic E (dump_plan r) = Inr x"
  shows "\<exists>g. (review_stage E S (dump_plan r) f = (Inr None, g) \<and> board_at b g
          \<and> fs_max_cost S < tc_cost (fl_trace f) + oc_cost x
        \<or> (\<exists>b'. review_stage E S (dump_plan r) f = (Inr (Some (oc_output x)), g) \<and> review_waits E (oc_output x) b' g
             \<and> bo_requirement b' = Some i0 \<and> bo_adjustments b' = bo_adjustments b)) \<and> same_way f g"
proof -
  obtain m where wait: "waits Ep_critic m b f" "refers E m b" "ml_artifact m = ''plan_candidate''"
      "ml_digest m = Some (tm_digest E (JObj (dump_plan r)))"
    and board: "bo_phase b = Ph_plan_ready" "bo_route b = Some (dump_plan r)"
    using at ok unfolding plan_waits_def by blast
  let ?p = "dump_plan r"
  let ?f = "(save_flow E (tc_update (\<lambda>t. t\<lparr>tc_plan := map_option (set_plan_status ''critic'' Nd_running True) (tc_plan t)\<rparr>) f))
      \<lparr>fl_pending := []\<rparr>"
  have run: "review_stage E S ?p f =
      also_do (look (\<lambda>f. fs_max_cost S < tc_cost (fl_trace f) + oc_cost x)) (\<lambda>over.
           if over
           then also_do (modify (tc_update (\<lambda>t. t\<lparr>tc_status := ''budget_exceeded''\<rparr>))) (\<lambda>_.
                also_do (mark ''critic'' Nd_failed False) (\<lambda>_. also_do (checkpoint_flow E) (\<lambda>_. give None)))
           else
             also_do (share Ag_critic ''critic_reviewed'' [''evaluation_result'']
               (\<lambda>b. b\<lparr>bo_evaluation := Some (oc_output x)\<rparr>)) (\<lambda>b.
             also_do (dispatch Ep_supervisor (mail_of Ep_critic Mt_result ''review_report'' (bo_revision b) (tm_hash E b) None None)) (\<lambda>_.
             also_do (record_step S x (Some ''critic'')) (\<lambda>_.
             also_do (mark ''critic'' Nd_succeeded False) (\<lambda>_.
             also_do (checkpoint_flow E) (\<lambda>_. give (Some (oc_output x)))))))) ?f"
    using wait ok(2) intent critic board
    unfolding review_stage_def build_critic_context_def waits_def refers_def by (simp add: flow_simps)
  show ?thesis
  proof (cases "fs_max_cost S < tc_cost (fl_trace f) + oc_cost x")
    case True
    then show ?thesis
      unfolding run using wait(1) by (simp add: flow_simps waits_def board_at_def same_way_def)
  next
    case False
    let ?b = "next_board (\<lambda>b. b\<lparr>bo_evaluation := Some (oc_output x)\<rparr>) Ph_reviewed b"
    let ?m = "mail_of Ep_critic Mt_result ''review_report'' (bo_revision ?b) (tm_hash E ?b) None None"
    have sub: "set [''evaluation_result''] \<subseteq> set (write_fields Ag_critic)" by simp
    show ?thesis
      unfolding run using False wait(1) board sub intent
      by (simp add: flow_simps share_allowed waits_def)
        (intro conjI exI [of _ ?b], simp_all add: review_waits_def waits_def refers_def same_way_def)
  qed
qed

lemma skeleton_mark_retrying [simp]: "skeleton (mark_retrying p) = skeleton p"
  by (simp add: skeleton_def mark_retrying_def comp_def if_distrib [of gs_id] if_distrib [of gs_depends] cong: if_cong)

lemma apply_soft_ok:
  assumes at: "review_waits E v b f" and adj: "rr_adjustments v = Some a" and req: "bo_requirement b = Some i0"
  shows "\<exists>m b' g. apply_soft_adjustments E intent v f = (Inr (adjust_intent a intent), g) \<and> waits Ep_search m b' g
    \<and> refers E m b' \<and> ml_artifact m = ''retry_directive'' \<and> bo_phase b' = Ph_retrying \<and> bo_requirement b' = Some i0
    \<and> bo_adjustments b' = Some a \<and> map_option skeleton (tc_plan (fl_trace g)) = map_option skeleton (tc_plan (fl_trace f))
    \<and> tc_mode (fl_trace g) = tc_mode (fl_trace f)"
proof -
  obtain m where wait: "waits Ep_supervisor m b f" "refers E m b" "ml_artifact m = ''review_report''"
    and board: "bo_phase b = Ph_reviewed" "bo_evaluation b = Some v"
    using at unfolding review_waits_def by blast
  let ?b = "next_board (\<lambda>b. b\<lparr>bo_adjustments := Some a\<rparr>) Ph_retrying b"
  let ?m = "mail_of Ep_supervisor Mt_command ''retry_directive'' (bo_revision ?b) (tm_hash E ?b) None None"
  have sub: "set [''soft_adjustments''] \<subseteq> set (write_fields Ag_supervisor)" by simp
  have skel: "map_option (skeleton \<circ> mark_retrying) p = map_option skeleton p" for p
    by (cases p) simp_all
  show ?thesis
    using wait board adj req sub unfolding apply_soft_adjustments_def waits_def refers_def
    by (intro exI [of _ ?m] exI [of _ ?b]) (simp add: flow_simps share_allowed option.map_comp skel)
qed

lemma dispatch_open [flow_simps]:
  "route_open (ml_sender m) ep (ml_type m) (ml_artifact m) \<Longrightarrow>
   also_do (dispatch ep m) k f = k m (f\<lparr>fl_pending :=
      dset ep ((case dget (fl_pending f) ep of None \<Rightarrow> [] | Some ms \<Rightarrow> ms) @ [m]) (fl_pending f)\<rparr>)"
  by (simp add: dispatch_def flow_simps)

lemma pop_frame [simp]:
  "fl_board (snd (pop_mail ep f)) = fl_board f" "fl_revision (snd (pop_mail ep f)) = fl_revision f"
  "fl_trace (snd (pop_mail ep f)) = fl_trace f"
  by (simp_all add: pop_mail_def split: option.split list.split)

text \<open>The last stage needs no message: it takes what waits for the supervisor, if anything does.\<close>

lemma finalize_ok:
  assumes "board_at b f" "bo_phase b \<in> {Ph_intent_ready, Ph_plan_ready, Ph_reviewed}"
  shows "\<exists>b' g. finalize_stage E S r f = (Inr (), g) \<and> board_at b' g \<and> bo_phase b' = Ph_finalized"
proof -
  have ph: "Ph_finalized \<in> set (phase_transitions (bo_phase b))" using assms(2) by auto
  have sub: "set [''execution_context''] \<subseteq> set (write_fields Ag_supervisor)" by simp
  show ?thesis
    using assms ph sub unfolding finalize_stage_def board_at_def by (simp add: flow_simps share_allowed comp_def)
qed

end
