(* ===== verification/Planning_Rounds.thy ===== *)
theory Planning_Rounds
  imports Planning_Facts
begin

text \<open>
  The rounds of the task graph when every stage answers: the search (with the weather), the safety
  check when the graph has it, and the planner. From them, the whole of \<open>execute_planning_stages\<close>.
\<close>

section \<open>One round\<close>

lemma settle_Inr:
  assumes "\<forall>i \<in> set ids. results i = Inr (out i)"
  shows "settle results ids (p, outs, None)
    = (set_all ids Nd_succeeded False p, fold (\<lambda>i. dset i (out i)) ids outs, None)"
  using assms by (induction ids arbitrary: p outs) (simp_all add: set_all_def)

definition after_round :: "string list \<Rightarrow> execution_plan \<Rightarrow> execution_plan" where
  "after_round ready p = set_all ready Nd_succeeded False (set_all ready Nd_running True p)"

lemma skeleton_after_round [simp]: "skeleton (after_round ready p) = skeleton p"
  by (simp add: after_round_def)

lemma round_ok:
  assumes "waiting \<noteq> []" "ready_steps p waiting finished = ready" "ready \<noteq> []"
    and "gather (set_all ready Nd_running True p) ready outs (save (set_all ready Nd_running True p) w) = (results, w2)"
    and "\<forall>i \<in> set ready. results i = Inr (out i)"
  shows "run_rounds gather save waiting finished outs p w
    = run_rounds gather save (filter (\<lambda>i. i \<notin> set ready) waiting) (finished @ ready)
        (fold (\<lambda>i. dset i (out i)) ready outs) (after_round ready p) (save (after_round ready p) w2)"
  using assms by (subst run_rounds.simps) (simp add: Let_def settle_Inr [OF assms(5)] after_round_def)

lemma rounds_over: "run_rounds gather save [] finished outs p w = (Inr outs, p, w)"
  by (simp add: run_rounds.simps)

section \<open>The graph of the planning stages\<close>

definition stage_graph :: "bool \<Rightarrow> bool \<Rightarrow> (string \<times> string list) list" where
  "stage_graph safe weather =
     (''search'', [''intent''])
   # only_if weather (''weather'', [''intent''])
   @ only_if safe (''safety_check'', [''intent'', ''search''] @ only_if weather ''weather'')
   @ [(''planner'', [''search''] @ only_if safe ''safety_check'' @ only_if (weather \<and> \<not> safe) ''weather'')]"

definition has_graph :: "bool \<Rightarrow> bool \<Rightarrow> execution_plan \<Rightarrow> bool" where
  "has_graph safe weather p \<longleftrightarrow>
     filter (\<lambda>(i, deps). i \<notin> set outside_subgraph) (skeleton p) = stage_graph safe weather"

lemma has_graph_skeleton: "skeleton q = skeleton p \<Longrightarrow> has_graph safe weather q = has_graph safe weather p"
  by (simp add: has_graph_def)

lemma plan_for_graph: "has_graph (reasons \<noteq> []) weather (plan_for reasons weather mode)"
  by (cases "reasons = []"; cases weather; cases mode)
    (simp_all add: has_graph_def stage_graph_def skeleton_def plan_for_def node_def outside_subgraph_def only_if_def Let_def)

lemma graph_ids:
  assumes "has_graph safe weather p"
  shows "map gs_id (subgraph p) = [''search''] @ only_if weather ''weather'' @ only_if safe ''safety_check'' @ [''planner'']"
proof -
  have "map gs_id (subgraph p) = map fst (filter (\<lambda>(i, deps). i \<notin> set outside_subgraph) (skeleton p))"
    unfolding subgraph_def skeleton_def by (rule map_filter_skeleton)
  then show ?thesis using assms by (simp add: has_graph_def stage_graph_def only_if_def)
qed

lemma graph_ready:
  assumes "has_graph safe weather p"
  shows "ready_steps p waiting finished =
     map fst (filter (\<lambda>(i, deps). i \<in> set waiting \<and> set deps \<subseteq> set finished) (stage_graph safe weather))"
  using assms by (simp add: ready_skeleton has_graph_def)

lemma in_graph:
  assumes "has_graph safe weather p"
  shows "''search'' \<in> set (map gs_id (xp_steps p))" "''planner'' \<in> set (map gs_id (xp_steps p))"
    "safety_required (Some p) \<longleftrightarrow> safe" "weather \<Longrightarrow> find_step ''weather'' p \<noteq> None"
proof -
  have sub: "set (map gs_id (subgraph p)) \<subseteq> set (map gs_id (xp_steps p))" by (auto simp: subgraph_def)
  then show "''search'' \<in> set (map gs_id (xp_steps p))" "''planner'' \<in> set (map gs_id (xp_steps p))"
    unfolding graph_ids [OF assms] by auto
  have eq: "(\<exists>s \<in> set (xp_steps p). gs_id s = i) \<longleftrightarrow> i \<in> set (map gs_id (subgraph p))"
    if "i \<notin> set outside_subgraph" for i
    using that by (force simp: subgraph_def)
  show "safety_required (Some p) \<longleftrightarrow> safe"
    using eq [of "''safety_check''"] unfolding graph_ids [OF assms]
    by (auto simp: safety_required_def list_ex_iff outside_subgraph_def only_if_def)
  show "weather \<Longrightarrow> find_step ''weather'' p \<noteq> None"
    using eq [of "''weather''"] unfolding graph_ids [OF assms]
    by (auto simp: find_step_def find_None_iff outside_subgraph_def only_if_def)
qed

section \<open>What the bookkeeping between stages leaves alone\<close>

definition same_mode :: "flow \<Rightarrow> flow \<Rightarrow> bool" where
  "same_mode f g \<longleftrightarrow> tc_mode (fl_trace g) = tc_mode (fl_trace f) \<and> tc_retries (fl_trace g) = tc_retries (fl_trace f)"

lemma same_mode_trans: "same_mode f g \<Longrightarrow> same_mode g h \<Longrightarrow> same_mode f h"
  by (simp add: same_mode_def)

lemma same_course_mode: "same_course f g \<Longrightarrow> same_mode f g"
  by (simp add: same_course_def same_mode_def)

lemma bookkeeping [simp]:
  "waits ep m b (save_flow E f) = waits ep m b f" "waits ep m b (with_plan p f) = waits ep m b f"
  "waits ep m b (tc_update h f) = waits ep m b f"
  "same_mode f (save_flow E g) = same_mode f g" "same_mode f (with_plan p g) = same_mode f g"
  "same_mode (save_flow E f) g = same_mode f g" "same_mode (with_plan p f) g = same_mode f g"
  "may_run_critic S (with_plan p f) = may_run_critic S f"
  by (simp_all add: waits_def same_mode_def may_run_critic_def)

lemma plan_waits_frame [simp]:
  "plan_waits E S r b (save_flow E' f) = plan_waits E S r b f"
  "plan_waits E S r b (with_plan p f) = plan_waits E S r b f"
  by (simp_all add: plan_waits_def)

section \<open>The rounds of this graph\<close>

text \<open>What the agents give for an intent.\<close>

definition agents_answer :: "team \<Rightarrow> flow_settings \<Rightarrow> bool \<Rightarrow> workflow_intent \<Rightarrow> bool" where
  "agents_answer E S weather intent \<longleftrightarrow>
     tm_origin E
   \<and> (\<exists>recoveries x. tm_search E intent = (recoveries, Inr x) \<and> list_all (\<lambda>e. recovery_ok (decision_of e)) recoveries)
   \<and> (weather \<longrightarrow> (\<exists>w. tm_weather E = Inr w))
   \<and> (\<forall>px. px_intent px = intent \<longrightarrow> (\<exists>x. tm_planner E px = Inr x \<and> 0 \<le> step_price S x))"

definition searched :: "team \<Rightarrow> bool \<Rightarrow> payload \<Rightarrow> workflow_intent \<Rightarrow> soft_adjustments option \<Rightarrow> mail \<Rightarrow> board \<Rightarrow> flow \<Rightarrow> bool" where
  "searched E safe s i0 adj m b f \<longleftrightarrow>
     waits (if safe then Ep_safety else Ep_planner) m b f \<and> refers E m b \<and> ml_artifact m = ''search_artifact''
   \<and> ml_digest m = Some (tm_digest E (JObj s)) \<and> ml_search_digest m = None \<and> bo_phase b = Ph_search_ready
   \<and> bo_requirement b = Some i0 \<and> bo_adjustments b = adj \<and> bo_candidates b = obj_get s ''candidate_groups''"

lemma searched_frame [simp]:
  "searched E safe s i0 adj m b (save_flow E' f) = searched E safe s i0 adj m b f"
  "searched E safe s i0 adj m b (with_plan p f) = searched E safe s i0 adj m b f"
  "searched E safe s i0 adj m b (tc_update h f) = searched E safe s i0 adj m b f"
  by (simp_all add: searched_def)

lemma search_round:
  assumes graph: "has_graph safe weather p"
    and at: "waits Ep_search m b w" "refers E m b" "ml_artifact m \<in> set [''intent_artifact'', ''retry_directive'']"
      "bo_phase b \<in> {Ph_intent_ready, Ph_retrying}"
    and intent: "bo_requirement b = Some i0" "intent = adjusted (bo_adjustments b) i0"
    and answer: "agents_answer E S weather intent"
  shows "\<exists>results w2 s wv m' b'.
    gather_stages E S intent p (''search'' # only_if weather ''weather'') outs w = (results, w2)
    \<and> results ''search'' = Inr (Out_search s) \<and> (weather \<longrightarrow> results ''weather'' = Inr (Out_weather wv))
    \<and> searched E safe s i0 (bo_adjustments b) m' b' w2 \<and> same_mode w w2"
proof -
  obtain recoveries x where found: "tm_search E intent = (recoveries, Inr x)"
      "list_all (\<lambda>e. recovery_ok (decision_of e)) recoveries"
    and origin: "tm_origin E" and sky: "weather \<longrightarrow> (\<exists>w. tm_weather E = Inr w)"
    using answer unfolding agents_answer_def by blast
  have "waits Ep_search m b (with_plan p w)" using at(1) by simp
  from search_ok [OF this at(2-4) intent origin found, of S] obtain m' b' g where
    run: "search_stage E S intent (with_plan p w) = (Inr (oc_output x), g)" and
    after: "searched E safe (oc_output x) i0 (bo_adjustments b) m' b' g" and course: "same_course (with_plan p w) g"
    using in_graph(3) [OF graph] by (auto simp: searched_def)
  have stage: "plan_step_stage E S intent outs ''search'' (with_plan p w) = (Inr (Out_search (oc_output x)), g)"
    using run by (simp add: plan_step_stage_def wrap_def also_do_Inr give_def)
  have mode: "same_mode w g" using same_course_mode [OF course] by simp
  show ?thesis
  proof (cases weather)
    case False
    then show ?thesis
      using stage after mode by (auto simp: gather_stages_def only_if_def)
  next
    case True
    obtain wv where wv: "tm_weather E = Inr wv" using sky True by blast
    have plan: "tc_plan (fl_trace g) = Some p" using course by (simp add: same_course_def)
    let ?h = "tc_update (\<lambda>t. t\<lparr>tc_stages := tc_stages t @ [weather_trace wv]\<rparr>) g"
    have "weather_stage E g = (Inr wv, ?h)"
      by (rule weather_ok [OF origin in_graph(4) [OF graph True] plan wv])
    then have stage2: "plan_step_stage E S intent outs ''weather'' g = (Inr (Out_weather wv), ?h)"
      by (simp add: plan_step_stage_def wrap_def also_do_Inr give_def)
    have "searched E safe (oc_output x) i0 (bo_adjustments b) m' b' ?h" "same_mode w ?h"
      using after mode by (simp_all add: same_mode_def)
    moreover have "gather_stages E S intent p (''search'' # only_if weather ''weather'') outs w
       = ((\<lambda>_. Inl (protocol_failure ''not started''))(''weather'' := Inr (Out_weather wv), ''search'' := Inr (Out_search (oc_output x))), ?h)"
      using True stage stage2 by (simp add: gather_stages_def only_if_def)
    ultimately show ?thesis
      by (intro exI [of _ "(\<lambda>_. Inl (protocol_failure ''not started''))(''weather'' := Inr (Out_weather wv), ''search'' := Inr (Out_search (oc_output x)))"]
        exI [of _ ?h] exI [of _ "oc_output x"] exI [of _ wv] exI [of _ m'] exI [of _ b']) simp
  qed
qed

text \<open>What the planner may start from: the search artifact itself, or the safety report on it.\<close>

definition plannable :: "team \<Rightarrow> payload \<Rightarrow> workflow_intent \<Rightarrow> soft_adjustments option \<Rightarrow> mail \<Rightarrow> board \<Rightarrow> flow \<Rightarrow> bool" where
  "plannable E s i0 adj m b f \<longleftrightarrow>
     waits Ep_planner m b f \<and> refers E m b \<and> ml_artifact m \<in> set [''search_artifact'', ''safety_report'']
   \<and> (case ml_search_digest m of None \<Rightarrow> ml_digest m | d \<Rightarrow> d) = Some (tm_digest E (JObj s))
   \<and> bo_phase b \<in> {Ph_search_ready, Ph_safety_ready}
   \<and> bo_requirement b = Some i0 \<and> bo_adjustments b = adj \<and> bo_candidates b = obj_get s ''candidate_groups''"

lemma plannable_frame [simp]:
  "plannable E s i0 adj m b (save_flow E' f) = plannable E s i0 adj m b f"
  "plannable E s i0 adj m b (with_plan p f) = plannable E s i0 adj m b f"
  by (simp_all add: plannable_def)

lemma searched_plannable: "searched E False s i0 adj m b f \<Longrightarrow> plannable E s i0 adj m b f"
  by (auto simp: searched_def plannable_def)

lemma safety_round:
  assumes "searched E True s i0 adj m b w"
  shows "\<exists>results w2 v m' b'. gather_stages E S intent p [''safety_check''] outs w = (results, w2)
    \<and> results ''safety_check'' = Inr v \<and> plannable E s i0 adj m' b' w2 \<and> same_mode w w2"
proof -
  have at: "waits Ep_safety m b (with_plan p w)" "refers E m b" "ml_artifact m = ''search_artifact''"
    "bo_phase b = Ph_search_ready" "bo_requirement b = Some i0"
    using assms by (simp_all add: searched_def)
  from safety_ok [OF at, of S "weather_output (dget outs ''weather'')"] obtain m' b' g where
    run: "safety_stage E S (weather_output (dget outs ''weather'')) (with_plan p w)
      = (Inr (oc_output (tm_safety E i0 (bo_candidates b) (weather_output (dget outs ''weather'')))), g)"
    and after: "waits Ep_planner m' b' g" "refers E m' b'" "ml_artifact m' = ''safety_report''"
      "ml_search_digest m' = ml_digest m" "bo_phase b' = Ph_safety_ready" "bo_requirement b' = Some i0"
      "bo_adjustments b' = bo_adjustments b" "bo_candidates b' = bo_candidates b"
    and course: "same_course (with_plan p w) g"
    by blast
  have "plannable E s i0 adj m' b' g" using after assms by (simp add: plannable_def searched_def)
  moreover have "same_mode w g" using same_course_mode [OF course] by simp
  moreover have "plan_step_stage E S intent outs ''safety_check'' (with_plan p w)
      = (Inr (Out_safety (oc_output (tm_safety E i0 (bo_candidates b) (weather_output (dget outs ''weather''))))), g)"
    using run by (simp add: plan_step_stage_def wrap_def also_do_Inr give_def)
  ultimately show ?thesis by (auto simp: gather_stages_def)
qed

lemma planner_round:
  assumes "plannable E s i0 adj m b w" "intent = adjusted adj i0" "agents_answer E S weather intent"
    "dget outs ''search'' = Some (Out_search s)"
  shows "\<exists>results w2 px x b'. gather_stages E S intent p [''planner''] outs w = (results, w2)
    \<and> results ''planner'' = Inr (Out_plan (oc_output x)) \<and> px_intent px = intent \<and> tm_planner E px = Inr x
    \<and> plan_waits E S (oc_output x) b' w2 \<and> bo_requirement b' = Some i0 \<and> bo_adjustments b' = adj \<and> same_mode w w2"
proof -
  let ?px = "\<lparr>px_intent = intent, px_search = s, px_safety = obj_get (bo_context b) ''safety_check'',
    px_weather = weather_output (dget outs ''weather'')\<rparr>"
  obtain x where x: "tm_planner E ?px = Inr x" "0 \<le> step_price S x" and origin: "tm_origin E"
    using assms(3) unfolding agents_answer_def by (metis planning_context.select_convs(1))
  have at: "waits Ep_planner m b (with_plan p w)" "refers E m b" "ml_artifact m \<in> set [''search_artifact'', ''safety_report'']"
    "bo_phase b \<in> {Ph_search_ready, Ph_safety_ready}" "bo_requirement b = Some i0" "intent = adjusted (bo_adjustments b) i0"
    "bo_candidates b = obj_get s ''candidate_groups''"
    "(case ml_search_digest m of None \<Rightarrow> ml_digest m | d \<Rightarrow> d) = Some (tm_digest E (JObj s))" "bo_adjustments b = adj"
    using assms(1,2) by (simp_all add: plannable_def)
  from planner_ok [OF at(1-6) origin at(7,8) x] obtain b' g where
    run: "planner_stage E S intent s (weather_output (dget outs ''weather'')) (with_plan p w) = (Inr (oc_output x), g)"
    and after: "plan_waits E S (oc_output x) b' g" "bo_requirement b' = Some i0" "bo_adjustments b' = adj"
    and course: "same_course (with_plan p w) g"
    using at(9) by blast
  have "plan_step_stage E S intent outs ''planner'' (with_plan p w) = (Inr (Out_plan (oc_output x)), g)"
    using run assms(4) by (simp add: plan_step_stage_def wrap_def search_output_def also_do_Inr give_def)
  moreover have "same_mode w g" using same_course_mode [OF course] by simp
  ultimately show ?thesis using after x(1)
    by (intro exI [of _ "(\<lambda>_. Inl (protocol_failure ''not started''))(''planner'' := Inr (Out_plan (oc_output x)))"] exI [of _ g]
       exI [of _ ?px] exI [of _ x] exI [of _ b']) (simp add: gather_stages_def)
qed

section \<open>All rounds\<close>

text \<open>What a completed execution of the stages leaves.\<close>

definition solved ::
  "team \<Rightarrow> flow_settings \<Rightarrow> workflow_intent \<Rightarrow> workflow_intent \<Rightarrow> soft_adjustments option \<Rightarrow> flow \<Rightarrow> plan_result \<Rightarrow> flow \<Rightarrow> bool" where
  "solved E S intent i0 adj f r g \<longleftrightarrow>
     (\<exists>px x b. r = oc_output x \<and> px_intent px = intent \<and> tm_planner E px = Inr x
        \<and> plan_waits E S r b g \<and> bo_requirement b = Some i0 \<and> bo_adjustments b = adj)
   \<and> same_mode f g"

abbreviation rounds where
  "rounds E S intent \<equiv> run_rounds (gather_stages E S intent) (\<lambda>q. save_flow E \<circ> with_plan q)"

definition rounds_solve where
  "rounds_solve E S intent i0 adj waiting finished outs p w \<longleftrightarrow>
     (\<exists>outs' q g r. rounds E S intent waiting finished outs p w = (Inr outs', q, g)
       \<and> dget outs' ''planner'' = Some (Out_plan r) \<and> skeleton q = skeleton p \<and> solved E S intent i0 adj w r g)"

lemma solved_from: "solved E S intent i0 adj w' r g \<Longrightarrow> same_mode w w' \<Longrightarrow> solved E S intent i0 adj w r g"
  unfolding solved_def using same_mode_trans by blast

lemma rounds_solve_step:
  assumes "rounds E S intent waiting finished outs p w = rounds E S intent waiting' finished' outs' p' w'"
    "rounds_solve E S intent i0 adj waiting' finished' outs' p' w'" "skeleton p' = skeleton p" "same_mode w w'"
  shows "rounds_solve E S intent i0 adj waiting finished outs p w"
  using assms solved_from [OF _ assms(4)] unfolding rounds_solve_def assms(1) assms(3) by blast

lemma planner_last:
  assumes graph: "has_graph safe weather p" and deps: "set (map fst (stage_graph safe weather)) \<subseteq> insert ''planner'' (set finished)"
    and at: "plannable E s i0 adj m b w" "intent = adjusted adj i0" "agents_answer E S weather intent"
      "dget outs ''search'' = Some (Out_search s)"
  shows "rounds_solve E S intent i0 adj [''planner''] finished outs p w"
proof -
  let ?p = "set_all [''planner''] Nd_running True p" and ?save = "\<lambda>q. save_flow E \<circ> with_plan q"
  have "plannable E s i0 adj m b (?save ?p w)" using at(1) by simp
  from planner_round [OF this at(2-4), of ?p] obtain results w2 px x b' where
    run: "gather_stages E S intent ?p [''planner''] outs (?save ?p w) = (results, w2)"
      "results ''planner'' = Inr (Out_plan (oc_output x))"
    and after: "px_intent px = intent" "tm_planner E px = Inr x" "plan_waits E S (oc_output x) b' w2"
      "bo_requirement b' = Some i0" "bo_adjustments b' = adj" "same_mode (?save ?p w) w2"
    by blast
  have ready: "ready_steps p [''planner''] finished = [''planner'']"
    using deps unfolding graph_ready [OF graph] by (auto simp: stage_graph_def only_if_def)
  have "rounds E S intent [''planner''] finished outs p w
      = rounds E S intent [] (finished @ [''planner'']) (dset ''planner'' (Out_plan (oc_output x)) outs)
          (after_round [''planner''] p) (?save (after_round [''planner''] p) w2)"
    using run ready
    by (subst round_ok [where ready = "[''planner'']" and out = "\<lambda>_. Out_plan (oc_output x)" and results = results and ?w2.0 = w2])
      simp_all
  then show ?thesis
    using after unfolding rounds_solve_def solved_def rounds_over by auto
qed

lemma safety_planner:
  assumes graph: "has_graph True weather p" and deps: "finished = [''intent'', ''search''] @ only_if weather ''weather''"
    and at: "searched E True s i0 adj m b w" "intent = adjusted adj i0" "agents_answer E S weather intent"
      "dget outs ''search'' = Some (Out_search s)"
  shows "rounds_solve E S intent i0 adj [''safety_check'', ''planner''] finished outs p w"
proof -
  let ?p = "set_all [''safety_check''] Nd_running True p" and ?save = "\<lambda>q. save_flow E \<circ> with_plan q"
  let ?q = "after_round [''safety_check''] p"
  have "searched E True s i0 adj m b (?save ?p w)" using at(1) by simp
  from safety_round [OF this, of S intent ?p outs] obtain results w2 v m' b' where
    run: "gather_stages E S intent ?p [''safety_check''] outs (?save ?p w) = (results, w2)" "results ''safety_check'' = Inr v"
    and after: "plannable E s i0 adj m' b' w2" "same_mode (?save ?p w) w2"
    by blast
  have ready: "ready_steps p [''safety_check'', ''planner''] finished = [''safety_check'']"
    using deps unfolding graph_ready [OF graph] by (auto simp: stage_graph_def only_if_def)
  have step: "rounds E S intent [''safety_check'', ''planner''] finished outs p w
      = rounds E S intent [''planner''] (finished @ [''safety_check'']) (dset ''safety_check'' v outs) ?q (?save ?q w2)"
    using run ready
    by (subst round_ok [where ready = "[''safety_check'']" and out = "\<lambda>_. v" and results = results and ?w2.0 = w2]) simp_all
  have "rounds_solve E S intent i0 adj [''planner''] (finished @ [''safety_check'']) (dset ''safety_check'' v outs) ?q (?save ?q w2)"
  proof (rule planner_last)
    show "has_graph True weather ?q" using graph has_graph_skeleton [OF skeleton_after_round] by simp
    show "set (map fst (stage_graph True weather)) \<subseteq> insert ''planner'' (set (finished @ [''safety_check'']))"
      using deps by (auto simp: stage_graph_def only_if_def)
    show "plannable E s i0 adj m' b' (?save ?q w2)" using after(1) by simp
    show "dget (dset ''safety_check'' v outs) ''search'' = Some (Out_search s)" using at(4) by simp
  qed (rule at)+
  then show ?thesis by (rule rounds_solve_step [OF step]) (use after(2) in simp_all)
qed

lemma search_first:
  assumes graph: "has_graph safe weather p"
    and at: "waits Ep_search m b w" "refers E m b" "ml_artifact m \<in> set [''intent_artifact'', ''retry_directive'']"
      "bo_phase b \<in> {Ph_intent_ready, Ph_retrying}"
    and intent: "bo_requirement b = Some i0" "intent = adjusted (bo_adjustments b) i0"
    and answer: "agents_answer E S weather intent"
  shows "rounds_solve E S intent i0 (bo_adjustments b) (map gs_id (subgraph p)) [''intent''] outs p w"
proof -
  let ?ready = "''search'' # only_if weather ''weather''"
  let ?p = "set_all ?ready Nd_running True p" and ?save = "\<lambda>q. save_flow E \<circ> with_plan q"
  let ?q = "after_round ?ready p"
  have gp: "has_graph safe weather ?p" using graph has_graph_skeleton [OF skeleton_set_all] by simp
  have "waits Ep_search m b (?save ?p w)" using at(1) by simp
  from search_round [OF gp this at(2-4) intent answer, of outs] obtain results w2 s wv m' b' where
    run: "gather_stages E S intent ?p ?ready outs (?save ?p w) = (results, w2)"
      "results ''search'' = Inr (Out_search s)" "weather \<longrightarrow> results ''weather'' = Inr (Out_weather wv)"
    and after: "searched E safe s i0 (bo_adjustments b) m' b' w2" "same_mode (?save ?p w) w2"
    by blast
  let ?out = "\<lambda>i. if i = ''search'' then Out_search s else Out_weather wv"
  let ?outs = "fold (\<lambda>i. dset i (?out i)) ?ready outs"
  have ready: "ready_steps p (map gs_id (subgraph p)) [''intent''] = ?ready"
    unfolding graph_ready [OF graph] graph_ids [OF graph] by (auto simp: stage_graph_def only_if_def)
  have rest: "filter (\<lambda>i. i \<notin> set ?ready) (map gs_id (subgraph p)) = only_if safe ''safety_check'' @ [''planner'']"
    unfolding graph_ids [OF graph] by (auto simp: only_if_def)
  have step: "rounds E S intent (map gs_id (subgraph p)) [''intent''] outs p w
      = rounds E S intent (only_if safe ''safety_check'' @ [''planner'']) ([''intent''] @ ?ready) ?outs ?q (?save ?q w2)"
    unfolding rest [symmetric]
  proof (rule round_ok)
    show "map gs_id (subgraph p) \<noteq> []" unfolding graph_ids [OF graph] by simp
    show "ready_steps p (map gs_id (subgraph p)) [''intent''] = ?ready" by (rule ready)
    show "?ready \<noteq> []" by simp
    show "gather_stages E S intent ?p ?ready outs (?save ?p w) = (results, w2)" by (rule run(1))
    show "\<forall>i \<in> set ?ready. results i = Inr (?out i)" using run(2,3) by (auto simp: only_if_def)
  qed
  have gq: "has_graph safe weather ?q" using graph has_graph_skeleton [OF skeleton_after_round] by simp
  have out: "dget ?outs ''search'' = Some (Out_search s)" by (simp add: only_if_def)
  have found: "searched E safe s i0 (bo_adjustments b) m' b' (?save ?q w2)" using after(1) by simp
  have "rounds_solve E S intent i0 (bo_adjustments b) (only_if safe ''safety_check'' @ [''planner''])
      ([''intent''] @ ?ready) ?outs ?q (?save ?q w2)"
  proof (cases safe)
    case True
    have "rounds_solve E S intent i0 (bo_adjustments b) [''safety_check'', ''planner''] ([''intent''] @ ?ready) ?outs ?q (?save ?q w2)"
      by (rule safety_planner [where weather = weather and s = s and m = m' and b = b'])
        (use True gq found out intent(2) answer in simp_all)
    then show ?thesis using True by (simp add: only_if_def)
  next
    case False
    have "rounds_solve E S intent i0 (bo_adjustments b) [''planner''] ([''intent''] @ ?ready) ?outs ?q (?save ?q w2)"
      by (rule planner_last [where safe = False and weather = weather and s = s and m = m' and b = b'])
        (use False gq found out intent(2) answer in \<open>auto simp: searched_plannable stage_graph_def only_if_def\<close>)
    then show ?thesis using False by (simp add: only_if_def)
  qed
  then show ?thesis by (rule rounds_solve_step [OF step]) (use after(2) in simp_all)
qed

text \<open>The whole of \<open>execute_planning_stages\<close>, on any graph of these nodes.\<close>

lemma solve_ok:
  assumes graph: "tc_plan (fl_trace f) = Some p" "has_graph safe weather p"
    and at: "waits Ep_search m b f" "refers E m b" "ml_artifact m \<in> set [''intent_artifact'', ''retry_directive'']"
      "bo_phase b \<in> {Ph_intent_ready, Ph_retrying}"
    and intent: "bo_requirement b = Some i0" "intent = adjusted (bo_adjustments b) i0"
    and answer: "agents_answer E S weather intent"
  shows "\<exists>r g. solve E S intent f = (Inr r, g) \<and> solved E S intent i0 (bo_adjustments b) f r g
    \<and> map_option skeleton (tc_plan (fl_trace g)) = Some (skeleton p)"
proof -
  let ?p = "reset_subgraph p" and ?save = "\<lambda>q. save_flow E \<circ> with_plan q"
  have graph1: "has_graph safe weather ?p" using graph(2) has_graph_skeleton [OF skeleton_reset] by simp
  have "waits Ep_search m b (?save ?p f)" using at(1) by simp
  from search_first [OF graph1 this at(2-4) intent answer, of "[(''intent'', Out_intent intent)]"]
  obtain outs' q g r where
    run: "rounds E S intent (map gs_id (subgraph ?p)) [''intent''] [(''intent'', Out_intent intent)] ?p (?save ?p f) = (Inr outs', q, g)"
      "dget outs' ''planner'' = Some (Out_plan r)" "skeleton q = skeleton ?p"
    and out: "solved E S intent i0 (bo_adjustments b) (?save ?p f) r g"
    unfolding rounds_solve_def by blast
  have "execute_planning_stages plan_output (gather_stages E S intent) ?save (Out_intent intent) p f = (Inr r, q, g)"
    using run in_graph(1,2) [OF graph(2)] unfolding execute_planning_stages_def Let_def by simp
  then have "solve E S intent f = (Inr r, with_plan q g)" using graph(1) by (simp add: solve_def)
  moreover have "solved E S intent i0 (bo_adjustments b) f r (with_plan q g)"
    using out unfolding solved_def by simp
  ultimately show ?thesis using run(3) by simp
qed

end
