(* ===== verification/Planning_Outcomes.thy ===== *)
theory Planning_Outcomes
  imports Planning_Rounds
begin

text \<open>
  The planning service on top of the stages: the review and the soft retry, the final answer, and
  what no stage changes.
\<close>

section \<open>The review and its retry\<close>

lemma finalized_ok:
  assumes "board_at b f" "bo_phase b \<in> {Ph_intent_ready, Ph_plan_ready, Ph_reviewed}"
  shows "\<exists>g. finalized E S st r f = (Inr r, g)"
proof -
  from finalize_ok [OF assms] obtain g where "finalize_stage E S r f = (Inr (), g)" by blast
  then show ?thesis
    unfolding finalized_def finish_flow_def by (simp add: also_do_Inr flow_simps)
qed

lemma plan_waits_board: "plan_waits E S r b f \<Longrightarrow> board_at b f \<and> bo_phase b = Ph_plan_ready"
  by (auto simp: plan_waits_def waits_def board_at_def)

lemma review_waits_board: "review_waits E v b f \<Longrightarrow> board_at b f \<and> bo_phase b = Ph_reviewed"
  by (auto simp: review_waits_def waits_def board_at_def)

text \<open>A board from which the workflow can be finalized.\<close>

definition can_finish :: "flow \<Rightarrow> bool" where
  "can_finish f \<longleftrightarrow> (\<exists>b. board_at b f \<and> bo_phase b \<in> {Ph_intent_ready, Ph_plan_ready, Ph_reviewed})"

lemma finish_ok: "can_finish f \<Longrightarrow> \<exists>g. finalized E S st r f = (Inr r, g)"
  unfolding can_finish_def using finalized_ok by blast

definition critic_answers :: "team \<Rightarrow> bool" where
  "critic_answers E \<longleftrightarrow> (\<forall>plan. \<exists>x. tm_critic E plan = Inr x \<and> retry_boundary_ok (oc_output x))"

lemma critic_plan: "critic_answers E \<Longrightarrow> \<exists>x. tm_critic E plan = Inr x \<and> retry_boundary_ok (oc_output x)"
  unfolding critic_answers_def by blast

lemma review_answers:
  assumes at: "plan_waits E S r b f" and ok: "ap_status r \<noteq> ''need_clarification''"
    and intent: "bo_requirement b = Some i0" and critic: "critic_answers E"
  obtains g where "review_stage E S (dump_plan r) f = (Inr None, g)" "can_finish g" "same_way f g"
  | v b' g where "review_stage E S (dump_plan r) f = (Inr (Some v), g)" "review_waits E v b' g" "can_finish g"
      "bo_requirement b' = Some i0" "retry_boundary_ok v" "same_way f g"
proof (cases "may_run_critic S f")
  case False
  have "board_at b f" using plan_waits_board [OF at] by simp
  from review_skipped [OF this False] obtain g where
    g: "review_stage E S (dump_plan r) f = (Inr None, g)" "board_at b g" "same_way f g" by blast
  have "can_finish g" using g(2) plan_waits_board [OF at] unfolding can_finish_def by blast
  then show ?thesis using g that(1) by blast
next
  case True
  obtain x where x: "tm_critic E (dump_plan r) = Inr x" "retry_boundary_ok (oc_output x)"
    using critic_plan [OF critic] by blast
  from review_ok [OF at ok True intent x(1)] obtain g where
    g: "(review_stage E S (dump_plan r) f = (Inr None, g) \<and> board_at b g
          \<and> fs_max_cost S < tc_cost (fl_trace f) + oc_cost x
        \<or> (\<exists>b'. review_stage E S (dump_plan r) f = (Inr (Some (oc_output x)), g) \<and> review_waits E (oc_output x) b' g
             \<and> bo_requirement b' = Some i0 \<and> bo_adjustments b' = bo_adjustments b))" "same_way f g" by blast
  from g(1) show ?thesis
  proof (elim disjE exE conjE)
    assume "review_stage E S (dump_plan r) f = (Inr None, g)" "board_at b g"
    moreover from this have "can_finish g" using plan_waits_board [OF at] unfolding can_finish_def by blast
    ultimately show ?thesis using g(2) that(1) by blast
  next
    fix b' assume b': "review_stage E S (dump_plan r) f = (Inr (Some (oc_output x)), g)" "review_waits E (oc_output x) b' g"
      "bo_requirement b' = Some i0" "bo_adjustments b' = bo_adjustments b"
    then have "can_finish g" using review_waits_board [OF b'(2)] unfolding can_finish_def by blast
    then show ?thesis using b' g(2) x(2) that(2) by blast
  qed
qed

text \<open>What the agents give for the intents that an adjustment of the critic can lead to.\<close>

definition retries_answer :: "team \<Rightarrow> flow_settings \<Rightarrow> bool \<Rightarrow> workflow_intent \<Rightarrow> bool" where
  "retries_answer E S weather intent \<longleftrightarrow>
     (\<forall>a. agents_answer E S weather (adjust_intent a intent)
       \<and> (\<forall>px x. px_intent px = adjust_intent a intent \<longrightarrow> tm_planner E px = Inr x
            \<longrightarrow> ap_status (oc_output x) \<noteq> ''need_clarification''))"

lemma retried:
  assumes "retries_answer E S weather intent"
  shows "agents_answer E S weather (adjust_intent a intent)"
    "px_intent px = adjust_intent a intent \<Longrightarrow> tm_planner E px = Inr x \<Longrightarrow> ap_status (oc_output x) \<noteq> ''need_clarification''"
  using assms unfolding retries_answer_def by blast+

lemma retry_solve:
  assumes at: "review_waits E v b f" and adj: "rr_adjustments v = Some a" and req: "bo_requirement b = Some intent"
    and graph: "map_option skeleton (tc_plan (fl_trace f)) = Some (skeleton p)" "has_graph safe weather p"
    and answer: "agents_answer E S weather (adjust_intent a intent)"
  shows "\<exists>r g g1. apply_soft_adjustments E intent v f = (Inr (adjust_intent a intent), g1)
    \<and> solve E S (adjust_intent a intent) g1 = (Inr r, g) \<and> solved E S (adjust_intent a intent) intent (Some a) g1 r g"
proof -
  from apply_soft_ok [OF at adj req, of intent] obtain m b' g1 where
    g1: "apply_soft_adjustments E intent v f = (Inr (adjust_intent a intent), g1)" "waits Ep_search m b' g1"
      "refers E m b'" "ml_artifact m = ''retry_directive''" "bo_phase b' = Ph_retrying" "bo_requirement b' = Some intent"
      "bo_adjustments b' = Some a" "map_option skeleton (tc_plan (fl_trace g1)) = map_option skeleton (tc_plan (fl_trace f))"
    by blast
  obtain q where q: "tc_plan (fl_trace g1) = Some q" "skeleton q = skeleton p" using g1(8) graph(1) by auto
  have gq: "has_graph safe weather q" using has_graph_skeleton [OF q(2)] graph(2) by simp
  have "\<exists>r g. solve E S (adjust_intent a intent) g1 = (Inr r, g)
      \<and> solved E S (adjust_intent a intent) intent (bo_adjustments b') g1 r g
      \<and> map_option skeleton (tc_plan (fl_trace g)) = Some (skeleton q)"
    by (rule solve_ok [OF q(1) gq g1(2,3)]) (use g1(4-7) answer in \<open>simp_all add: adjusted_def\<close>)
  then show ?thesis using g1(1,7) by auto
qed

lemma retry_ok:
  assumes at: "review_waits E v b f" "retry_boundary_ok v" "rr_verdict v = Plan_retry" and req: "bo_requirement b = Some intent"
    and graph: "map_option skeleton (tc_plan (fl_trace f)) = Some (skeleton p)" "has_graph safe weather p"
    and answer: "retries_answer E S weather intent" "critic_answers E"
  shows "\<exists>r' v' g. also_do (apply_soft_adjustments E intent v) (\<lambda>intent2.
                also_do (solve E S intent2) (\<lambda>r2.
                also_do (review_stage E S (dump_plan r2)) (\<lambda>second.
                give (case second of None \<Rightarrow> (r2, v) | Some v2 \<Rightarrow> (r2\<lparr>ap_review := Some v2\<rparr>, v2))))) f
     = (Inr (r', v'), g) \<and> can_finish g"
proof -
  obtain a where a: "rr_adjustments v = Some a"
    using at(2,3) by (auto simp: retry_boundary_ok_def split: option.splits)
  from retry_solve [OF at(1) a req graph retried(1) [OF answer(1)]] obtain r2 g2 g1 where
    run: "apply_soft_adjustments E intent v f = (Inr (adjust_intent a intent), g1)"
      "solve E S (adjust_intent a intent) g1 = (Inr r2, g2)"
    and out: "solved E S (adjust_intent a intent) intent (Some a) g1 r2 g2" by blast
  obtain px x b2 where r2: "r2 = oc_output x" "px_intent px = adjust_intent a intent" "tm_planner E px = Inr x"
    "plan_waits E S r2 b2 g2" "bo_requirement b2 = Some intent"
    using out unfolding solved_def by blast
  have status: "ap_status r2 \<noteq> ''need_clarification''" using retried(2) [OF answer(1) r2(2,3)] r2(1) by simp
  show ?thesis
    by (rule review_answers [OF r2(4) status r2(5) answer(2)])
      (use run in \<open>simp_all add: also_do_Inr flow_simps\<close>)
qed

lemma after_review_none: "after_review E S intent r None f
    = (Inr (if tc_mode (fl_trace f) = Mode_enforce then clarify [''critic_review''] r else r), f)"
  by (simp add: after_review_def flow_simps)

lemma after_review_ok:
  assumes at: "review_waits E v b f" "retry_boundary_ok v" and req: "bo_requirement b = Some intent"
    and graph: "map_option skeleton (tc_plan (fl_trace f)) = Some (skeleton p)" "has_graph safe weather p"
    and answer: "retries_answer E S weather intent" "critic_answers E"
  shows "\<exists>r' g. after_review E S intent r (Some v) f = (Inr r', g) \<and> can_finish g"
proof (cases "rr_verdict v = Plan_retry \<and> retry_allowed S f")
  case True
  then have "rr_verdict v = Plan_retry" by simp
  from retry_ok [OF at this req graph answer] True show ?thesis
    by (auto simp: after_review_def flow_simps also_do_def split: prod.splits sum.splits)
next
  case False
  have "can_finish f" using review_waits_board [OF at(1)] unfolding can_finish_def by blast
  then show ?thesis using False by (auto simp: after_review_def flow_simps)
qed

lemma all_reviewed:
  assumes plan: "plan_waits E S r b f" "bo_requirement b = Some intent"
    and graph: "map_option skeleton (tc_plan (fl_trace f)) = Some (skeleton p)" "has_graph safe weather p"
    and answer: "retries_answer E S weather intent" "critic_answers E"
    and status: "ap_status r \<noteq> ''need_clarification''"
  shows "\<exists>r1 g. also_do (review_stage E S (dump_plan r)) (after_review E S intent r) f = (Inr r1, g) \<and> can_finish g"
proof (rule review_answers [OF plan(1) status plan(2) answer(2)])
  fix g assume "review_stage E S (dump_plan r) f = (Inr None, g)" "can_finish g" "same_way f g"
  then show ?thesis by (simp add: also_do_Inr after_review_none)
next
  fix v b' g assume run: "review_stage E S (dump_plan r) f = (Inr (Some v), g)"
    and at: "review_waits E v b' g" "can_finish g" "bo_requirement b' = Some intent" "retry_boundary_ok v" "same_way f g"
  have "map_option skeleton (tc_plan (fl_trace g)) = Some (skeleton p)" using at(5) graph(1) by (simp add: same_way_def)
  from after_review_ok [OF at(1,4,3) this graph(2) answer] run show ?thesis by (simp add: also_do_Inr)
qed

section \<open>The whole trip\<close>

lemma also_do_nested: "also_do (also_do a j) k = also_do a (\<lambda>x. also_do (j x) k)"
  by (rule ext) (rule also_do_assoc)

definition team_answers :: "team \<Rightarrow> flow_settings \<Rightarrow> workflow_intent \<Rightarrow> bool" where
  "team_answers E S intent \<longleftrightarrow>
     agents_answer E S (weather_required (tm_fold E) intent) intent
   \<and> retries_answer E S (weather_required (tm_fold E) intent) intent \<and> critic_answers E"

lemma start_understand:
  assumes "fl_pending f = []" "tm_intent E = Inr x" "oc_output x = (intent, questions)"
  shows "\<exists>m b g. also_do (start_stage E S) (\<lambda>_. understand_stage E S) f = (Inr (intent, questions), g)
    \<and> waits Ep_supervisor m b g \<and> refers E m b \<and> ml_artifact m = ''intent_artifact'' \<and> bo_phase b = Ph_intent_ready
    \<and> bo_requirement b = Some intent \<and> bo_adjustments b = None \<and> same_course f g"
proof -
  from start_ok [OF assms(1), of E S] obtain f1 where
    f1: "start_stage E S f = (Inr (), f1)" "waits Ep_intent (request_mail Ep_supervisor) new_board f1" "same_course f f1"
    by blast
  have "bo_phase new_board = Ph_initialized" by (simp add: new_board_def)
  from understand_ok [OF f1(2) this assms(2,3), of S] obtain m b g where
    g: "understand_stage E S f1 = (Inr (intent, questions), g)" "waits Ep_supervisor m b g" "refers E m b"
      "ml_artifact m = ''intent_artifact''" "bo_phase b = Ph_intent_ready" "bo_requirement b = Some intent"
      "bo_adjustments b = bo_adjustments new_board" "same_course f1 g" by blast
  have "same_course f g" using same_course_trans [OF f1(3) g(8)] .
  moreover have "bo_adjustments b = None" using g(7) by (simp add: new_board_def)
  moreover have "also_do (start_stage E S) (\<lambda>_. understand_stage E S) f = (Inr (intent, questions), g)"
    using f1(1) g(1) by (simp add: also_do_Inr)
  ultimately show ?thesis using g by blast
qed

lemma plan_solve:
  assumes at: "waits Ep_supervisor m b f" "refers E m b" "ml_artifact m = ''intent_artifact''" "bo_phase b = Ph_intent_ready"
      "bo_requirement b = Some intent" "bo_adjustments b = None"
    and answer: "agents_answer E S (weather_required (tm_fold E) intent) intent"
  shows "\<exists>r b' g p. also_do (plan_next_stage E S intent) (\<lambda>_. solve E S intent) f = (Inr r, g)
    \<and> plan_waits E S r b' g \<and> bo_requirement b' = Some intent
    \<and> map_option skeleton (tc_plan (fl_trace g)) = Some (skeleton p)
    \<and> has_graph (safety_reasons intent \<noteq> []) (weather_required (tm_fold E) intent) p"
proof -
  from plan_next_ok [OF at(1-3,5), of S] obtain m1 f1 where
    f1: "plan_next_stage E S intent f = (Inr (), f1)" "waits Ep_search m1 b f1" "refers E m1 b"
      "ml_artifact m1 = ''intent_artifact''"
      "tc_plan (fl_trace f1) = Some (set_plan_status ''intent'' Nd_succeeded True
         (build_execution_plan (tm_fold E) intent (tc_mode (fl_trace f))))" by blast
  let ?p = "set_plan_status ''intent'' Nd_succeeded True (build_execution_plan (tm_fold E) intent (tc_mode (fl_trace f)))"
  have graph: "has_graph (safety_reasons intent \<noteq> []) (weather_required (tm_fold E) intent) ?p"
    using has_graph_skeleton [OF skeleton_set_plan_status] plan_for_graph by (simp add: build_execution_plan_def)
  have "\<exists>r g. solve E S intent f1 = (Inr r, g) \<and> solved E S intent intent (bo_adjustments b) f1 r g
      \<and> map_option skeleton (tc_plan (fl_trace g)) = Some (skeleton ?p)"
    by (rule solve_ok [OF f1(5) graph f1(2,3)]) (use f1(4) at(4-6) answer in \<open>simp_all add: adjusted_def\<close>)
  then obtain r g where g: "solve E S intent f1 = (Inr r, g)" "solved E S intent intent (bo_adjustments b) f1 r g"
    "map_option skeleton (tc_plan (fl_trace g)) = Some (skeleton ?p)" by blast
  obtain b' where "plan_waits E S r b' g" "bo_requirement b' = Some intent"
    using g(2) unfolding solved_def by blast
  moreover have "also_do (plan_next_stage E S intent) (\<lambda>_. solve E S intent) f = (Inr r, g)"
    using f1(1) g(1) by (simp add: also_do_Inr)
  ultimately show ?thesis using g(3) graph by blast
qed

lemma plan_body_ok:
  assumes empty: "fl_pending f = []" and intent: "tm_intent E = Inr x" "oc_output x = (intent, questions)"
    and answer: "questions = [] \<Longrightarrow> team_answers E S intent"
  shows "\<exists>r g. plan_body E S f = (Inr r, g)"
proof -
  from start_understand [OF empty intent, of S] obtain m b f1 where
    f1: "also_do (start_stage E S) (\<lambda>_. understand_stage E S) f = (Inr (intent, questions), f1)"
      "waits Ep_supervisor m b f1" "refers E m b" "ml_artifact m = ''intent_artifact''" "bo_phase b = Ph_intent_ready"
      "bo_requirement b = Some intent" "bo_adjustments b = None" by blast
  have body: "plan_body E S f =
      (if questions \<noteq> [] then finalized E S ''needs_clarification'' (question_result intent questions) f1
       else also_do (also_do (plan_next_stage E S intent) (\<lambda>_. solve E S intent)) (\<lambda>r.
         if ap_status r = ''need_clarification'' then finalized E S ''needs_clarification'' r
         else also_do (also_do (review_stage E S (dump_plan r)) (after_review E S intent r)) (\<lambda>r1.
           let r2 = confirm_plan (tm_confirmed E) r1 in finalized E S (ap_status r2) r2)) f1)"
  proof -
    obtain f0 where "start_stage E S f = (Inr (), f0)" "understand_stage E S f0 = (Inr (intent, questions), f1)"
      using f1(1) by (auto simp: also_do_def split: prod.splits sum.splits)
    then show ?thesis unfolding plan_body_def by (simp add: also_do_Inr also_do_nested cong: if_cong)
  qed
  show ?thesis
  proof (cases "questions = []")
    case False
    have fin: "can_finish f1" using waits_board [OF f1(2)] f1(5) unfolding can_finish_def by blast
    show ?thesis unfolding body using False finish_ok [OF fin, of E S "''needs_clarification''" "question_result intent questions"] by auto
  next
    case True
    from answer [OF True] have answers: "agents_answer E S (weather_required (tm_fold E) intent) intent"
      "retries_answer E S (weather_required (tm_fold E) intent) intent" "critic_answers E"
      unfolding team_answers_def by simp_all
    from plan_solve [OF f1(2-7) answers(1)] obtain r b' g p where
      g: "also_do (plan_next_stage E S intent) (\<lambda>_. solve E S intent) f1 = (Inr r, g)" "plan_waits E S r b' g"
        "bo_requirement b' = Some intent" "map_option skeleton (tc_plan (fl_trace g)) = Some (skeleton p)"
        "has_graph (safety_reasons intent \<noteq> []) (weather_required (tm_fold E) intent) p" by blast
    show ?thesis
    proof (cases "ap_status r = ''need_clarification''")
      case asked: True
      have fin: "can_finish g" using plan_waits_board [OF g(2)] unfolding can_finish_def by blast
      show ?thesis unfolding body
        using True asked g(1) finish_ok [OF fin, of E S "''needs_clarification''" r] by (auto simp: also_do_Inr)
    next
      case False
      from all_reviewed [OF g(2-5) answers(2,3) False] obtain r1 h where
        h: "also_do (review_stage E S (dump_plan r)) (after_review E S intent r) g = (Inr r1, h)" "can_finish h" by blast
      then show ?thesis
        unfolding body
        using True False g(1) h(1) finish_ok [OF h(2), of E S "ap_status (confirm_plan (tm_confirmed E) r1)" "confirm_plan (tm_confirmed E) r1"]
        by (auto simp: also_do_Inr Let_def)
    qed
  qed
qed

end
