(* ===== verification/Planning_Frames.thy ===== *)
theory Planning_Frames
  imports Planning_Outcomes
begin

text \<open>
  What no stage changes: the mode of the workflow, and the number of soft retries outside
  \<open>apply_soft_adjustments\<close>; and what an action that ended normally must have done.
\<close>

section \<open>Actions that keep a value\<close>

named_theorems keep_intros \<open>actions that keep a value\<close>

definition keeps :: "(flow \<Rightarrow> 'x) \<Rightarrow> 'a act \<Rightarrow> bool" where
  "keeps q a \<longleftrightarrow> (\<forall>f. q (snd (a f)) = q f)"

lemma keepsD: "keeps q a \<Longrightarrow> a f = (r, g) \<Longrightarrow> q g = q f"
  unfolding keeps_def by (metis snd_conv)

lemma keeps_basic [keep_intros]: "keeps q (give x)" "keeps q (raise e)" "keeps q (look h)" "keeps q (check b msg)"
    "keeps q (lift r)"
  by (simp_all add: keeps_def give_def raise_def look_def check_def lift_def split: sum.split)

lemma keeps_modify [keep_intros]: "(\<And>f. q (h f) = q f) \<Longrightarrow> keeps q (modify h)"
  by (simp add: keeps_def modify_def)

lemma keeps_also_do [keep_intros]:
  assumes "keeps q a" "\<And>x. keeps q (k x)"
  shows "keeps q (also_do a k)"
  unfolding keeps_def
proof
  fix f
  obtain r g where run: "a f = (r, g)" by (cases "a f") auto
  then have "q g = q f" using keepsD [OF assms(1)] by simp
  then show "q (snd (also_do a k f)) = q f"
    using run assms(2) by (cases r) (simp_all add: also_do_def keeps_def)
qed

lemma keeps_cases [keep_intros]:
  "(\<And>a b. keeps q (k a b)) \<Longrightarrow> keeps q (case p of (a, b) \<Rightarrow> k a b)"
  "(\<And>x. keeps q (k1 x)) \<Longrightarrow> (\<And>y. keeps q (k2 y)) \<Longrightarrow> keeps q (case s of Inl x \<Rightarrow> k1 x | Inr y \<Rightarrow> k2 y)"
  "keeps q n \<Longrightarrow> (\<And>x. keeps q (k1 x)) \<Longrightarrow> keeps q (case v of None \<Rightarrow> n | Some x \<Rightarrow> k1 x)"
  "keeps q a \<Longrightarrow> keeps q b \<Longrightarrow> keeps q (if c then a else b)"
  by (simp_all split: prod.split sum.split option.split)

text \<open>The mode and the soft retries so far.\<close>

definition course :: "flow \<Rightarrow> workflow_mode \<times> int" where
  "course f = (tc_mode (fl_trace f), tc_retries (fl_trace f))"

lemma course_frame [simp]:
  "course (f\<lparr>fl_pending := p\<rparr>) = course f" "course (f\<lparr>fl_board := b\<rparr>) = course f"
  "course (f\<lparr>fl_revision := r\<rparr>) = course f" "course (save_flow E f) = course f"
  "course (with_plan q f) = course f" "course (snd (pop_mail ep f)) = course f"
  by (simp_all add: course_def)

lemma course_trace: "course (tc_update h f) = (tc_mode (h (fl_trace f)), tc_retries (h (fl_trace f)))"
  by (simp add: course_def)

lemma keeps_parts [keep_intros]:
  "keeps course (dispatch ep m)" "keeps course (consume ep arts)" "keeps course view"
  "keeps course (share actor action changed h)" "keeps course (record_step S x key)"
  "keeps course (checkpoint_flow E)" "keeps course (mark i st b)" "keeps course (finish_flow ending)"
proof -
  show "keeps course (dispatch ep m)"
    unfolding dispatch_def by (intro keep_intros) simp
  show "keeps course (consume ep arts)"
    by (auto simp: keeps_def consume_def pop_mail_def split: option.split list.split)
  show "keeps course view" by (simp add: keeps_def view_def split: option.split)
  show "keeps course (share actor action changed h)"
    by (simp add: keeps_def share_def split: option.split sum.split)
  show "keeps course (record_step S x key)" "keeps course (mark i st b)" "keeps course (finish_flow ending)"
    unfolding record_step_def mark_def finish_flow_def by (intro keep_intros; simp add: course_def)+
  show "keeps course (checkpoint_flow E)" unfolding checkpoint_flow_def by (intro keep_intros) simp
qed

lemma keeps_views [keep_intros]:
  "keeps course (fresh_view E m)" "keeps course (need_intent b)" "keeps course (same_intent E i j)"
  unfolding fresh_view_def need_intent_def same_intent_def by (intro keep_intros)+

lemma keeps_recover [keep_intros]: "keeps course (recover_stage E S e)" "keeps course (recover_all E S es)"
proof -
  show one: "keeps course (recover_stage E S e)" for e
    unfolding recover_stage_def by (intro keep_intros)
  show "keeps course (recover_all E S es)"
    by (induction es) (simp_all add: keeps_basic keeps_also_do one)
qed

lemma keeps_stages [keep_intros]:
  "keeps course (start_stage E S)" "keeps course (understand_stage E S)" "keeps course (plan_next_stage E S i)"
  "keeps course (search_stage E S i)" "keeps course (weather_stage E)" "keeps course (safety_stage E S w)"
  "keeps course (build_planning_context E m i s w)" "keeps course (planner_stage E S i s w)"
  unfolding start_stage_def understand_stage_def plan_next_stage_def search_stage_def weather_stage_def safety_stage_def
    build_planning_context_def planner_stage_def Let_def
  by (intro keep_intros; simp add: course_def)+

section \<open>The graph, the review and the end\<close>

lemma keeps_plan_step [keep_intros]: "keeps course (plan_step_stage E S intent outs i)"
  unfolding plan_step_stage_def wrap_def by (intro keep_intros)

lemma run_ready_course:
  assumes "\<And>i. keeps course (stage i)"
  shows "course (snd (run_ready stage ids f)) = course f"
proof (induction ids arbitrary: f)
  case (Cons i ids)
  obtain r g where run: "stage i f = (r, g)" by (cases "stage i f") auto
  have "course g = course f" using assms run by (auto dest: keepsD)
  then show ?case using Cons run by (simp add: case_prod_beta)
qed simp

lemma gather_course: "gather_stages E S intent p ready outs f = (results, g) \<Longrightarrow> course g = course f"
proof -
  assume "gather_stages E S intent p ready outs f = (results, g)"
  moreover have "course (snd (run_ready (plan_step_stage E S intent outs) ready (with_plan p f))) = course (with_plan p f)"
    by (rule run_ready_course) (rule keeps_plan_step)
  ultimately show ?thesis by (simp add: gather_stages_def)
qed

lemma run_rounds_keeps:
  fixes q :: "'w \<Rightarrow> 'x"
  assumes "\<And>p ready outs w results w2. gather p ready outs w = (results, w2) \<Longrightarrow> q w2 = q w"
    and "\<And>p w. q (save p w) = q w"
    and "run_rounds gather save waiting finished outs p w = (out, p2, w2)"
  shows "q w2 = q w"
  using assms
proof (induction gather save waiting finished outs p w arbitrary: out p2 w2 rule: run_rounds.induct)
  case (1 gather save waiting finished outs p w)
  show ?case
  proof (cases "waiting = [] \<or> ready_steps p waiting finished = []")
    case True
    then show ?thesis using "1.prems"(3) by (auto simp: run_rounds.simps [of gather] Let_def split: if_splits)
  next
    case False
    let ?ready = "ready_steps p waiting finished" and ?p1 = "set_all (ready_steps p waiting finished) Nd_running True p"
    obtain results w3 where g: "gather ?p1 ?ready outs (save ?p1 w) = (results, w3)"
      by (cases "gather ?p1 ?ready outs (save ?p1 w)") auto
    obtain p4 outs2 failure where st: "settle results ?ready (?p1, outs, None) = (p4, outs2, failure)"
      by (cases "settle results ?ready (?p1, outs, None)") auto
    have w3: "q w3 = q w" using "1.prems"(1) [OF g] "1.prems"(2) by simp
    show ?thesis
    proof (cases failure)
      case (Some e)
      then show ?thesis
        using "1.prems"(2,3) False g st w3 by (auto simp: run_rounds.simps [of gather] Let_def)
    next
      case None
      then have rest: "run_rounds gather save (filter (\<lambda>i. i \<notin> set ?ready) waiting) (finished @ ?ready) outs2 p4 (save p4 w3)
          = (out, p2, w2)"
        using "1.prems"(3) False g st by (simp add: run_rounds.simps [of gather save waiting] Let_def)
      have "q w2 = q (save p4 w3)"
        by (rule "1.IH" [OF _ refl _ refl refl _ refl _ refl refl refl _ "1.prems"(1,2) rest])
          (use False g st None in auto)
      then show ?thesis using "1.prems"(2) w3 by simp
    qed
  qed
qed

text \<open>
  The executor of the task graph and what runs its stages: whatever the stages and the saving keep,
  the execution keeps.
\<close>

locale kept_rounds =
  fixes gather :: "('o, 'w) gather"
    and save :: "execution_plan \<Rightarrow> 'w \<Rightarrow> 'w"
    and kept :: "'w \<Rightarrow> 'x"
  assumes gather_keeps: "gather p ready outs w = (results, w2) \<Longrightarrow> kept w2 = kept w"
    and save_keeps: "kept (save p w) = kept w"
begin

lemma rounds_keep: "run_rounds gather save waiting finished outs p w = (out, p2, w2) \<Longrightarrow> kept w2 = kept w"
  by (rule run_rounds_keeps [of gather kept save]) (auto intro: gather_keeps save_keeps)

lemma execution_keeps:
  "execute_planning_stages is_plan gather save intent p w = (r, q, w2) \<Longrightarrow> kept w2 = kept w"
  unfolding execute_planning_stages_def Let_def using save_keeps
  by (auto dest!: rounds_keep split: if_splits prod.splits sum.splits option.splits)

end

interpretation pk: kept_rounds "gather_stages E S intent" "\<lambda>q. save_flow E \<circ> with_plan q" course
  for E S intent
  by unfold_locales (auto dest: gather_course)

lemma keeps_solve [keep_intros]: "keeps course (solve E S intent)"
  by (auto simp: keeps_def solve_def split: option.split prod.split dest: pk.execution_keeps)

lemma keeps_ending [keep_intros]:
  "keeps course (build_critic_context E m plan)" "keeps course (review_stage E S plan)"
  "keeps course (finalize_stage E S r)" "keeps course (finalized E S ending r)"
  unfolding build_critic_context_def review_stage_def finalize_stage_def finalized_def Let_def
  by (intro keep_intros; simp add: course_def)+

section \<open>Actions that ended normally\<close>

lemma also_do_InrE:
  assumes "also_do a k f = (Inr y, g)"
  obtains x h where "a f = (Inr x, h)" "k x h = (Inr y, g)"
  using assms by (auto simp: also_do_def split: prod.splits sum.splits)

lemma give_Inr: "give x f = (Inr y, g) \<longleftrightarrow> y = x \<and> g = f"
  by (auto simp: give_def)

lemma look_Inr: "look q f = (Inr y, g) \<longleftrightarrow> y = q f \<and> g = f"
  by (auto simp: look_def)

lemma raise_Inr: "raise e f \<noteq> (Inr y, g)"
  by (simp add: raise_def)

lemmas ended = give_Inr look_Inr raise_Inr

end
