(* ===== verification/Planning_Examples.thy ===== *)
theory Planning_Examples
  imports Planning_Frames
begin

text \<open>
  A concrete trip: a team that answers at once, its settings, and the run of the whole workflow on
  it in enforce mode, evaluated stage by stage.
\<close>

section \<open>The team\<close>

definition walk_intent :: workflow_intent where
  "walk_intent = \<lparr>in_mode = Some Walking, in_tasks = [], in_preferences = default_preferences, in_hard = no_constraints,
     in_buffers = [], wi_elderly = 0, wi_children = 0, wi_uncertain = []\<rparr>"

definition walk_plan :: "string \<Rightarrow> workflow_intent \<Rightarrow> plan_result" where
  "walk_plan status i = \<lparr>ap_status = status, ap_state = status, ap_intent = i, ap_distance = 900, ap_costs = [],
     ap_questions = [], ap_warnings = [], ap_review = None, ap_rest = []\<rparr>"

definition said :: "'o \<Rightarrow> 'o outcome" where
  "said x = \<lparr>oc_output = x, oc_artifact = ''artifact'', oc_payload = [], oc_input_tokens = 0, oc_output_tokens = 0, oc_cost = 0\<rparr>"

definition plain_report :: "plan_verdict \<Rightarrow> soft_adjustments option \<Rightarrow> review_report" where
  "plain_report v a = \<lparr>rr_verdict = v, rr_findings = [], rr_adjustments = a, rr_route = None, rr_confidence = 1\<rparr>"

definition shorter_walks :: soft_adjustments where
  "shorter_walks = \<lparr>sa_travel_time = None, sa_walking_time = Some 2, sa_distance = None, sa_low_rating = None,
     sa_uncertainty = None, sa_monetary_cost = None\<rparr>"

definition walk_team :: "(workflow_intent \<Rightarrow> string) \<Rightarrow> review_report \<Rightarrow> team" where
  "walk_team status report =
     \<lparr>tm_intent = Inr (said (walk_intent, [])), tm_search = (\<lambda>i. ([], Inr (said []))), tm_weather = Inr [],
      tm_safety = (\<lambda>i c w. said []), tm_planner = (\<lambda>px. Inr (said (walk_plan (status (px_intent px)) (px_intent px)))),
      tm_critic = (\<lambda>p. Inr (said report)), tm_hash = (\<lambda>b. ''hash''), tm_digest = (\<lambda>j. ''digest''),
      tm_intent_digest = (\<lambda>i. ''digest''),
      tm_audit = (\<lambda>b. \<lparr>sa_task = ''task'', sa_revision = bo_revision b, sa_phase = bo_phase b, sa_flags = [], sa_groups = 0,
        sa_candidates = 0, sa_route_status = None, sa_stops = 0, sa_verdict = JNull, sa_history = 0, sa_hash = ''hash''\<rparr>),
      tm_fold = id, tm_fr = (\<lambda>q. ''0''), tm_now = 0, tm_origin = True, tm_confirmed = []\<rparr>"

definition walk_settings :: flow_settings where
  "walk_settings = \<lparr>fs_max_handoffs = 16, fs_max_cost = 1, fs_max_retries = 1, fs_input_price = 0, fs_output_price = 0\<rparr>"

section \<open>The run\<close>

lemma team_simps:
  "tm_intent (walk_team s r) = Inr (said (walk_intent, []))" "tm_search (walk_team s r) i = ([], Inr (said []))"
  "tm_planner (walk_team s r) px = Inr (said (walk_plan (s (px_intent px)) (px_intent px)))"
  "tm_critic (walk_team s r) p = Inr (said r)" "tm_hash (walk_team s r) b = ''hash''" "tm_digest (walk_team s r) j = ''digest''"
  "tm_intent_digest (walk_team s r) i = ''digest''" "tm_origin (walk_team s r)" "tm_confirmed (walk_team s r) = []"
  "tm_fold (walk_team s r) = id"
  by (simp_all add: walk_team_def)

lemma no_store: "fl_store f = None \<Longrightarrow> save_flow E f = f"
  by (simp add: save_flow_def)

lemma said_simps: "oc_output (said x) = x" "oc_artifact (said x) = ''artifact''" "oc_payload (said x) = []" "step_price S (said x) = 0"
  "oc_cost (said x) = 0"
  by (simp_all add: said_def step_price_def)

lemma own_price: "step_price S (own_step a p) = 0"
  by (simp add: step_price_def own_step_def)

lemma walk_graph: "has_graph False False (build_execution_plan id walk_intent m)"
proof -
  have "safety_reasons walk_intent = []" "\<not> weather_required id walk_intent"
    by (simp_all add: safety_reasons_def weather_required_def walk_intent_def default_preferences_def no_constraints_def only_if_def)
  then show ?thesis using plan_for_graph [of "[]" False m] by (simp add: build_execution_plan_def)
qed

lemma graph_marks:
  "has_graph s w (set_plan_status i st b p) = has_graph s w p" "has_graph s w (set_all ids st b p) = has_graph s w p"
  "has_graph s w (reset_subgraph p) = has_graph s w p"
  by (simp_all add: has_graph_def)

lemma walk_ready: "has_graph False False p \<Longrightarrow> ready_steps p waiting finished =
     map fst (filter (\<lambda>(i, deps). i \<in> set waiting \<and> set deps \<subseteq> set finished) (stage_graph False False))"
  by (rule graph_ready)

lemma walk_ids: "has_graph False False p \<Longrightarrow> map gs_id (subgraph p) = [''search'', ''planner'']"
  by (simp add: graph_ids only_if_def)

lemma walk_required: "has_graph False False p \<Longrightarrow> \<not> safety_required (Some p)"
   "has_graph False False p \<Longrightarrow> ''search'' \<in> gs_id ` set (xp_steps p) \<and> ''planner'' \<in> gs_id ` set (xp_steps p)"
  using in_graph by force+

lemmas walk_eval = flow_simps request_mail_def share_allowed new_board_def team_simps said_simps no_store own_price
   plan_next_stage_def tc_update_def next_board_def with_plan_def

lemma own_simps: "oc_artifact (own_step a p) = a" "oc_payload (own_step a p) = p"
  by (simp_all add: own_step_def)

lemma walk_solve:
  assumes "has_graph False False p" "fl_store f = None" "tc_plan (fl_trace f) = Some p" "fl_pending f = [(Ep_search, [m])]"
    "fl_board f = Some b" "ml_revision m = bo_revision b" "ml_hash m = ''hash''" "ml_artifact m = ''intent_artifact''"
    "fl_revision f = bo_revision b" "bo_phase b = Ph_intent_ready" "bo_requirement b = Some walk_intent" "bo_adjustments b = None"
    "tc_mode (fl_trace f) = Mode_enforce" "tc_handoffs (fl_trace f) = 3" "tc_cost (fl_trace f) = 0"
  shows "\<exists>g b' m'. solve (walk_team (\<lambda>_. ''success'') report) walk_settings walk_intent f = (Inr (walk_plan ''success'' walk_intent), g)
    \<and> fl_store g = None \<and> fl_pending g = [(Ep_critic, [m'])] \<and> fl_board g = Some b' \<and> ml_revision m' = bo_revision b'
    \<and> ml_hash m' = ''hash'' \<and> ml_artifact m' = ''plan_candidate'' \<and> ml_digest m' = Some ''digest''
    \<and> fl_revision g = bo_revision b' \<and> bo_phase b' = Ph_plan_ready \<and> bo_requirement b' = Some walk_intent
    \<and> bo_route b' \<noteq> None \<and> tc_mode (fl_trace g) = Mode_enforce
    \<and> tc_handoffs (fl_trace g) = 5 \<and> tc_cost (fl_trace g) = 0 \<and> tc_plan (fl_trace g) \<noteq> None"
proof -
  have "subgraph (reset_subgraph p) \<noteq> []" using assms(1) walk_ids [of "reset_subgraph p"] by (auto simp: graph_marks)
  moreover have "ap_status (walk_plan ''success'' walk_intent) = ''success''" by (simp add: walk_plan_def)
  ultimately show ?thesis
    using assms by (simp add: walk_eval solve_def execute_planning_stages_def Let_def graph_marks walk_ids walk_required run_rounds.simps
     walk_ready stage_graph_def only_if_def gather_stages_def plan_step_stage_def wrap_def search_stage_def planner_stage_def
     build_planning_context_def adjusted_def search_output_def also_do_Inr obj_get_def may_run_critic_def walk_settings_def)
qed

lemma walk_start:
  "\<exists>f m b p. also_do (start_stage E S) (\<lambda>_. also_do (understand_stage E S) (\<lambda>(i, q). also_do (plan_next_stage E S i) (\<lambda>_. give (i, q))))
      (new_flow Mode_enforce ''task'' None) = (Inr (walk_intent, []), f)
    \<and> has_graph False False p \<and> fl_store f = None \<and> tc_plan (fl_trace f) = Some p \<and> fl_pending f = [(Ep_search, [m])]
    \<and> fl_board f = Some b \<and> ml_revision m = bo_revision b \<and> ml_hash m = ''hash'' \<and> ml_artifact m = ''intent_artifact''
    \<and> fl_revision f = bo_revision b \<and> bo_phase b = Ph_intent_ready \<and> bo_requirement b = Some walk_intent \<and> bo_adjustments b = None
    \<and> tc_mode (fl_trace f) = Mode_enforce \<and> tc_handoffs (fl_trace f) = 3 \<and> tc_cost (fl_trace f) = 0"
  if "E = walk_team status report"
  using walk_graph [of Mode_enforce] unfolding that
  by (simp add: start_stage_def understand_stage_def new_flow_def walk_eval own_simps graph_marks)

lemma walk_review:
  assumes "fl_store g = None" "fl_pending g = [(Ep_critic, [m'])]" "fl_board g = Some b'" "ml_revision m' = bo_revision b'"
    "ml_hash m' = ''hash''" "ml_artifact m' = ''plan_candidate''" "ml_digest m' = Some ''digest''"
    "fl_revision g = bo_revision b'" "bo_phase b' = Ph_plan_ready" "bo_requirement b' = Some walk_intent"
    "bo_route b' \<noteq> None" "tc_mode (fl_trace g) = Mode_enforce" "tc_handoffs (fl_trace g) = 5" "tc_cost (fl_trace g) = 0"
  shows "\<exists>h. review_stage (walk_team status report) walk_settings plan g = (Inr (Some report), h) \<and> can_finish h
    \<and> tc_mode (fl_trace h) = Mode_enforce"
  using assms
  by (auto simp: review_stage_def build_critic_context_def walk_eval may_run_critic_def walk_settings_def can_finish_def board_at_def)

lemma walk_trip:
  "\<exists>g. plan_trip (walk_team (\<lambda>_. ''success'') (plain_report Plan_approved None)) walk_settings (new_flow Mode_enforce ''task'' None)
    = (Inr ((walk_plan ''success'' walk_intent)\<lparr>ap_review := Some (plain_report Plan_approved None)\<rparr>), g)"
proof -
  let ?E = "walk_team (\<lambda>_. ''success'') (plain_report Plan_approved None)" and ?S = walk_settings
  let ?f = "new_flow Mode_enforce ''task'' None"
  let ?r = "walk_plan ''success'' walk_intent" and ?r1 = "(walk_plan ''success'' walk_intent)\<lparr>ap_review := Some (plain_report Plan_approved None)\<rparr>"
  from walk_start [OF refl] obtain f3 m b p where
    "also_do (start_stage ?E ?S) (\<lambda>_. also_do (understand_stage ?E ?S) (\<lambda>(i, q). also_do (plan_next_stage ?E ?S i) (\<lambda>_. give (i, q)))) ?f
      = (Inr (walk_intent, []), f3)" and at: "has_graph False False p" "fl_store f3 = None" "tc_plan (fl_trace f3) = Some p" "fl_pending f3 = [(Ep_search, [m])]"
    "fl_board f3 = Some b" "ml_revision m = bo_revision b" "ml_hash m = ''hash''" "ml_artifact m = ''intent_artifact''"
    "fl_revision f3 = bo_revision b" "bo_phase b = Ph_intent_ready" "bo_requirement b = Some walk_intent" "bo_adjustments b = None"
    "tc_mode (fl_trace f3) = Mode_enforce" "tc_handoffs (fl_trace f3) = 3" "tc_cost (fl_trace f3) = 0" by blast
  then obtain f1 f2 where run: "start_stage ?E ?S ?f = (Inr (), f1)" "understand_stage ?E ?S f1 = (Inr (walk_intent, []), f2)"
    "plan_next_stage ?E ?S walk_intent f2 = (Inr (), f3)"
    by (auto elim!: also_do_InrE simp: ended)
  from walk_solve [OF at, of "plain_report Plan_approved None"] obtain f4 where
    f4: "solve ?E ?S walk_intent f3 = (Inr ?r, f4)"
     "\<exists>h. review_stage ?E ?S (dump_plan ?r) f4 = (Inr (Some (plain_report Plan_approved None)), h) \<and> can_finish h \<and> tc_mode (fl_trace h) = Mode_enforce"
    using walk_review [where plan = "dump_plan ?r"] by blast
  then obtain f5 where f5: "review_stage ?E ?S (dump_plan ?r) f4 = (Inr (Some (plain_report Plan_approved None)), f5)" "can_finish f5"
    "tc_mode (fl_trace f5) = Mode_enforce" by blast
  have f6: "after_review ?E ?S walk_intent ?r (Some (plain_report Plan_approved None)) f5 = (Inr ?r1, f5)"
    using f5(3) by (simp add: after_review_def flow_simps plain_report_def enforce_review_def)
  have "confirm_plan (tm_confirmed ?E) ?r1 = ?r1" "ap_status ?r = ''success''"
    by (simp_all add: confirm_plan_def confirmation_questions_def needs_walking_confirmation_def walking_threshold_def walk_plan_def
       estimated_plan_cost_def only_if_def Let_def)
  moreover obtain g where "finalized ?E ?S ''success'' ?r1 f5 = (Inr ?r1, g)" using finish_ok [OF f5(2)] by blast
  ultimately have "plan_body ?E ?S ?f = (Inr ?r1, g)"
    using run f4 f5 f6 by (simp add: plan_body_def also_do_Inr Let_def)
  then show ?thesis by (simp add: plan_trip_def also_do_Inr flow_simps)
qed

end
