(* ===== verification/Planning_Properties.thy ===== *)
theory Planning_Properties
  imports Planning_Examples Shared_State_Properties
begin

text \<open>
  The properties of the planning workflow: it completes when its agents answer, what a result in
  enforce mode has been through, how often it may replan, what happens when it fails late, and how
  its model of the shared state relates to \<open>update_state\<close>.
\<close>

section \<open>What an action that ended normally has done\<close>

lemma finalized_Inr: "finalized E S st r f = (Inr r', g) \<Longrightarrow> r' = r"
  unfolding finalized_def by (auto elim!: also_do_InrE simp: ended)

lemma review_stage_Inr:
  assumes "review_stage E S plan f = (Inr (Some v), g)"
  shows "\<exists>x. tm_critic E plan = Inr x \<and> v = oc_output x"
  using assms unfolding review_stage_def
  by (auto elim!: also_do_InrE simp: ended split: if_splits sum.splits)

text \<open>What a run of the body that gave a result without a question has been through.\<close>

lemma plan_body_Inr:
  assumes "plan_body E S f = (Inr r, g)" "ap_status r \<noteq> ''need_clarification''"
  obtains intent r0 review f3 f4 r1 g1 where
    "review_stage E S (dump_plan r0) f3 = (Inr review, f4)" "course f4 = course f"
    "after_review E S intent r0 review f4 = (Inr r1, g1)" "r = confirm_plan (tm_confirmed E) r1"
proof -
  let ?deliver = "\<lambda>intent r. if ap_status r = ''need_clarification'' then finalized E S ''needs_clarification'' r
      else also_do (review_stage E S (dump_plan r)) (\<lambda>review. also_do (after_review E S intent r review) (\<lambda>r1.
        let r2 = confirm_plan (tm_confirmed E) r1 in finalized E S (ap_status r2) r2))"
  let ?planned = "\<lambda>intent. also_do (plan_next_stage E S intent) (\<lambda>_. also_do (solve E S intent) (?deliver intent))"
  let ?known = "\<lambda>(intent, questions). if questions \<noteq> []
      then finalized E S ''needs_clarification'' (question_result intent questions) else ?planned intent"
  from assms(1)[unfolded plan_body_def] obtain u f1 where f1: "start_stage E S f = (Inr u, f1)" and
    1: "also_do (understand_stage E S) ?known f1 = (Inr r, g)" by (rule also_do_InrE)
  from 1 obtain iq f2 where f2: "understand_stage E S f1 = (Inr iq, f2)" and 2: "?known iq f2 = (Inr r, g)"
    by (rule also_do_InrE)
  obtain intent questions where iq: "iq = (intent, questions)" by (cases iq)
  have none: "questions = []"
    using 2 iq assms(2) by (auto dest!: finalized_Inr simp: question_result_def split: if_splits)
  from 2 iq none have "?planned intent f2 = (Inr r, g)" by simp
  then obtain v f3 where f3: "plan_next_stage E S intent f2 = (Inr v, f3)" and
    3: "also_do (solve E S intent) (?deliver intent) f3 = (Inr r, g)" by (rule also_do_InrE)
  from 3 obtain r0 f4 where f4: "solve E S intent f3 = (Inr r0, f4)" and 4: "?deliver intent r0 f4 = (Inr r, g)"
    by (rule also_do_InrE)
  have "ap_status r0 \<noteq> ''need_clarification''"
    using 4 assms(2) by (auto dest!: finalized_Inr)
  with 4 obtain review f5 r1 g1 where f5: "review_stage E S (dump_plan r0) f4 = (Inr review, f5)"
    "after_review E S intent r0 review f5 = (Inr r1, g1)"
    "finalized E S (ap_status (confirm_plan (tm_confirmed E) r1)) (confirm_plan (tm_confirmed E) r1) g1 = (Inr r, g)"
    by (auto elim!: also_do_InrE simp: Let_def)
  have "course f5 = course f"
    using keepsD [OF keeps_stages(1) f1] keepsD [OF keeps_stages(2) f2] keepsD [OF keeps_stages(3) f3]
      keepsD [OF keeps_solve f4] keepsD [OF keeps_ending(2) f5(1)] by simp
  then show ?thesis using that f5 finalized_Inr by blast
qed

lemma plan_trip_Inr: "plan_trip E S f = (Inr r, g) \<Longrightarrow> \<exists>h. plan_body E S f = (Inr r, h)"
  unfolding plan_trip_def
  by (auto simp: also_do_def checkpoint_flow_def modify_def give_def raise_def split: prod.splits sum.splits)

section \<open>Completion\<close>


section \<open>What a result has been through\<close>

lemma enforce_review_success:
  assumes "ap_status (enforce_review v r) = ''success''"
  shows "rr_verdict v = Plan_approved \<and> enforce_review v r = r
    \<or> rr_verdict v = Plan_approved_with_warnings \<and> (\<exists>ws. enforce_review v r = r\<lparr>ap_warnings := ws\<rparr>)
        \<and> (\<forall>n \<in> set (rr_findings v). vf_severity n = Sev_warning \<longrightarrow> vf_code n \<in> set (ap_warnings (enforce_review v r)))
    \<or> ''soft_retry_limit'' \<in> set (ap_warnings (enforce_review v r))"
  using assms by (cases "rr_verdict v") (auto simp: enforce_review_def clarify_def)

text \<open>
  The plan of a result is the one the critic approved: \<open>v\<close> is what it said of the very plan that is
  returned, and its warnings are on the result.
\<close>

definition reviewed_as_given :: "team \<Rightarrow> plan_result \<Rightarrow> bool" where
  "reviewed_as_given E r \<longleftrightarrow>
     (\<exists>r0 x. tm_critic E (dump_plan r0) = Inr x \<and> ap_review r = Some (oc_output x)
        \<and> r = r0\<lparr>ap_review := ap_review r, ap_warnings := ap_warnings r\<rparr>
        \<and> rr_verdict (oc_output x) \<in> {Plan_approved, Plan_approved_with_warnings}
        \<and> (rr_verdict (oc_output x) = Plan_approved_with_warnings \<longrightarrow>
             (\<forall>n \<in> set (rr_findings (oc_output x)). vf_severity n = Sev_warning \<longrightarrow> vf_code n \<in> set (ap_warnings r))))"

lemma reviewed_given:
  assumes "tm_critic E (dump_plan r0) = Inr x" "r = enforce_review (oc_output x) (r0\<lparr>ap_review := Some (oc_output x)\<rparr>)"
    "ap_status r = ''success''"
  shows "reviewed_as_given E r \<or> ''soft_retry_limit'' \<in> set (ap_warnings r)"
proof -
  have "ap_status (enforce_review (oc_output x) (r0\<lparr>ap_review := Some (oc_output x)\<rparr>)) = ''success''"
    using assms(2,3) by simp
  from enforce_review_success [OF this] show ?thesis
    using assms(1) unfolding reviewed_as_given_def assms(2)
    by (elim disjE conjE exE) (auto intro!: exI [of _ r0] exI [of _ x])
qed

lemma after_review_success:
  assumes "after_review E S intent r0 review f = (Inr r, g)" "tc_mode (fl_trace f) = Mode_enforce"
    and "ap_status r = ''success''" and "\<And>v. review = Some v \<Longrightarrow> \<exists>x. tm_critic E (dump_plan r0) = Inr x \<and> v = oc_output x"
  shows "reviewed_as_given E r \<or> ''soft_retry_limit'' \<in> set (ap_warnings r)"
proof (cases review)
  case None
  then show ?thesis using assms(1-3) by (auto simp: after_review_none clarify_def)
next
  case (Some v)
  then obtain x where x: "tm_critic E (dump_plan r0) = Inr x" "v = oc_output x" using assms(4) by blast
  show ?thesis
  proof (cases "rr_verdict v = Plan_retry \<and> retry_allowed S f")
    case False
    then have "r = enforce_review v (r0\<lparr>ap_review := Some v\<rparr>)"
      using assms(1,2) Some by (auto simp: after_review_def flow_simps ended)
    then show ?thesis using reviewed_given [OF x(1)] x(2) assms(3) by blast
  next
    case True
    from assms(1,2) Some True obtain r2 f2 f3 second where
      again: "review_stage E S (dump_plan r2) f2 = (Inr second, f3)"
        "r = (case second of None \<Rightarrow> enforce_review v r2 | Some v2 \<Rightarrow> enforce_review v2 (r2\<lparr>ap_review := Some v2\<rparr>))"
      by (auto simp: after_review_def flow_simps ended elim!: also_do_InrE split: option.splits)
    show ?thesis
    proof (cases second)
      case None
      then show ?thesis using again(2) True by (simp add: enforce_review_def)
    next
      case (Some v2)
      then obtain x2 where "tm_critic E (dump_plan r2) = Inr x2" "v2 = oc_output x2"
        using review_stage_Inr again(1) by blast
      then show ?thesis using reviewed_given [of E r2 x2 r] again(2) Some assms(3) by auto
    qed
  qed
qed

text \<open>
  C4: in enforce mode a success has been reviewed: the critic approved, perhaps with warnings that
  are now on the result, the very plan that is returned. The only other successes are marked: a
  plan that the critic wanted adjusted when no retry was left, or the second plan of a retry, which
  carries the same warning whether or not the critic could review it.
\<close>

theorem enforced_success_reviewed:
  assumes "plan_trip E S f = (Inr r, g)" "tc_mode (fl_trace f) = Mode_enforce" "ap_status r = ''success''"
  shows "reviewed_as_given E r \<or> ''soft_retry_limit'' \<in> set (ap_warnings r)"
proof -
  obtain h where "plan_body E S f = (Inr r, h)" using plan_trip_Inr [OF assms(1)] by blast
  moreover have "ap_status r \<noteq> ''need_clarification''" using assms(3) by simp
  ultimately obtain intent r0 review f3 f4 r1 g1 where
    run: "review_stage E S (dump_plan r0) f3 = (Inr review, f4)" "course f4 = course f"
      "after_review E S intent r0 review f4 = (Inr r1, g1)" "r = confirm_plan (tm_confirmed E) r1"
    by (rule plan_body_Inr)
  have "r = r1" using run(4) assms(3) by (auto simp: confirm_plan_def clarify_def Let_def split: if_splits)
  moreover have "tc_mode (fl_trace f4) = Mode_enforce" using run(2) assms(2) by (simp add: course_def)
  ultimately show ?thesis
    using after_review_success [OF run(3)] assms(3) run(1) review_stage_Inr by blast
qed

text \<open>
  C12: no long walk and no costly plan passes unconfirmed: a success whose route is walked, with no
  walking limit among its hard constraints, stays below the threshold of its party unless the user
  confirmed the walk, and one with no cost limit is estimated below 1000 unless the user confirmed
  the cost.
\<close>

theorem success_is_confirmed:
  assumes "plan_trip E S f = (Inr r, g)" "ap_status r = ''success''"
  shows "(dget (tm_confirmed E) ''walking_distance'' = Some True \<or> in_mode (ap_intent r) \<noteq> Some Walking
      \<or> hc_max_walking (in_hard (ap_intent r)) \<noteq> None \<or> ap_distance r < walking_threshold r)
    \<and> (dget (tm_confirmed E) ''estimated_cost'' = Some True \<or> hc_max_cost (in_hard (ap_intent r)) \<noteq> None
      \<or> estimated_plan_cost r < 1000)"
proof -
  obtain h where "plan_body E S f = (Inr r, h)" using plan_trip_Inr [OF assms(1)] by blast
  moreover have "ap_status r \<noteq> ''need_clarification''" using assms(2) by simp
  ultimately obtain r1 where "r = confirm_plan (tm_confirmed E) r1" by (rule plan_body_Inr)
  then have "confirmation_questions (tm_confirmed E) r = []"
    using assms(2) by (auto simp: confirm_plan_def clarify_def Let_def split: if_splits)
  then show ?thesis
    using assms(2) by (auto simp: confirmation_questions_def needs_walking_confirmation_def only_if_def split: if_splits)
qed

section \<open>Soft retries\<close>










lemma keeps_fail [keep_intros]: "keeps course (fail_flow E e)"
  unfolding fail_flow_def
  by (intro keep_intros; simp add: course_def fail_workflow_def fail_trace_def Let_def split: option.split)


section \<open>Late failures\<close>

text \<open>
  C17: a trip that fails once its workflow is finalized (a write that fails after the final answer)
  is not recorded as failed: from there the shared state cannot go to the failed phase, so
  \<open>fail\<close> itself raises the access error in place of the exception it was called for, and the
  durable rows stay as they are.
\<close>

theorem failure_after_final_answer:
  assumes "fl_board f = Some b" "fl_revision f = bo_revision b" "0 \<le> bo_revision b"
    and "bo_phase b \<in> {Ph_finalized, Ph_completed, Ph_failed}" "fl_store f \<noteq> None"
  shows "also_do (fail_flow E e) (\<lambda>_. raise e) f = (Inl (shared_failure Access_denied), f)"
proof -
  have "Ph_failed \<notin> set (phase_transitions (bo_phase b))" using assms(4) by auto
  then have "share Ag_supervisor ''workflow_failed'' [''execution_context''] h f = (Inl (shared_failure Access_denied), f)" for h
    using assms(1,2) by (simp add: share_def share_step_def)
  then show ?thesis
    using assms(2,3,5) by (simp add: fail_flow_def flow_simps also_do_Inl)
qed

section \<open>A question about an adjusted intent\<close>

lemma review_without_plan:
  assumes "waits Ep_supervisor m b f" "may_run_critic S f"
  shows "\<exists>g. review_stage E S plan f = (Inl (protocol_failure ''no pending message''), g)"
proof -
  have "consume Ep_critic [''plan_candidate''] g = (Inl (protocol_failure ''no pending message''), g)"
    if "fl_pending g = [(Ep_supervisor, [m])]" for g
    using that by (simp add: consume_def pop_mail_def)
  then show ?thesis
    using assms unfolding review_stage_def waits_def by (simp add: flow_simps also_do_Inl)
qed

text \<open>
  C18: a question of the planner about an adjusted intent does not reach the user: when the critic
  asked for a retry and the planner answers the adjusted intent with a question, the candidate goes
  to the supervisor, and the review that follows without looking at the status finds nothing and
  raises, unless the budget of the critic is used up by then.
\<close>

theorem retried_question_is_lost:
  assumes at: "review_waits E v b f" "bo_requirement b = Some intent"
    and retry: "rr_verdict v = Plan_retry" "rr_adjustments v = Some a" "retry_allowed S f"
    and graph: "tc_plan (fl_trace f) = Some p" "has_graph safe weather p"
    and answer: "agents_answer E S weather (adjust_intent a intent)"
      "\<forall>px x. px_intent px = adjust_intent a intent \<longrightarrow> tm_planner E px = Inr x \<longrightarrow> ap_status (oc_output x) = ''need_clarification''"
  shows "case after_review E S intent r (Some v) f of
      (Inl e, g) \<Rightarrow> e = protocol_failure ''no pending message''
    | (Inr _, g) \<Rightarrow> \<not> may_run_critic S g"
proof -
  have "map_option skeleton (tc_plan (fl_trace f)) = Some (skeleton p)" using graph(1) by simp
  from retry_solve [OF at(1) retry(2) at(2) this graph(2) answer(1)] obtain r2 g2 g1 where
    run: "apply_soft_adjustments E intent v f = (Inr (adjust_intent a intent), g1)"
      "solve E S (adjust_intent a intent) g1 = (Inr r2, g2)"
    and out: "solved E S (adjust_intent a intent) intent (Some a) g1 r2 g2" by blast
  obtain px x b2 where r2: "r2 = oc_output x" "px_intent px = adjust_intent a intent" "tm_planner E px = Inr x"
    "plan_waits E S r2 b2 g2"
    using out unfolding solved_def by blast
  have "ap_status r2 = ''need_clarification''" using answer(2) r2(1-3) by simp
  then obtain m where m: "waits Ep_supervisor m b2 g2" using r2(4) unfolding plan_waits_def by blast
  show ?thesis
  proof (cases "may_run_critic S g2")
    case True
    from review_without_plan [OF m True] obtain g where
      "review_stage E S (dump_plan r2) g2 = (Inl (protocol_failure ''no pending message''), g)" by blast
    then show ?thesis
      using run retry by (simp add: after_review_def flow_simps also_do_Inr also_do_Inl)
  next
    case False
    from review_skipped [OF waits_board [OF m] False] obtain g where
      g: "review_stage E S (dump_plan r2) g2 = (Inr None, g)" by blast
    moreover have "\<not> may_run_critic S g"
      using g False by (auto simp: review_stage_def flow_simps)
    ultimately show ?thesis
      using run retry by (simp add: after_review_def flow_simps also_do_Inr)
  qed
qed

section \<open>The shared state of this model and of the store\<close>


section \<open>Witnesses\<close>



theorem enforced_success_reviewed_witness:
  "\<exists>r g. plan_trip (walk_team (\<lambda>_. ''success'') (plain_report Plan_approved None)) walk_settings
      (new_flow Mode_enforce ''task'' None) = (Inr r, g)
    \<and> reviewed_as_given (walk_team (\<lambda>_. ''success'') (plain_report Plan_approved None)) r"
proof -
  obtain g where g: "plan_trip (walk_team (\<lambda>_. ''success'') (plain_report Plan_approved None)) walk_settings
      (new_flow Mode_enforce ''task'' None)
    = (Inr ((walk_plan ''success'' walk_intent)\<lparr>ap_review := Some (plain_report Plan_approved None)\<rparr>), g)"
    using walk_trip by blast
  from enforced_success_reviewed [OF this] show ?thesis
    using g by (simp add: new_flow_def walk_plan_def)
qed

theorem success_is_confirmed_witness:
  "\<exists>r g. plan_trip (walk_team (\<lambda>_. ''success'') (plain_report Plan_approved None)) walk_settings
      (new_flow Mode_enforce ''task'' None) = (Inr r, g) \<and> in_mode (ap_intent r) = Some Walking
    \<and> ap_distance r < walking_threshold r \<and> estimated_plan_cost r < 1000"
proof -
  obtain g where g: "plan_trip (walk_team (\<lambda>_. ''success'') (plain_report Plan_approved None)) walk_settings
      (new_flow Mode_enforce ''task'' None)
    = (Inr ((walk_plan ''success'' walk_intent)\<lparr>ap_review := Some (plain_report Plan_approved None)\<rparr>), g)"
    using walk_trip by blast
  from success_is_confirmed [OF this] show ?thesis
    using g by (simp add: team_simps walk_plan_def walk_intent_def no_constraints_def)
qed

definition late_flow :: flow where
  "late_flow = (new_flow Mode_enforce ''task'' (Some (1, \<lparr>wd_runs = [], wd_tasks = [], wd_snapshots = []\<rparr>)))
     \<lparr>fl_board := Some (new_board\<lparr>bo_phase := Ph_finalized, bo_revision := 5\<rparr>), fl_revision := 5\<rparr>"

theorem failure_after_final_answer_witness:
  "also_do (fail_flow (walk_team (\<lambda>_. ''success'') (plain_report Plan_approved None)) validation_failure)
     (\<lambda>_. raise validation_failure) late_flow = (Inl (shared_failure Access_denied) :: seen_exception + plan_result, late_flow)"
  by (rule failure_after_final_answer [where b = "new_board\<lparr>bo_phase := Ph_finalized, bo_revision := 5\<rparr>"])
    (simp_all add: late_flow_def new_flow_def)

definition retry_board :: board where
  "retry_board = new_board\<lparr>bo_phase := Ph_reviewed, bo_requirement := Some walk_intent,
     bo_evaluation := Some (plain_report Plan_retry (Some shorter_walks))\<rparr>"

definition retry_flow :: flow where
  "retry_flow = tc_update (\<lambda>t. t\<lparr>tc_plan := Some (build_execution_plan id walk_intent Mode_enforce)\<rparr>)
     ((new_flow Mode_enforce ''task'' None)\<lparr>fl_board := Some retry_board, fl_revision := 0,
       fl_pending := [(Ep_supervisor, [mail_of Ep_critic Mt_result ''review_report'' 0 ''hash'' None None])]\<rparr>)"

theorem retried_question_is_lost_witness:
  "case after_review (walk_team (\<lambda>_. ''need_clarification'') (plain_report Plan_approved None)) walk_settings walk_intent
      (walk_plan ''success'' walk_intent) (Some (plain_report Plan_retry (Some shorter_walks))) retry_flow of
     (Inl e, g) \<Rightarrow> e = protocol_failure ''no pending message''
   | (Inr _, g) \<Rightarrow> \<not> may_run_critic walk_settings g"
proof (rule retried_question_is_lost)
  show "review_waits (walk_team (\<lambda>_. ''need_clarification'') (plain_report Plan_approved None))
      (plain_report Plan_retry (Some shorter_walks)) retry_board retry_flow"
    by (auto simp: review_waits_def waits_def refers_def retry_flow_def retry_board_def new_board_def new_flow_def team_simps tc_update_def)
  show "tc_plan (fl_trace retry_flow) = Some (build_execution_plan id walk_intent Mode_enforce)"
    by (simp add: retry_flow_def)
  show "has_graph False False (build_execution_plan id walk_intent Mode_enforce)" by (rule walk_graph)
  show "agents_answer (walk_team (\<lambda>_. ''need_clarification'') (plain_report Plan_approved None)) walk_settings False
      (adjust_intent shorter_walks walk_intent)"
    by (simp add: agents_answer_def team_simps said_simps)
qed (simp_all add: retry_board_def plain_report_def retry_allowed_def retry_flow_def new_flow_def walk_settings_def team_simps
      said_simps walk_plan_def)


end
