(* ===== verification/Spec2Isabelle.thy ===== *)
theory Spec2Isabelle
  imports
    Store_Properties
    Trip_Properties
    Protocol_Properties
    Shared_State_Properties
    Transport_Properties
    Replan_Examples
    Agent_Deciders
    Agent_Runtime_Properties
    Event_Worker_Properties
    Task_Graph_Properties
    Workflow_Checkpoint_Properties
    Critic_Properties
    Planning_Properties
begin

text \<open>
  A verification library for the travel-planning backend under \<open>src/backend/app\<close>.
\<close>

end
